theory Spec2Isabelle
  imports Complex_Main "HOL-Library.Monad_Syntax"
begin

section \<open>Conventions of the embedding\<close>

text \<open>
  The VECTRA simulation core is a C program over one mutable \<^verbatim>\<open>SimulationState\<close>.
  Every C function \<^verbatim>\<open>f(state, ...)\<close> becomes a HOL function that takes the state
  (and the generator, when it draws) and returns the updated one.

  \<^item> A \<^verbatim>\<open>double\<close> is a \<^typ>\<open>real\<close> and its arithmetic is exact, with two
    exceptions where the rounding or the special values of IEEE arithmetic decide what
    the code does. The loop variables \<^verbatim>\<open>t\<close> of
    \<^verbatim>\<open>for (t = 0.0; t < 1.0; t += dt_farm)\<close> and \<^verbatim>\<open>elapsed\<close> of
    \<^verbatim>\<open>while (elapsed < 1.0) { ...; elapsed += sim->dt; }\<close> are accumulated with the
    rounded addition \<open>fl_add\<close> of binary64 (round to nearest, ties to even), because
    the rounding decides the number of passes: ten additions of \<open>0.1\<close> give
    \<open>0.9999999999999999\<close>, and both loops make eleven passes with a step of \<open>0.1\<close>.
    And \<^verbatim>\<open>exp(inf * log(1.0 - p))\<close> of the passive detection is modelled with the
    values C gives at \<open>p \<ge> 1\<close>, where \<^verbatim>\<open>log\<close> returns \<open>-\<infinity>\<close> or NaN. Overflow,
    underflow and the rounding of every other operation are not modelled.
  \<^item> A C array is a total function from \<^typ>\<open>nat\<close>; \<^verbatim>\<open>a[i] = v\<close> is a function
    update. Indices and stage counts are naturals: negative ones are outside the model.
    The one bound that is written out is the third dimension of the weather grids
    (\<^verbatim>\<open>[365]\<close>): a read beyond it is undefined in C and is the value \<open>None\<close> here.
  \<^item> A C \<^verbatim>\<open>int\<close> counter is an \<^typ>\<open>int\<close>; overflow is not modelled.
  \<^item> A pointer \<^verbatim>\<open>Farm *farm = &state->farms[k]\<close> is the index \<open>k\<close>: every access
    goes through the state, so the aliasing between \<^verbatim>\<open>farm\<close> and
    \<^verbatim>\<open>state->farms[farm->id]\<close> is the one of the source.
  \<^item> A loop that terminates for every input is a \<open>fold\<close> over its index range or a
    recursive function; a loop that may run forever is a \<open>partial_function\<close> in the
    option monad, where \<open>None\<close> also stands for not returning.
\<close>

section \<open>SimulationState.h\<close>

definition MAX_GRID_S :: nat where "MAX_GRID_S = 244"
definition MAX_GRID_E :: nat where "MAX_GRID_E = 131"

text \<open>The size of the day dimension of \<^verbatim>\<open>temp_grid\<close> and \<^verbatim>\<open>rain_grid\<close>,
  written \<^verbatim>\<open>365\<close> in the declarations.\<close>

definition WEATHER_DAYS :: nat where "WEATHER_DAYS = 365"

record Farm =
  farm_id :: nat
  farm_x :: "nat \<Rightarrow> real"
  county_number :: real
  temp_grid_x :: nat
  temp_grid_y :: nat
  rain_grid_x :: nat
  rain_grid_y :: nat
  midge_grid_x :: nat
  midge_grid_y :: nat
  ac_grid_x :: nat
  ac_grid_y :: nat
  v_intercept :: real
  sin_yearly :: real
  cos_yearly :: real
  sin_6_month :: real
  cos_6_month :: real
  cos_4_month :: real
  temp_eff :: real
  temp_eff_sq :: real
  rain_eff :: real
  wind_eff :: real
  autocorr :: real
  overdispersion :: real
  number_of_sheep :: real
  number_of_cattle :: real
  s_sheep :: real
  i_sheep :: "nat \<Rightarrow> real"
  r_sheep :: real
  s_cattle :: real
  i_cattle :: "nat \<Rightarrow> real"
  r_cattle :: real
  rel_local_weight :: real
  force :: real
  detected :: bool
  movement_banned :: bool
  protection_zone :: bool
  surveillance_zone :: bool
  free_area :: bool
  ever_been_detected :: bool
  ever_been_infected :: bool
  first_infected_due_to_movement :: bool
  num_local_farms :: nat
  local_farm_ids :: "nat \<Rightarrow> nat"
  temp_today :: real
  mean_rain_last_week :: real
  wind_today :: real

type_synonym grid = "nat \<Rightarrow> nat \<Rightarrow> real"

record SimulationState =
  simulation_day :: nat
  day_of_year :: nat
  farms :: "nat \<Rightarrow> Farm"
  num_farms :: nat
  latent_midge_density :: "nat \<Rightarrow> nat \<Rightarrow> nat \<Rightarrow> real"
  inf_midge_density :: grid
  farm_biting_pref_grid :: grid
  diffusion_soln_grid :: grid
  diffusion_grid :: grid
  temp_grid :: "nat \<Rightarrow> nat \<Rightarrow> nat \<Rightarrow> real"
  rain_grid :: "nat \<Rightarrow> nat \<Rightarrow> nat \<Rightarrow> real"
  ac_grid :: grid
  num_movement_links :: nat
  movement_from :: "nat \<Rightarrow> nat"
  movement_to :: "nat \<Rightarrow> nat"
  movement_risk :: "nat \<Rightarrow> real"
  num_farms_detected_today :: int
  num_sheep_infected_today :: int
  num_cattle_infected_today :: int
  num_sheep_deaths :: int
  interrupted_movements :: int
  days_of_movement_ban :: int
  num_farms_checked :: int
  num_tests :: int
  num_pos_tests :: int
  total_farm_days_movement_banned :: int
  total_farm_days_affected_by_control :: int
  num_movement_transmissions :: int
  num_risky_moves_blocked :: int
  btv_observed :: bool
  first_detected_farm_id :: nat
  restriction_zones_implemented :: bool
  active_surveillance_performed :: bool
  days_since_last_detection :: int

section \<open>parameters.h and entomology.h\<close>

record SimulationParams =
  dt :: real
  dt_farm :: real
  num_days :: int
  num_reps :: int
  start_day_of_year :: int

text \<open>\<^verbatim>\<open>preference_for_sheep\<close> and \<^verbatim>\<open>transmission_scalar\<close> are read by farm\_epi.c
  as members of \<^verbatim>\<open>EpiParams\<close>; they are fields here as well.\<close>

record EpiParams =
  detection_prob_cattle :: real
  detection_prob_sheep :: real
  diffusion_length_scale :: real
  num_inf_stages_sheep :: nat
  num_inf_stages_cattle :: nat
  num_eip_stages :: nat
  p_v :: real
  p_h :: real
  sheep_mort_rate :: real
  rec_rate_sheep :: real
  rec_rate_cattle :: real
  preference_for_sheep :: real
  transmission_scalar :: real

record ControlParams =
  ban_radius :: real
  county_ban :: bool
  no_control :: bool
  no_farm_ban :: bool
  pre_movement_tests :: bool
  pz_radius :: real
  restriction_zones :: bool
  sz_radius :: real
  total_ban :: bool

record GridParams =
  autocorr_grid_width :: real
  discretisation :: real
  midge_grid_width :: real
  rain_grid_width :: real
  temp_grid_width :: real

text \<open>The shipment-size parameters that movement.c reads through \<^verbatim>\<open>mov->\<close>.\<close>

record MovementParams =
  cattle_shipment_size_k :: real
  cattle_shipment_size_p :: real
  sheep_shipment_size_k :: real
  sheep_shipment_size_p :: real

record VectorSpecies =
  biting_rate :: "real \<Rightarrow> real"
  mortality_rate :: "real \<Rightarrow> real"
  incubation_rate :: "real \<Rightarrow> real"

text \<open>All the constant parameter structs that \<^verbatim>\<open>simulate_day\<close> receives.\<close>

record Params =
  sim :: SimulationParams
  epi :: EpiParams
  ctrl :: ControlParams
  grids :: GridParams
  mov :: MovementParams
  species :: VectorSpecies

section \<open>The GSL generator and random.c\<close>

text \<open>
  The generator is a library object. A value of \<open>gsl_rng\<close> fixes one outcome of a run:
  the number of draws made so far and, for every position of the stream and every
  argument, the value the library returns there. Quantifying over all generators
  quantifies over all outcomes. \<open>rng_ok\<close> is the library's contract on the ranges:
  \<^verbatim>\<open>gsl_rng_uniform\<close> returns a number in \<open>[0,1)\<close>, zero included, and a binomial
  draw of \<open>n\<close> trials is at most \<open>n\<close>.
\<close>

record gsl_rng =
  rng_draws :: nat
  uniform_out :: "nat \<Rightarrow> real"
  gaussian_out :: "nat \<Rightarrow> real \<Rightarrow> real"
  poisson_out :: "nat \<Rightarrow> real \<Rightarrow> nat"
  binomial_out :: "nat \<Rightarrow> real \<Rightarrow> nat \<Rightarrow> nat"
  negative_binomial_out :: "nat \<Rightarrow> real \<Rightarrow> real \<Rightarrow> nat"

definition rng_ok :: "gsl_rng \<Rightarrow> bool" where
  "rng_ok g \<longleftrightarrow> (\<forall>n. 0 \<le> uniform_out g n \<and> uniform_out g n < 1)
     \<and> (\<forall>n p m. binomial_out g n p m \<le> m)"

definition rng_next :: "gsl_rng \<Rightarrow> gsl_rng" where
  "rng_next g = g\<lparr>rng_draws := Suc (rng_draws g)\<rparr>"

definition gsl_rng_uniform :: "gsl_rng \<Rightarrow> real \<times> gsl_rng" where
  "gsl_rng_uniform g = (uniform_out g (rng_draws g), rng_next g)"

definition gsl_ran_gaussian :: "gsl_rng \<Rightarrow> real \<Rightarrow> real \<times> gsl_rng" where
  "gsl_ran_gaussian g sigma = (gaussian_out g (rng_draws g) sigma, rng_next g)"

definition gsl_ran_poisson :: "gsl_rng \<Rightarrow> real \<Rightarrow> nat \<times> gsl_rng" where
  "gsl_ran_poisson g mu = (poisson_out g (rng_draws g) mu, rng_next g)"

definition gsl_ran_binomial :: "gsl_rng \<Rightarrow> real \<Rightarrow> nat \<Rightarrow> nat \<times> gsl_rng" where
  "gsl_ran_binomial g p n = (binomial_out g (rng_draws g) p n, rng_next g)"

definition gsl_ran_negative_binomial :: "gsl_rng \<Rightarrow> real \<Rightarrow> real \<Rightarrow> nat \<times> gsl_rng" where
  "gsl_ran_negative_binomial g p n = (negative_binomial_out g (rng_draws g) p n, rng_next g)"

text \<open>The Poisson probability functions of the library, by their documented meaning:
  \<open>p(k) = mu^k / k! * exp (- mu)\<close>, \<open>P(k) = p(0) + ... + p(k)\<close> and \<open>Q(k) = 1 - P(k)\<close>.\<close>

definition gsl_ran_poisson_pdf :: "nat \<Rightarrow> real \<Rightarrow> real" where
  "gsl_ran_poisson_pdf k mu = mu ^ k / fact k * exp (- mu)"

definition gsl_cdf_poisson_P :: "nat \<Rightarrow> real \<Rightarrow> real" where
  "gsl_cdf_poisson_P k mu = (\<Sum>j\<le>k. gsl_ran_poisson_pdf j mu)"

definition gsl_cdf_poisson_Q :: "nat \<Rightarrow> real \<Rightarrow> real" where
  "gsl_cdf_poisson_Q k mu = 1 - gsl_cdf_poisson_P k mu"

text \<open>The cast \<^verbatim>\<open>(int)x\<close> of a double truncates toward zero.\<close>

definition c_int :: "real \<Rightarrow> int" where
  "c_int v = (if 0 \<le> v then \<lfloor>v\<rfloor> else \<lceil>v\<rceil>)"

definition rand_binomial :: "gsl_rng \<Rightarrow> int \<Rightarrow> real \<Rightarrow> int \<times> gsl_rng" where
  "rand_binomial g n p = (let (b, g') = gsl_ran_binomial g p (nat n) in (int b, g'))"

definition rand_poisson :: "gsl_rng \<Rightarrow> real \<Rightarrow> int \<times> gsl_rng" where
  "rand_poisson g lambda = (let (b, g') = gsl_ran_poisson g lambda in (int b, g'))"

definition poisson_pmf :: "int \<Rightarrow> real \<Rightarrow> real" where
  "poisson_pmf k lambda = gsl_ran_poisson_pdf (nat k) lambda"

definition poisson_cdf :: "int \<Rightarrow> real \<Rightarrow> real" where
  "poisson_cdf k lambda = gsl_cdf_poisson_P (nat k) lambda"

definition poisson_sf :: "int \<Rightarrow> real \<Rightarrow> real" where
  "poisson_sf k lambda = gsl_cdf_poisson_Q (nat k) lambda"

definition int_min :: "int \<Rightarrow> int \<Rightarrow> int" where
  "int_min a b = (if a < b then a else b)"

section \<open>simulation\_internal.h\<close>

text \<open>\<^verbatim>\<open>for (i = 0; i < n; i++) sum += a[i];\<close> starting from \<^verbatim>\<open>sum = 0.0\<close>.\<close>

primrec sum_stages :: "(nat \<Rightarrow> real) \<Rightarrow> nat \<Rightarrow> real" where
  "sum_stages a 0 = 0"
| "sum_stages a (Suc n) = sum_stages a n + a n"

definition dist_sq :: "Farm \<Rightarrow> Farm \<Rightarrow> real" where
  "dist_sq a b = (let dx = farm_x a 0 - farm_x b 0; dy = farm_x a 1 - farm_x b 1
                  in dx * dx + dy * dy)"

definition num_inf_cattle :: "Farm \<Rightarrow> nat \<Rightarrow> real" where
  "num_inf_cattle f num_stages = sum_stages (i_cattle f) num_stages"

definition num_inf_sheep :: "Farm \<Rightarrow> nat \<Rightarrow> real" where
  "num_inf_sheep f num_stages = sum_stages (i_sheep f) num_stages"

definition num_cattle :: "Farm \<Rightarrow> nat \<Rightarrow> real" where
  "num_cattle f num_stages = s_cattle f + num_inf_cattle f num_stages + r_cattle f"

definition num_sheep :: "Farm \<Rightarrow> nat \<Rightarrow> real" where
  "num_sheep f num_stages = s_sheep f + num_inf_sheep f num_stages + r_sheep f"

definition eff_num_animals :: "Farm \<Rightarrow> real \<Rightarrow> nat \<Rightarrow> nat \<Rightarrow> real" where
  "eff_num_animals f pref inf_stages_cattle inf_stages_sheep =
     num_cattle f inf_stages_cattle + pref * num_sheep f inf_stages_sheep"

definition eff_num_inf_animals :: "Farm \<Rightarrow> real \<Rightarrow> nat \<Rightarrow> nat \<Rightarrow> real" where
  "eff_num_inf_animals f pref inf_stages_cattle inf_stages_sheep =
     sum_stages (i_cattle f) inf_stages_cattle
       + sum_stages (\<lambda>i. pref * i_sheep f i) inf_stages_sheep"

text \<open>An assignment through a farm pointer: \<^verbatim>\<open>state->farms[k].field = v\<close>.\<close>

definition upd_farm :: "nat \<Rightarrow> (Farm \<Rightarrow> Farm) \<Rightarrow> SimulationState \<Rightarrow> SimulationState" where
  "upd_farm k h st = st\<lparr>farms := (farms st)(k := h (farms st k))\<rparr>"

section \<open>control.c\<close>

text \<open>The two assignments \<^verbatim>\<open>movement_banned = true; free_area = false;\<close> on
  \<^verbatim>\<open>state->farms[k]\<close>.\<close>

definition ban_farm :: "nat \<Rightarrow> SimulationState \<Rightarrow> SimulationState" where
  "ban_farm k st = upd_farm k (\<lambda>f. f\<lparr>movement_banned := True, free_area := False\<rparr>) st"

text \<open>The body of the loop that builds the local farm list of \<open>centre_id\<close>:
  \<^verbatim>\<open>centre->local_farm_ids[centre->num_local_farms++] = k\<close> when \<open>k\<close> is another farm
  closer than the ban radius.\<close>

definition add_local_farm ::
  "nat \<Rightarrow> ControlParams \<Rightarrow> nat \<Rightarrow> SimulationState \<Rightarrow> SimulationState" where
  "add_local_farm centre_id c k st =
     (if k \<noteq> centre_id
         \<and> dist_sq (farms st k) (farms st centre_id) < ban_radius c * ban_radius c
      then upd_farm centre_id
             (\<lambda>f. f\<lparr>local_farm_ids := (local_farm_ids f)(num_local_farms f := k),
                    num_local_farms := num_local_farms f + 1\<rparr>) st
      else st)"

definition build_local_farms ::
  "nat \<Rightarrow> ControlParams \<Rightarrow> SimulationState \<Rightarrow> SimulationState" where
  "build_local_farms centre_id c st =
     (if \<not> ever_been_detected (farms st centre_id)
      then let s0 = upd_farm centre_id (\<lambda>f. f\<lparr>num_local_farms := 0\<rparr>) st;
               s1 = fold (add_local_farm centre_id c) [0..<num_farms s0] s0
           in upd_farm centre_id (\<lambda>f. f\<lparr>ever_been_detected := True\<rparr>) s1
      else st)"

definition ban_local_farms :: "nat \<Rightarrow> SimulationState \<Rightarrow> SimulationState" where
  "ban_local_farms centre_id st =
     fold (\<lambda>n s. ban_farm (local_farm_ids (farms s centre_id) n) s)
          [0..<num_local_farms (farms st centre_id)] st"

definition ban_county :: "nat \<Rightarrow> SimulationState \<Rightarrow> SimulationState" where
  "ban_county centre_id st =
     (let cn = county_number (farms st centre_id)
      in fold (\<lambda>k s. if county_number (farms s k) = cn then ban_farm k s else s)
              [0..<num_farms st] st)"

definition ban_all :: "SimulationState \<Rightarrow> SimulationState" where
  "ban_all st = fold ban_farm [0..<num_farms st] st"

definition implement_local_movement_ban ::
  "SimulationState \<Rightarrow> nat \<Rightarrow> ControlParams \<Rightarrow> SimulationState" where
  "implement_local_movement_ban st centre_id c =
     (let s1 = build_local_farms centre_id c st;
          s2 = (if \<not> no_farm_ban c then ban_local_farms centre_id s1 else s1);
          s3 = (if county_ban c then ban_county centre_id s2 else s2);
          s4 = (if total_ban c then ban_all s3 else s3)
      in s4)"

definition zone_farm ::
  "nat \<Rightarrow> real \<Rightarrow> real \<Rightarrow> nat \<Rightarrow> SimulationState \<Rightarrow> SimulationState" where
  "zone_farm centre_id pz2 sz2 k st =
     (let d2 = dist_sq (farms st k) (farms st centre_id)
      in if d2 \<le> pz2
         then upd_farm k (\<lambda>f. f\<lparr>protection_zone := True, free_area := False\<rparr>) st
         else if d2 \<le> sz2
         then upd_farm k (\<lambda>f. f\<lparr>surveillance_zone := True, free_area := False\<rparr>) st
         else st)"

definition setup_restriction_zone ::
  "SimulationState \<Rightarrow> nat \<Rightarrow> ControlParams \<Rightarrow> SimulationState" where
  "setup_restriction_zone st centre_id c =
     (let pz2 = pz_radius c * pz_radius c;
          sz2 = sz_radius c * sz_radius c;
          s1 = fold (zone_farm centre_id pz2 sz2) [0..<num_farms st] st
      in s1\<lparr>restriction_zones_implemented := True\<rparr>)"

definition survey_farm ::
  "EpiParams \<Rightarrow> real \<Rightarrow> nat \<Rightarrow> SimulationState \<Rightarrow> SimulationState" where
  "survey_farm e sr2 k st =
     (if dist_sq (farms st k) (farms st (first_detected_farm_id st)) \<le> sr2
      then let s1 = st\<lparr>num_farms_checked := num_farms_checked st + 1\<rparr>;
               s2 = s1\<lparr>num_tests := num_tests s1
                      + c_int (num_cattle (farms s1 k) (num_inf_stages_cattle e)
                               + num_sheep (farms s1 k) (num_inf_stages_sheep e))\<rparr>;
               inf = num_inf_cattle (farms s2 k) (num_inf_stages_cattle e)
                      + num_inf_sheep (farms s2 k) (num_inf_stages_sheep e)
           in if inf > 0
              then let s3 = upd_farm k (\<lambda>f. f\<lparr>detected := True\<rparr>) s2
                   in s3\<lparr>num_pos_tests := num_pos_tests s3
                          + c_int (inf + r_sheep (farms s3 k) + r_cattle (farms s3 k))\<rparr>
              else s2
      else st)"

definition perform_active_surveillance ::
  "SimulationState \<Rightarrow> EpiParams \<Rightarrow> SimulationState" where
  "perform_active_surveillance st e =
     (let surv_radius = 15000;
          sr2 = surv_radius * surv_radius;
          s1 = fold (survey_farm e sr2) [0..<num_farms st] st
      in s1\<lparr>active_surveillance_performed := True\<rparr>)"

definition apply_control_measures ::
  "SimulationState \<Rightarrow> EpiParams \<Rightarrow> ControlParams \<Rightarrow> SimulationState" where
  "apply_control_measures st e c =
     (if no_control c then st
      else if btv_observed st \<and> \<not> restriction_zones_implemented st
      then let s1 = (if restriction_zones c
                     then setup_restriction_zone st (first_detected_farm_id st) c else st);
               s2 = (if \<not> active_surveillance_performed s1
                     then perform_active_surveillance s1 e else s1)
           in s2
      else st)"

section \<open>Rounded addition of doubles\<close>

text \<open>\<open>round_double x\<close> is the binary64 number nearest to \<open>x\<close>, ties to the even
  significand: with \<open>e = \<lfloor>log\<^sub>2 \<bar>x\<bar>\<rfloor>\<close> the spacing of the doubles around \<open>x\<close> is
  \<open>2\<^sup>e\<^sup>-\<^sup>5\<^sup>2\<close>. Overflow and subnormal numbers are left out. \<open>fl_add\<close> is the addition
  of two doubles, and \<open>dt_farm_double\<close> the double that the literal \<^verbatim>\<open>0.1\<close> denotes.\<close>

definition pow2 :: "int \<Rightarrow> real" where
  "pow2 k = (if 0 \<le> k then 2 ^ nat k else 1 / 2 ^ nat (- k))"

definition round_half_even :: "real \<Rightarrow> int" where
  "round_half_even y =
     (let f = \<lfloor>y\<rfloor>
      in if y - real_of_int f < 1 / 2 then f
         else if 1 / 2 < y - real_of_int f then f + 1
         else if even f then f else f + 1)"

definition round_double :: "real \<Rightarrow> real" where
  "round_double x =
     (if x = 0 then 0
      else let u = pow2 (\<lfloor>log 2 \<bar>x\<bar>\<rfloor> - 52)
           in u * real_of_int (round_half_even (x / u)))"

definition fl_add :: "real \<Rightarrow> real \<Rightarrow> real" where
  "fl_add a b = round_double (a + b)"

definition dt_farm_double :: real where
  "dt_farm_double = 3602879701896397 / 36028797018963968"

section \<open>farm\_epi.c\<close>

text \<open>\<^verbatim>\<open>farm_get_weather\<close>: the day index of both weather reads is
  \<^verbatim>\<open>state->simulation_day\<close> itself.\<close>

definition weather_time_index :: "SimulationState \<Rightarrow> nat" where
  "weather_time_index st = simulation_day st"

definition farm_get_weather ::
  "nat \<Rightarrow> SimulationState \<Rightarrow> gsl_rng \<Rightarrow> (SimulationState \<times> gsl_rng) option" where
  "farm_get_weather k st g =
     (let day = weather_time_index st
      in if day < WEATHER_DAYS
         then let (z, g') = gsl_ran_gaussian g 1
              in Some (upd_farm k
                   (\<lambda>f. f\<lparr>temp_today := temp_grid st (temp_grid_y f) (temp_grid_x f) day,
                          mean_rain_last_week := rain_grid st (rain_grid_y f) (rain_grid_x f) day,
                          wind_today := 0,
                          autocorr := 0,
                          overdispersion := (1.08 + 0.3763) * z\<rparr>) st, g')
         else None)"

text \<open>The block that farm\_deaths\_and\_recoveries runs when a detection trigger fires.
  The source writes it out three times, word for word (after the mortality draw of the
  last stage, after the mortality draw of an earlier stage, and in the passive
  detection at the end of the day).\<close>

definition on_detection :: "nat \<Rightarrow> ControlParams \<Rightarrow> SimulationState \<Rightarrow> SimulationState" where
  "on_detection k c st =
     (let s1 = upd_farm k (\<lambda>f. f\<lparr>detected := True\<rparr>) st;
          s2 = s1\<lparr>num_farms_detected_today := num_farms_detected_today s1 + 1\<rparr>
      in if \<not> no_control c
         then let s3 = (if \<not> no_farm_ban c
                        then upd_farm k (\<lambda>f. f\<lparr>movement_banned := True\<rparr>) s2 else s2);
                  s4 = implement_local_movement_ban s3 (farm_id (farms s3 k)) c
              in if \<not> btv_observed s4
                 then s4\<lparr>btv_observed := True,
                         first_detected_farm_id := farm_id (farms s4 k)\<rparr>
                 else s4
         else s2)"

text \<open>\<^verbatim>\<open>int_min(rand_poisson(rng, lambda), (int)count)\<close>.\<close>

definition capped_poisson :: "gsl_rng \<Rightarrow> real \<Rightarrow> real \<Rightarrow> int \<times> gsl_rng" where
  "capped_poisson g lambda count =
     (let (d, g') = rand_poisson g lambda in (int_min d (c_int count), g'))"

text \<open>The mortality draw on sheep stage \<open>n\<close>, with its detection trigger.\<close>

definition sheep_mortality ::
  "nat \<Rightarrow> ControlParams \<Rightarrow> real \<Rightarrow> real \<Rightarrow> nat \<Rightarrow> SimulationState \<times> gsl_rng
     \<Rightarrow> SimulationState \<times> gsl_rng" where
  "sheep_mortality k c dtf mort n sg =
     (let (st, g) = sg;
          (X, g') = capped_poisson g (dtf * mort * i_sheep (farms st k) n)
                      (i_sheep (farms st k) n);
          s1 = (if X > 0 \<and> \<not> detected (farms st k) then on_detection k c st else st);
          s2 = upd_farm k (\<lambda>f. f\<lparr>i_sheep := (i_sheep f)(n := i_sheep f n - real_of_int X)\<rparr>) s1
      in (s2\<lparr>num_sheep_deaths := num_sheep_deaths s2 + X\<rparr>, g'))"

definition sheep_last_stage ::
  "nat \<Rightarrow> EpiParams \<Rightarrow> ControlParams \<Rightarrow> real \<Rightarrow> real \<Rightarrow> SimulationState \<times> gsl_rng
     \<Rightarrow> SimulationState \<times> gsl_rng" where
  "sheep_last_stage k e c dtf mort sg =
     (let (st, g) = sg;
          stages = real (num_inf_stages_sheep e);
          last = num_inf_stages_sheep e - 1;
          (X, g') = capped_poisson g
                      (dtf * stages * rec_rate_sheep e * i_sheep (farms st k) last)
                      (i_sheep (farms st k) last);
          s1 = upd_farm k
                 (\<lambda>f. f\<lparr>i_sheep := (i_sheep f)(last := i_sheep f last - real_of_int X),
                        r_sheep := r_sheep f + real_of_int X\<rparr>) st
      in sheep_mortality k c dtf mort last (s1, g'))"

definition sheep_earlier_stage ::
  "nat \<Rightarrow> EpiParams \<Rightarrow> ControlParams \<Rightarrow> real \<Rightarrow> real \<Rightarrow> nat \<Rightarrow> SimulationState \<times> gsl_rng
     \<Rightarrow> SimulationState \<times> gsl_rng" where
  "sheep_earlier_stage k e c dtf mort n sg =
     (let (st, g) = sg;
          stages = real (num_inf_stages_sheep e);
          (X, g') = capped_poisson g
                      (dtf * stages * rec_rate_sheep e * i_sheep (farms st k) n)
                      (i_sheep (farms st k) n);
          s1 = upd_farm k
                 (\<lambda>f. f\<lparr>i_sheep := ((i_sheep f)(n := i_sheep f n - real_of_int X))
                                      (Suc n := i_sheep f (Suc n) + real_of_int X)\<rparr>) st
      in sheep_mortality k c dtf mort n (s1, g'))"

text \<open>One pass of the sub-day loop for sheep: the last stage, then the earlier stages
  from \<open>last - 1\<close> down to \<open>0\<close>.\<close>

definition sheep_substep ::
  "nat \<Rightarrow> EpiParams \<Rightarrow> ControlParams \<Rightarrow> real \<Rightarrow> real \<Rightarrow> SimulationState \<times> gsl_rng
     \<Rightarrow> SimulationState \<times> gsl_rng" where
  "sheep_substep k e c dtf mort sg =
     fold (sheep_earlier_stage k e c dtf mort) (rev [0..<num_inf_stages_sheep e - 1])
          (sheep_last_stage k e c dtf mort sg)"

definition cattle_last_stage ::
  "nat \<Rightarrow> EpiParams \<Rightarrow> real \<Rightarrow> SimulationState \<times> gsl_rng \<Rightarrow> SimulationState \<times> gsl_rng" where
  "cattle_last_stage k e dtf sg =
     (let (st, g) = sg;
          stages = real (num_inf_stages_cattle e);
          last = num_inf_stages_cattle e - 1;
          (X, g') = capped_poisson g
                      (dtf * stages * rec_rate_cattle e * i_cattle (farms st k) last)
                      (i_cattle (farms st k) last)
      in (upd_farm k
            (\<lambda>f. f\<lparr>i_cattle := (i_cattle f)(last := i_cattle f last - real_of_int X),
                   r_cattle := r_cattle f + real_of_int X\<rparr>) st, g'))"

definition cattle_earlier_stage ::
  "nat \<Rightarrow> EpiParams \<Rightarrow> real \<Rightarrow> nat \<Rightarrow> SimulationState \<times> gsl_rng
     \<Rightarrow> SimulationState \<times> gsl_rng" where
  "cattle_earlier_stage k e dtf n sg =
     (let (st, g) = sg;
          stages = real (num_inf_stages_cattle e);
          (X, g') = capped_poisson g
                      (dtf * stages * rec_rate_cattle e * i_cattle (farms st k) n)
                      (i_cattle (farms st k) n)
      in (upd_farm k
            (\<lambda>f. f\<lparr>i_cattle := ((i_cattle f)(n := i_cattle f n - real_of_int X))
                                  (Suc n := i_cattle f (Suc n) + real_of_int X)\<rparr>) st, g'))"

definition cattle_substep ::
  "nat \<Rightarrow> EpiParams \<Rightarrow> real \<Rightarrow> SimulationState \<times> gsl_rng \<Rightarrow> SimulationState \<times> gsl_rng" where
  "cattle_substep k e dtf sg =
     fold (cattle_earlier_stage k e dtf) (rev [0..<num_inf_stages_cattle e - 1])
          (cattle_last_stage k e dtf sg)"

text \<open>\<^verbatim>\<open>for (double t = 0.0; t < 1.0; t += dt_farm)\<close> with the local constant
  \<^verbatim>\<open>dt_farm = 0.1\<close>. The recursion follows the loop with \<open>t\<close> accumulated in
  rounded arithmetic; it carries a bound on the number of passes so that it is a total
  function, and the bound is never reached: the loop leaves by its test after eleven
  passes (lemma \<open>sub_day_loop_passes\<close>).\<close>

fun sub_day_iter :: "nat \<Rightarrow> ('s \<Rightarrow> 's) \<Rightarrow> real \<Rightarrow> 's \<Rightarrow> 's" where
  "sub_day_iter 0 body t s = s"
| "sub_day_iter (Suc bound) body t s =
     (if t < 1 then sub_day_iter bound body (fl_add t dt_farm_double) (body s) else s)"

definition sub_day_loop :: "('s \<Rightarrow> 's) \<Rightarrow> 's \<Rightarrow> 's" where
  "sub_day_loop body s = sub_day_iter 16 body 0 s"

text \<open>The factor \<^verbatim>\<open>exp(inf * log(1.0 - p))\<close> of the passive detection. For \<open>p < 1\<close>
  it is the real number. At \<open>p = 1\<close> \<^verbatim>\<open>log(0.0)\<close> is \<open>-\<infinity>\<close>: the product is \<open>-\<infinity>\<close>
  and the factor 0 when \<open>inf > 0\<close>, the product \<^verbatim>\<open>0 * -inf\<close> is NaN when \<open>inf = 0\<close>, and
  the factor is \<open>+\<infinity>\<close> when \<open>inf < 0\<close>. Above 1 \<^verbatim>\<open>log\<close> returns NaN. \<open>None\<close> stands
  for NaN and \<open>+\<infinity>\<close>: with either as a factor \<^verbatim>\<open>1.0 - not_detect_c * not_detect_s\<close>
  is NaN or \<open>-\<infinity>\<close>, and the comparison \<^verbatim>\<open>u <= ...\<close> is false.\<close>

definition not_detect :: "real \<Rightarrow> real \<Rightarrow> real option" where
  "not_detect infected p =
     (if p < 1 then Some (exp (infected * ln (1 - p)))
      else if p = 1 \<and> 0 < infected then Some 0
      else None)"

definition detect_test :: "real \<Rightarrow> real option \<Rightarrow> real option \<Rightarrow> bool" where
  "detect_test u nc ns =
     (case (nc, ns) of (Some a, Some b) \<Rightarrow> u \<le> 1 - a * b | _ \<Rightarrow> False)"

definition passive_detection ::
  "nat \<Rightarrow> EpiParams \<Rightarrow> ControlParams \<Rightarrow> SimulationState \<times> gsl_rng
     \<Rightarrow> SimulationState \<times> gsl_rng" where
  "passive_detection k e c sg =
     (let (st, g) = sg
      in if \<not> detected (farms st k)
         then let inf_c = num_inf_cattle (farms st k) (num_inf_stages_cattle e);
                  inf_s = num_inf_sheep (farms st k) (num_inf_stages_sheep e)
              in if inf_c + inf_s > 0
                 then let not_detect_c = not_detect inf_c (detection_prob_cattle e);
                          not_detect_s = not_detect inf_s (detection_prob_sheep e);
                          (u, g') = gsl_rng_uniform g
                      in if detect_test u not_detect_c not_detect_s
                         then (on_detection k c st, g') else (st, g')
                 else (st, g)
         else (st, g))"

definition farm_deaths_and_recoveries ::
  "nat \<Rightarrow> EpiParams \<Rightarrow> ControlParams \<Rightarrow> SimulationState \<times> gsl_rng
     \<Rightarrow> SimulationState \<times> gsl_rng" where
  "farm_deaths_and_recoveries k e c sg =
     (let dtf = 0.1;
          mort = 0.0055;
          sg1 = (if num_inf_sheep (farms (fst sg) k) (num_inf_stages_sheep e) > 0
                 then sub_day_loop (sheep_substep k e c dtf mort) sg else sg);
          sg2 = (if num_inf_cattle (farms (fst sg1) k) (num_inf_stages_cattle e) > 0
                 then sub_day_loop (cattle_substep k e dtf) sg1 else sg1)
      in passive_detection k e c sg2)"

text \<open>The draw of new infections among \<open>count\<close> susceptibles: the Poisson
  approximation when \<^verbatim>\<open>count > 100 && prob < 0.01 && count * prob < 20\<close>, a binomial
  draw otherwise.\<close>

definition new_infections :: "gsl_rng \<Rightarrow> real \<Rightarrow> real \<Rightarrow> int \<times> gsl_rng" where
  "new_infections g count prob =
     (if count > 100 \<and> prob < 0.01 \<and> count * prob < 20
      then capped_poisson g (count * prob) count
      else rand_binomial g (c_int count) prob)"

definition farm_transmission_midges_to_hosts ::
  "nat \<Rightarrow> EpiParams \<Rightarrow> VectorSpecies \<Rightarrow> SimulationState \<times> gsl_rng
     \<Rightarrow> SimulationState \<times> gsl_rng" where
  "farm_transmission_midges_to_hosts k e sp sg =
     (let (st, g) = sg;
          biting = biting_rate sp (temp_today (farms st k));
          biting_prob = 1 - exp (- biting);
          inf_density = inf_midge_density st (midge_grid_y (farms st k))
                                             (midge_grid_x (farms st k));
          frc = rel_local_weight (farms st k) * inf_density * biting_prob;
          s1 = upd_farm k (\<lambda>f. f\<lparr>force := frc\<rparr>) st;
          eff_animals = eff_num_animals (farms s1 k) (preference_for_sheep e)
                          (num_inf_stages_cattle e) (num_inf_stages_sheep e)
      in if eff_animals < 1 then (s1, g)
         else let prob_bite_sheep = preference_for_sheep e / eff_animals;
                  prob_bite_cattle = 1 / eff_animals;
                  prob_inf_sheep = 1 - exp (- frc * prob_bite_sheep * p_h e);
                  prob_inf_cattle = 1 - exp (- frc * prob_bite_cattle * p_h e);
                  (A, g1) = new_infections g (s_sheep (farms s1 k)) prob_inf_sheep;
                  (B, g2) = new_infections g1 (s_cattle (farms s1 k)) prob_inf_cattle;
                  s2 = upd_farm k
                         (\<lambda>f. f\<lparr>s_sheep := s_sheep f - real_of_int A,
                                i_sheep := (i_sheep f)(0 := i_sheep f 0 + real_of_int A)\<rparr>) s1;
                  s3 = s2\<lparr>num_sheep_infected_today := num_sheep_infected_today s2 + A\<rparr>;
                  s4 = upd_farm k
                         (\<lambda>f. f\<lparr>s_cattle := s_cattle f - real_of_int B,
                                i_cattle := (i_cattle f)(0 := i_cattle f 0 + real_of_int B)\<rparr>) s3;
                  s5 = s4\<lparr>num_cattle_infected_today := num_cattle_infected_today s4 + B\<rparr>
              in (s5, g2))"

text \<open>The climate regressor of the host-to-midge step, \<open>d\<close> being
  \<^verbatim>\<open>(double)state->simulation_day\<close>.\<close>

definition climate_regressor :: "Farm \<Rightarrow> real \<Rightarrow> real" where
  "climate_regressor f d =
     v_intercept f
     + sin_yearly f * sin (2 * pi * d / 365.25)
     + cos_yearly f * cos (2 * pi * d / 365.25)
     + sin_6_month f * sin (4 * pi * d / 365.25)
     + cos_6_month f * cos (4 * pi * d / 365.25)
     + cos_4_month f * cos (6 * pi * d / 365.25)
     + (temp_eff f * temp_today f + temp_eff_sq f * temp_today f * temp_today f)
     + (overdispersion f + autocorr f)"

definition bites_per_animal :: "EpiParams \<Rightarrow> Farm \<Rightarrow> real \<Rightarrow> real" where
  "bites_per_animal e f d =
     (let b = transmission_scalar e * exp (climate_regressor f d)
      in if b > 5000 then 5000 else b)"

definition set_latent ::
  "nat \<Rightarrow> nat \<Rightarrow> nat \<Rightarrow> real \<Rightarrow> (nat \<Rightarrow> nat \<Rightarrow> nat \<Rightarrow> real) \<Rightarrow> (nat \<Rightarrow> nat \<Rightarrow> nat \<Rightarrow> real)" where
  "set_latent i j n v L = L(i := (L i)(j := (L i j)(n := v)))"

definition farm_transmission_hosts_to_midges ::
  "nat \<Rightarrow> EpiParams \<Rightarrow> SimulationState \<Rightarrow> SimulationState" where
  "farm_transmission_hosts_to_midges k e st =
     (let day = simulation_day st
      in if day mod 365 \<le> 60 \<or> day mod 365 \<ge> 330 then st
         else let f = farms st k;
                  eff_inf = eff_num_inf_animals f (preference_for_sheep e)
                              (num_inf_stages_cattle e) (num_inf_stages_sheep e);
                  new_latent = p_v e * eff_inf * bites_per_animal e f (real day);
                  i = midge_grid_y f;
                  j = midge_grid_x f
              in st\<lparr>latent_midge_density :=
                      set_latent i j 0 (latent_midge_density st i j 0 + new_latent)
                        (latent_midge_density st)\<rparr>)"

section \<open>midge\_dynamics.c\<close>

definition gset :: "nat \<Rightarrow> nat \<Rightarrow> real \<Rightarrow> grid \<Rightarrow> grid" where
  "gset i j v G = G(i := (G i)(j := v))"

definition gadd :: "nat \<Rightarrow> nat \<Rightarrow> real \<Rightarrow> grid \<Rightarrow> grid" where
  "gadd i j v G = gset i j (G i j + v) G"

text \<open>The body of the double loop of \<^verbatim>\<open>midge_mortality_and_incubation\<close> at cell
  \<open>(i, j)\<close>. \<open>soln\<close> is the local array of the source: entry \<open>n < num_eip\<close> is the new
  latent density of stage \<open>n\<close>, entry \<open>num_eip\<close> the new infectious density.\<close>

definition apply_mortality ::
  "nat \<Rightarrow> nat \<Rightarrow> nat \<Rightarrow> real \<Rightarrow> SimulationState \<Rightarrow> SimulationState" where
  "apply_mortality i j num_eip mort st =
     (let s1 = st\<lparr>inf_midge_density := gset i j (inf_midge_density st i j * mort)
                                            (inf_midge_density st)\<rparr>
      in fold (\<lambda>n s. s\<lparr>latent_midge_density :=
                         set_latent i j n (latent_midge_density s i j n * mort)
                           (latent_midge_density s)\<rparr>) [0..<num_eip] s1)"

definition eip_soln :: "nat \<Rightarrow> nat \<Rightarrow> nat \<Rightarrow> real \<Rightarrow> SimulationState \<Rightarrow> nat \<Rightarrow> real" where
  "eip_soln i j num_eip incub st n =
     (if n < num_eip
      then sum_stages (\<lambda>m. latent_midge_density st i j m * poisson_pmf (int n - int m) incub)
             (Suc n)
      else inf_midge_density st i j
           + sum_stages (\<lambda>m. latent_midge_density st i j m
                               * poisson_sf (int num_eip - int m - 1) incub) num_eip)"

definition write_back ::
  "nat \<Rightarrow> nat \<Rightarrow> nat \<Rightarrow> (nat \<Rightarrow> real) \<Rightarrow> SimulationState \<Rightarrow> SimulationState" where
  "write_back i j num_eip soln st =
     (let s1 = fold (\<lambda>n s. s\<lparr>latent_midge_density :=
                               set_latent i j n (soln n) (latent_midge_density s)\<rparr>)
                    [0..<num_eip] st
      in s1\<lparr>inf_midge_density := gset i j (soln num_eip) (inf_midge_density s1)\<rparr>)"

definition mortality_incubation_cell ::
  "EpiParams \<Rightarrow> VectorSpecies \<Rightarrow> nat \<Rightarrow> nat \<Rightarrow> SimulationState \<Rightarrow> SimulationState option" where
  "mortality_incubation_cell e sp i j st =
     (if weather_time_index st < WEATHER_DAYS
      then let num_eip = num_eip_stages e;
               temp = temp_grid st i j (weather_time_index st);
               mort = exp (- mortality_rate sp temp);
               incub = real num_eip * incubation_rate sp temp;
               s1 = apply_mortality i j num_eip mort st;
               total = sum_stages (latent_midge_density s1 i j) num_eip
           in if incub > 0 \<and> total > 0
              then Some (write_back i j num_eip (eip_soln i j num_eip incub s1) s1)
              else Some s1
      else None)"

text \<open>\<^verbatim>\<open>for (int i = 0; i < N; i += R)\<close>. The stride \<open>R\<close> is computed from the grid
  widths and may be zero or negative: then the loop does not return, or leaves the
  array.\<close>

partial_function (option) strided_loop ::
  "int \<Rightarrow> nat \<Rightarrow> (nat \<Rightarrow> 's \<Rightarrow> 's option) \<Rightarrow> int \<Rightarrow> 's \<Rightarrow> 's option" where
  "strided_loop R N body i s =
     (if i < int N
      then (if i < 0 then None
            else Option.bind (body (nat i) s) (strided_loop R N body (i + R)))
      else Some s)"

definition midge_mortality_and_incubation ::
  "SimulationState \<Rightarrow> EpiParams \<Rightarrow> GridParams \<Rightarrow> VectorSpecies \<Rightarrow> SimulationState option" where
  "midge_mortality_and_incubation st e gp sp =
     (let R = c_int (midge_grid_width gp / temp_grid_width gp)
      in strided_loop R MAX_GRID_S
           (\<lambda>i. strided_loop R MAX_GRID_E (mortality_incubation_cell e sp i) 0) 0 st)"

text \<open>The deposits of one source cell \<open>(i, j)\<close> of the field \<open>rho\<close> into the scratch
  grid \<^verbatim>\<open>diffusion_soln_grid\<close>, in the order of the source.\<close>

definition deposit :: "real \<Rightarrow> real \<Rightarrow> grid \<Rightarrow> grid \<Rightarrow> nat \<Rightarrow> nat \<Rightarrow> grid \<Rightarrow> grid" where
  "deposit dtv h2 D rho i j soln =
     (if rho i j > 0.00001
      then let flux = D i j * dtv * rho i j / h2;
               g1 = gadd i j (- (2 * flux)) soln;
               g2 = gadd (i + 1) j (0.5 * flux) g1;
               g3 = gadd (i - 1) j (0.5 * flux) g2;
               g4 = gadd i (j + 1) (0.5 * flux) g3;
               g5 = gadd i (j - 1) (0.5 * flux) g4
           in g5
      else soln)"

definition deposit_pass :: "real \<Rightarrow> real \<Rightarrow> grid \<Rightarrow> grid \<Rightarrow> grid \<Rightarrow> grid" where
  "deposit_pass dtv h2 D rho soln =
     fold (\<lambda>i. fold (deposit dtv h2 D rho i) [1..<MAX_GRID_E - 1]) [1..<MAX_GRID_S - 1] soln"

text \<open>The second double loop: \<^verbatim>\<open>rho[i][j] += soln[i][j]; soln[i][j] = 0.0;\<close>.\<close>

definition absorb :: "nat \<Rightarrow> nat \<Rightarrow> grid \<times> grid \<Rightarrow> grid \<times> grid" where
  "absorb i j rs = (let (rho, soln) = rs in (gadd i j (soln i j) rho, gset i j 0 soln))"

definition absorb_pass :: "grid \<times> grid \<Rightarrow> grid \<times> grid" where
  "absorb_pass rs =
     fold (\<lambda>i. fold (absorb i) [1..<MAX_GRID_E - 1]) [1..<MAX_GRID_S - 1] rs"

text \<open>Both loops for one field. The source writes them once for the latent stages
  (inside the loop over \<open>k\<close>) and once more for the infectious field.\<close>

definition diffuse_field :: "real \<Rightarrow> real \<Rightarrow> grid \<Rightarrow> grid \<times> grid \<Rightarrow> grid \<times> grid" where
  "diffuse_field dtv h2 D rs =
     (let (rho, soln) = rs in absorb_pass (rho, deposit_pass dtv h2 D rho soln))"

definition latent_field :: "SimulationState \<Rightarrow> nat \<Rightarrow> grid" where
  "latent_field st n = (\<lambda>i j. latent_midge_density st i j n)"

definition diffuse_latent_stage ::
  "real \<Rightarrow> real \<Rightarrow> nat \<Rightarrow> SimulationState \<Rightarrow> SimulationState" where
  "diffuse_latent_stage dtv h2 n st =
     (let (rho, soln) = diffuse_field dtv h2 (diffusion_grid st)
                          (latent_field st n, diffusion_soln_grid st)
      in st\<lparr>latent_midge_density := (\<lambda>i j. (latent_midge_density st i j)(n := rho i j)),
            diffusion_soln_grid := soln\<rparr>)"

definition diffuse_infectious :: "real \<Rightarrow> real \<Rightarrow> SimulationState \<Rightarrow> SimulationState" where
  "diffuse_infectious dtv h2 st =
     (let (rho, soln) = diffuse_field dtv h2 (diffusion_grid st)
                          (inf_midge_density st, diffusion_soln_grid st)
      in st\<lparr>inf_midge_density := rho, diffusion_soln_grid := soln\<rparr>)"

definition midge_diffusion_step ::
  "SimulationState \<Rightarrow> SimulationParams \<Rightarrow> EpiParams \<Rightarrow> GridParams \<Rightarrow> SimulationState" where
  "midge_diffusion_step st sp e gp =
     (let dtv = dt sp;
          h2 = midge_grid_width gp * midge_grid_width gp;
          s1 = fold (diffuse_latent_stage dtv h2) [0..<num_eip_stages e] st
      in diffuse_infectious dtv h2 s1)"

text \<open>\<^verbatim>\<open>while (elapsed < 1.0) { step; elapsed += sim->dt; }\<close>, with \<open>elapsed\<close>
  accumulated in rounded arithmetic: it returns exactly when the values
  \<open>0, fl_add 0 dt, fl_add (fl_add 0 dt) dt, \<dots>\<close> reach 1, which they do not when
  \<^verbatim>\<open>dt\<close> is zero, negative or too small to change \<open>elapsed\<close>.\<close>

partial_function (option) diffusion_loop ::
  "('s \<Rightarrow> 's) \<Rightarrow> real \<Rightarrow> real \<Rightarrow> 's \<Rightarrow> 's option" where
  "diffusion_loop step dtv elapsed s =
     (if elapsed < 1 then diffusion_loop step dtv (fl_add elapsed dtv) (step s) else Some s)"

definition substeps_end :: "real \<Rightarrow> bool" where
  "substeps_end dtv \<longleftrightarrow> (\<exists>N. \<not> ((\<lambda>x. fl_add x dtv) ^^ N) 0 < 1)"

definition midge_diffusion_for_day ::
  "SimulationState \<Rightarrow> SimulationParams \<Rightarrow> EpiParams \<Rightarrow> GridParams \<Rightarrow> SimulationState option" where
  "midge_diffusion_for_day st sp e gp =
     diffusion_loop (\<lambda>s. midge_diffusion_step s sp e gp) (dt sp) 0 st"

section \<open>movement.c\<close>

text \<open>The inner loop over the Erlang stages with its \<^verbatim>\<open>break\<close>: the first stage at
  which the running sum \<^verbatim>\<open>cum\<close> reaches \<^verbatim>\<open>sel\<close>, if there is one.\<close>

fun pick_stage :: "(nat \<Rightarrow> real) \<Rightarrow> real \<Rightarrow> real \<Rightarrow> nat list \<Rightarrow> nat option" where
  "pick_stage a sel cum [] = None"
| "pick_stage a sel cum (n # ns) =
     (if cum + a n \<ge> sel then Some n else pick_stage a sel (cum + a n) ns)"

text \<open>One pass of \<^verbatim>\<open>for (n = 0; n < size; n++)\<close> of a cattle shipment. The loop
  carries the state, the generator, the running \<^verbatim>\<open>inf_cattle\<close> and
  \<^verbatim>\<open>num_inf_moved\<close>.\<close>

definition cattle_shipment_step ::
  "nat \<Rightarrow> nat \<Rightarrow> EpiParams \<Rightarrow> real \<Rightarrow> SimulationState \<times> gsl_rng \<times> real \<times> int
     \<Rightarrow> SimulationState \<times> gsl_rng \<times> real \<times> int" where
  "cattle_shipment_step from_id to_id e total_cattle v =
     (let (st, g, inf_cattle, moved) = v;
          density = inf_cattle / total_cattle;
          (u, g1) = gsl_rng_uniform g
      in if u < density
         then let (u2, g2) = gsl_rng_uniform g1;
                  sel = u2 * inf_cattle
              in case pick_stage (i_cattle (farms st from_id)) sel 0
                        [0..<num_inf_stages_cattle e] of
                   None \<Rightarrow> (st, g2, inf_cattle, moved)
                 | Some n \<Rightarrow>
                     let s1 = upd_farm from_id
                                (\<lambda>f. f\<lparr>i_cattle := (i_cattle f)(n := i_cattle f n - 1)\<rparr>) st;
                         s2 = upd_farm to_id
                                (\<lambda>f. f\<lparr>i_cattle := (i_cattle f)(n := i_cattle f n + 1)\<rparr>) s1
                     in (s2, g2, inf_cattle - 1, moved + 1)
         else (st, g1, inf_cattle, moved))"

definition sheep_shipment_step ::
  "nat \<Rightarrow> nat \<Rightarrow> EpiParams \<Rightarrow> real \<Rightarrow> SimulationState \<times> gsl_rng \<times> real \<times> int
     \<Rightarrow> SimulationState \<times> gsl_rng \<times> real \<times> int" where
  "sheep_shipment_step from_id to_id e total_sheep v =
     (let (st, g, inf_sheep, moved) = v;
          density = inf_sheep / total_sheep;
          (u, g1) = gsl_rng_uniform g
      in if u < density
         then let (u2, g2) = gsl_rng_uniform g1;
                  sel = u2 * inf_sheep
              in case pick_stage (i_sheep (farms st from_id)) sel 0
                        [0..<num_inf_stages_sheep e] of
                   None \<Rightarrow> (st, g2, inf_sheep, moved)
                 | Some n \<Rightarrow>
                     let s1 = upd_farm from_id
                                (\<lambda>f. f\<lparr>i_sheep := (i_sheep f)(n := i_sheep f n - 1)\<rparr>) st;
                         s2 = upd_farm to_id
                                (\<lambda>f. f\<lparr>i_sheep := (i_sheep f)(n := i_sheep f n + 1)\<rparr>) s1
                     in (s2, g2, inf_sheep - 1, moved + 1)
         else (st, g1, inf_sheep, moved))"

text \<open>The shipment of one species: the size draw and the loop over the animals.\<close>

definition cattle_shipment ::
  "nat \<Rightarrow> nat \<Rightarrow> EpiParams \<Rightarrow> MovementParams \<Rightarrow> SimulationState \<times> gsl_rng
     \<Rightarrow> SimulationState \<times> gsl_rng \<times> real \<times> int" where
  "cattle_shipment from_id to_id e m sg =
     (let (st, g) = sg;
          total_cattle = num_cattle (farms st from_id) (num_inf_stages_cattle e);
          (nb, g1) = gsl_ran_negative_binomial g (cattle_shipment_size_k m)
                       (cattle_shipment_size_p m);
          size = int_min (1 + int nb) (c_int total_cattle);
          inf_cattle = num_inf_cattle (farms st from_id) (num_inf_stages_cattle e)
      in (cattle_shipment_step from_id to_id e total_cattle ^^ nat size)
           (st, g1, inf_cattle, 0))"

definition sheep_shipment ::
  "nat \<Rightarrow> nat \<Rightarrow> EpiParams \<Rightarrow> MovementParams \<Rightarrow> SimulationState \<times> gsl_rng
     \<Rightarrow> SimulationState \<times> gsl_rng \<times> real \<times> int" where
  "sheep_shipment from_id to_id e m sg =
     (let (st, g) = sg;
          total_sheep = num_sheep (farms st from_id) (num_inf_stages_sheep e);
          (nb, g1) = gsl_ran_negative_binomial g (sheep_shipment_size_k m)
                       (sheep_shipment_size_p m);
          size = int_min (1 + int nb) (c_int total_sheep);
          inf_sheep = num_inf_sheep (farms st from_id) (num_inf_stages_sheep e)
      in (sheep_shipment_step from_id to_id e total_sheep ^^ nat size)
           (st, g1, inf_sheep, 0))"

definition movement_interrupted :: "Farm \<Rightarrow> Farm \<Rightarrow> bool" where
  "movement_interrupted src dst \<longleftrightarrow>
     (movement_banned src \<or> movement_banned dst)
     \<or> (protection_zone src \<and> \<not> protection_zone dst)
     \<or> (surveillance_zone src \<and> free_area dst)"

definition transmission_via_movement ::
  "SimulationState \<Rightarrow> nat \<Rightarrow> nat \<Rightarrow> real \<Rightarrow> EpiParams \<Rightarrow> MovementParams \<Rightarrow> ControlParams
     \<Rightarrow> gsl_rng \<Rightarrow> SimulationState \<times> gsl_rng" where
  "transmission_via_movement st from_id to_id risk e m c g =
     (let (u, g1) = gsl_rng_uniform g
      in if u > risk then (st, g1)
         else if movement_interrupted (farms st from_id) (farms st to_id)
         then let s1 = st\<lparr>interrupted_movements := interrupted_movements st + 1\<rparr>
              in if num_inf_cattle (farms s1 from_id) (num_inf_stages_cattle e)
                    + num_inf_sheep (farms s1 from_id) (num_inf_stages_sheep e) > 0
                 then (s1\<lparr>num_risky_moves_blocked := num_risky_moves_blocked s1 + 1\<rparr>, g1)
                 else (s1, g1)
         else let total_sheep = num_sheep (farms st from_id) (num_inf_stages_sheep e);
                  total_cattle = num_cattle (farms st from_id) (num_inf_stages_cattle e)
              in if total_sheep + total_cattle < 1 then (st, g1)
                 else let (u2, g2) = gsl_rng_uniform g1;
                          cattle_move = (u2 > total_sheep / (total_sheep + total_cattle));
                          (s2, g3, inf_left, num_inf_moved) =
                             (if cattle_move then cattle_shipment from_id to_id e m (st, g2)
                              else sheep_shipment from_id to_id e m (st, g2))
                      in if num_inf_moved > 0
                         then (s2\<lparr>num_movement_transmissions :=
                                     num_movement_transmissions s2 + 1\<rparr>, g3)
                         else (s2, g3))"

definition movement_transmission ::
  "SimulationState \<Rightarrow> EpiParams \<Rightarrow> MovementParams \<Rightarrow> ControlParams \<Rightarrow> gsl_rng
     \<Rightarrow> SimulationState \<times> gsl_rng" where
  "movement_transmission st e m c g =
     fold (\<lambda>k sg. transmission_via_movement (fst sg) (movement_from (fst sg) k)
                     (movement_to (fst sg) k) (movement_risk (fst sg) k) e m c (snd sg))
          [0..<num_movement_links st] (st, g)"

section \<open>simulation.c\<close>

fun fold_option :: "('a \<Rightarrow> 's \<Rightarrow> 's option) \<Rightarrow> 'a list \<Rightarrow> 's \<Rightarrow> 's option" where
  "fold_option f [] s = Some s"
| "fold_option f (a # as) s = Option.bind (f a s) (fold_option f as)"

text \<open>The body of the loop over the farms: the four per-farm steps on farm \<open>k\<close>, the
  first three (weather, deaths and recoveries, midge to host) and then host to midge.\<close>

definition farm_hosts_phase ::
  "Params \<Rightarrow> nat \<Rightarrow> SimulationState \<times> gsl_rng \<Rightarrow> (SimulationState \<times> gsl_rng) option" where
  "farm_hosts_phase P k sg =
     Option.bind (farm_get_weather k (fst sg) (snd sg))
       (\<lambda>sg1. let sg2 = farm_deaths_and_recoveries k (epi P) (ctrl P) sg1
               in Some (farm_transmission_midges_to_hosts k (epi P) (species P) sg2))"

definition farm_update ::
  "Params \<Rightarrow> nat \<Rightarrow> SimulationState \<times> gsl_rng \<Rightarrow> (SimulationState \<times> gsl_rng) option" where
  "farm_update P k sg =
     Option.bind (farm_hosts_phase P k sg)
       (\<lambda>sg3. Some (farm_transmission_hosts_to_midges k (epi P) (fst sg3), snd sg3))"

definition reset_daily_counters :: "SimulationState \<Rightarrow> SimulationState" where
  "reset_daily_counters st =
     st\<lparr>num_farms_detected_today := 0, num_sheep_infected_today := 0,
        num_cattle_infected_today := 0, num_sheep_deaths := 0\<rparr>"

definition advance_time :: "SimulationState \<Rightarrow> SimulationState" where
  "advance_time st =
     (let s1 = st\<lparr>simulation_day := simulation_day st + 1\<rparr>
      in s1\<lparr>day_of_year := simulation_day s1 mod 365\<rparr>)"

definition simulate_day ::
  "Params \<Rightarrow> SimulationState \<times> gsl_rng \<Rightarrow> (SimulationState \<times> gsl_rng) option" where
  "simulate_day P sg =
     (let s0 = reset_daily_counters (fst sg);
          s1 = apply_control_measures s0 (epi P) (ctrl P)
      in Option.bind (midge_mortality_and_incubation s1 (epi P) (grids P) (species P))
           (\<lambda>s2. Option.bind (midge_diffusion_for_day s2 (sim P) (epi P) (grids P))
             (\<lambda>s3. let sg4 = movement_transmission s3 (epi P) (mov P) (ctrl P) (snd sg)
                    in Option.bind (fold_option (farm_update P) [0..<num_farms (fst sg4)] sg4)
                         (\<lambda>sg5. Some (advance_time (fst sg5), snd sg5)))))"

text \<open>\<open>n\<close> consecutive calls of \<^verbatim>\<open>simulate_day\<close> on the same state and generator, as
  the repetition loop of the caller makes them.\<close>

primrec simulate_days ::
  "Params \<Rightarrow> nat \<Rightarrow> SimulationState \<times> gsl_rng \<Rightarrow> (SimulationState \<times> gsl_rng) option" where
  "simulate_days P 0 sg = Some sg"
| "simulate_days P (Suc n) sg = Option.bind (simulate_day P sg) (simulate_days P n)"

section \<open>Observations of the state\<close>

text \<open>The parts of the state the properties below speak about: the host compartments,
  the weather cache and the three movement-control flags of one farm, the midge grids,
  the data that no step changes within a day, and the daily count of sheep deaths.\<close>

definition farm_hosts ::
  "Farm \<Rightarrow> real \<times> (nat \<Rightarrow> real) \<times> real \<times> real \<times> (nat \<Rightarrow> real) \<times> real" where
  "farm_hosts f = (s_sheep f, i_sheep f, r_sheep f, s_cattle f, i_cattle f, r_cattle f)"

definition farm_weather :: "Farm \<Rightarrow> real \<times> real \<times> real \<times> real \<times> real" where
  "farm_weather f =
     (temp_today f, mean_rain_last_week f, wind_today f, autocorr f, overdispersion f)"

definition farm_flags :: "Farm \<Rightarrow> bool \<times> bool \<times> bool" where
  "farm_flags f = (movement_banned f, protection_zone f, surveillance_zone f)"

definition midges :: "SimulationState \<Rightarrow> (nat \<Rightarrow> nat \<Rightarrow> nat \<Rightarrow> real) \<times> grid \<times> grid" where
  "midges st = (latent_midge_density st, inf_midge_density st, diffusion_soln_grid st)"

definition layout ::
  "SimulationState \<Rightarrow> nat \<times> nat \<times> nat \<times> (nat \<Rightarrow> nat) \<times> (nat \<Rightarrow> nat) \<times> (nat \<Rightarrow> real) \<times> grid" where
  "layout st = (simulation_day st, num_farms st, num_movement_links st, movement_from st,
     movement_to st, movement_risk st, diffusion_grid st)"

datatype obs = Hosts nat | Weather nat | Flags nat | Midges | Layout | Deaths

datatype obs_value =
    VHosts "real \<times> (nat \<Rightarrow> real) \<times> real \<times> real \<times> (nat \<Rightarrow> real) \<times> real"
  | VWeather "real \<times> real \<times> real \<times> real \<times> real"
  | VFlags "bool \<times> bool \<times> bool"
  | VMidges "(nat \<Rightarrow> nat \<Rightarrow> nat \<Rightarrow> real) \<times> grid \<times> grid"
  | VLayout "nat \<times> nat \<times> nat \<times> (nat \<Rightarrow> nat) \<times> (nat \<Rightarrow> nat) \<times> (nat \<Rightarrow> real) \<times> grid"
  | VDeaths int

definition view :: "obs \<Rightarrow> SimulationState \<Rightarrow> obs_value" where
  "view ob st =
     (case ob of
        Hosts k \<Rightarrow> VHosts (farm_hosts (farms st k))
      | Weather k \<Rightarrow> VWeather (farm_weather (farms st k))
      | Flags k \<Rightarrow> VFlags (farm_flags (farms st k))
      | Midges \<Rightarrow> VMidges (midges st)
      | Layout \<Rightarrow> VLayout (layout st)
      | Deaths \<Rightarrow> VDeaths (num_sheep_deaths st))"

definition is_flags :: "obs \<Rightarrow> bool" where
  "is_flags ob = (case ob of Flags k \<Rightarrow> True | _ \<Rightarrow> False)"

definition is_hosts :: "obs \<Rightarrow> bool" where
  "is_hosts ob = (case ob of Hosts k \<Rightarrow> True | _ \<Rightarrow> False)"

definition is_weather :: "obs \<Rightarrow> bool" where
  "is_weather ob = (case ob of Weather k \<Rightarrow> True | _ \<Rightarrow> False)"

section \<open>Concrete inputs\<close>

text \<open>A farm, a state, a generator and parameters with every number zero and every
  flag false; the examples below change the fields they need.\<close>

definition farm0 :: Farm where
  "farm0 = \<lparr>farm_id = 0, farm_x = (\<lambda>_. 0), county_number = 0,
     temp_grid_x = 0, temp_grid_y = 0, rain_grid_x = 0, rain_grid_y = 0,
     midge_grid_x = 0, midge_grid_y = 0, ac_grid_x = 0, ac_grid_y = 0,
     v_intercept = 0, sin_yearly = 0, cos_yearly = 0, sin_6_month = 0, cos_6_month = 0,
     cos_4_month = 0, temp_eff = 0, temp_eff_sq = 0, rain_eff = 0, wind_eff = 0,
     autocorr = 0, overdispersion = 0, number_of_sheep = 0, number_of_cattle = 0,
     s_sheep = 0, i_sheep = (\<lambda>_. 0), r_sheep = 0,
     s_cattle = 0, i_cattle = (\<lambda>_. 0), r_cattle = 0,
     rel_local_weight = 0, force = 0,
     detected = False, movement_banned = False, protection_zone = False,
     surveillance_zone = False, free_area = False, ever_been_detected = False,
     ever_been_infected = False, first_infected_due_to_movement = False,
     num_local_farms = 0, local_farm_ids = (\<lambda>_. 0),
     temp_today = 0, mean_rain_last_week = 0, wind_today = 0\<rparr>"

definition state0 :: SimulationState where
  "state0 = \<lparr>simulation_day = 0, day_of_year = 0, farms = (\<lambda>_. farm0), num_farms = 1,
     latent_midge_density = (\<lambda>_ _ _. 0), inf_midge_density = (\<lambda>_ _. 0),
     farm_biting_pref_grid = (\<lambda>_ _. 0), diffusion_soln_grid = (\<lambda>_ _. 0),
     diffusion_grid = (\<lambda>_ _. 0), temp_grid = (\<lambda>_ _ _. 0), rain_grid = (\<lambda>_ _ _. 0),
     ac_grid = (\<lambda>_ _. 0),
     num_movement_links = 0, movement_from = (\<lambda>_. 0), movement_to = (\<lambda>_. 0),
     movement_risk = (\<lambda>_. 0),
     num_farms_detected_today = 0, num_sheep_infected_today = 0,
     num_cattle_infected_today = 0, num_sheep_deaths = 0, interrupted_movements = 0,
     days_of_movement_ban = 0, num_farms_checked = 0, num_tests = 0, num_pos_tests = 0,
     total_farm_days_movement_banned = 0, total_farm_days_affected_by_control = 0,
     num_movement_transmissions = 0, num_risky_moves_blocked = 0,
     btv_observed = False, first_detected_farm_id = 0,
     restriction_zones_implemented = False, active_surveillance_performed = False,
     days_since_last_detection = 0\<rparr>"

definition rng0 :: gsl_rng where
  "rng0 = \<lparr>rng_draws = 0, uniform_out = (\<lambda>_. 0), gaussian_out = (\<lambda>_ _. 0),
     poisson_out = (\<lambda>_ _. 0), binomial_out = (\<lambda>_ _ _. 0),
     negative_binomial_out = (\<lambda>_ _ _. 0)\<rparr>"

definition epi0 :: EpiParams where
  "epi0 = \<lparr>detection_prob_cattle = 0, detection_prob_sheep = 0, diffusion_length_scale = 0,
     num_inf_stages_sheep = 1, num_inf_stages_cattle = 1, num_eip_stages = 1,
     p_v = 0, p_h = 0, sheep_mort_rate = 0, rec_rate_sheep = 0, rec_rate_cattle = 0,
     preference_for_sheep = 0, transmission_scalar = 0\<rparr>"

definition ctrl0 :: ControlParams where
  "ctrl0 = \<lparr>ban_radius = 0, county_ban = False, no_control = False, no_farm_ban = False,
     pre_movement_tests = False, pz_radius = 0, restriction_zones = False, sz_radius = 0,
     total_ban = False\<rparr>"

definition species0 :: VectorSpecies where
  "species0 = \<lparr>biting_rate = (\<lambda>_. 0), mortality_rate = (\<lambda>_. 0), incubation_rate = (\<lambda>_. 0)\<rparr>"

definition params0 :: Params where
  "params0 = \<lparr>sim = \<lparr>dt = 1, dt_farm = 0.1, num_days = 1, num_reps = 1, start_day_of_year = 0\<rparr>,
     epi = epi0, ctrl = ctrl0,
     grids = \<lparr>autocorr_grid_width = 1, discretisation = 1, midge_grid_width = 1,
              rain_grid_width = 1, temp_grid_width = 1\<rparr>,
     mov = \<lparr>cattle_shipment_size_k = 1, cattle_shipment_size_p = 0.5,
            sheep_shipment_size_k = 1, sheep_shipment_size_p = 0.5\<rparr>,
     species = species0\<rparr>"





text \<open>The interior cells of the midge grids (the cells the diffusion loops visit), the
  total mass of a field over the whole grid, and the deposit that the source cell
  \<open>(i, j)\<close> of the field \<open>rho\<close> makes into the scratch cell \<open>(a, b)\<close>.\<close>

definition interior :: "nat \<Rightarrow> nat \<Rightarrow> bool" where
  "interior a b \<longleftrightarrow> 1 \<le> a \<and> a < MAX_GRID_S - 1 \<and> 1 \<le> b \<and> b < MAX_GRID_E - 1"

definition total_mass :: "grid \<Rightarrow> real" where
  "total_mass rho = (\<Sum>a<MAX_GRID_S. \<Sum>b<MAX_GRID_E. rho a b)"

definition flux_of :: "real \<Rightarrow> real \<Rightarrow> grid \<Rightarrow> grid \<Rightarrow> nat \<Rightarrow> nat \<Rightarrow> real" where
  "flux_of dtv h2 D rho i j = (if rho i j > 0.00001 then D i j * dtv * rho i j / h2 else 0)"

definition hit :: "nat \<Rightarrow> nat \<Rightarrow> nat \<Rightarrow> nat \<Rightarrow> real" where
  "hit p q a b = (if a = p \<and> b = q then 1 else 0)"

definition contrib :: "real \<Rightarrow> real \<Rightarrow> grid \<Rightarrow> grid \<Rightarrow> nat \<Rightarrow> nat \<Rightarrow> nat \<Rightarrow> nat \<Rightarrow> real" where
  "contrib dtv h2 D rho i j a b =
     flux_of dtv h2 D rho i j
       * (- 2 * hit i j a b + 0.5 * hit (i + 1) j a b + 0.5 * hit (i - 1) j a b
          + 0.5 * hit i (j + 1) a b + 0.5 * hit i (j - 1) a b)"

definition deposits :: "real \<Rightarrow> real \<Rightarrow> grid \<Rightarrow> grid \<Rightarrow> nat \<Rightarrow> nat \<Rightarrow> real" where
  "deposits dtv h2 D rho a b =
     (\<Sum>i = 1..<MAX_GRID_S - 1. \<Sum>j = 1..<MAX_GRID_E - 1. contrib dtv h2 D rho i j a b)"

text \<open>An interior cell next to the boundary of the grid.\<close>

definition near_boundary :: "nat \<Rightarrow> nat \<Rightarrow> bool" where
  "near_boundary i j \<longleftrightarrow>
     interior i j \<and> (i = 1 \<or> i = MAX_GRID_S - 2 \<or> j = 1 \<or> j = MAX_GRID_E - 2)"

section \<open>Mass moved by a diffusion pass\<close>

definition inner_cells :: "(nat \<times> nat) set" where
  "inner_cells = {1..<MAX_GRID_S - 1} \<times> {1..<MAX_GRID_E - 1}"

definition all_cells :: "(nat \<times> nat) set" where
  "all_cells = {..<MAX_GRID_S} \<times> {..<MAX_GRID_E}"

text \<open>A source cell whose four neighbours are interior cells as well.\<close>

definition deep :: "nat \<Rightarrow> nat \<Rightarrow> bool" where
  "deep i j \<longleftrightarrow> interior (i + 1) j \<and> interior (i - 1) j \<and> interior i (j + 1) \<and> interior i (j - 1)"

text \<open>The state of the scratch grid and of the fields between two passes of a
  sub-step that started in \<open>st\<close>: the interior of the scratch grid is zero, the
  infectious field and the diffusion coefficients are those of \<open>st\<close>, and every latent
  stage has the total mass it had in \<open>st\<close>.\<close>

definition between_passes :: "SimulationState \<Rightarrow> SimulationState \<Rightarrow> bool" where
  "between_passes st s \<longleftrightarrow>
     (\<forall>a b. interior a b \<longrightarrow> diffusion_soln_grid s a b = 0)
     \<and> inf_midge_density s = inf_midge_density st
     \<and> diffusion_grid s = diffusion_grid st
     \<and> (\<forall>m. total_mass (latent_field s m) = total_mass (latent_field st m))"

text \<open>A state with one infectious point source in the interior cell \<open>(1, 1)\<close>, next to
  the boundary, and diffusion coefficient 1 everywhere.\<close>

definition state_source :: SimulationState where
  "state_source = state0\<lparr>inf_midge_density := (\<lambda>i j. if i = 1 \<and> j = 1 then 1 else 0),
                          diffusion_grid := (\<lambda>_ _. 1)\<rparr>"

text \<open>The herd totals of a day's bookkeeping: for every farm the cattle total
  \<open>S + \<Sum> I + R\<close>, and the sheep total, to which the sheep deaths counted so far today
  are added on farm \<open>k\<close>, the farm being updated.\<close>

definition ledger :: "EpiParams \<Rightarrow> nat \<Rightarrow> SimulationState \<Rightarrow> (nat \<Rightarrow> real) \<times> (nat \<Rightarrow> real)" where
  "ledger e k st =
     (\<lambda>k'. num_cattle (farms st k') (num_inf_stages_cattle e),
      \<lambda>k'. num_sheep (farms st k') (num_inf_stages_sheep e)
            + (if k' = k then real_of_int (num_sheep_deaths st) else 0))"

text \<open>The cattle and the sheep on the farms \<open>0, \<dots>, num_farms - 1\<close>.\<close>

definition cattle_on_farms :: "EpiParams \<Rightarrow> SimulationState \<Rightarrow> real" where
  "cattle_on_farms e st = (\<Sum>k<num_farms st. num_cattle (farms st k) (num_inf_stages_cattle e))"

definition sheep_on_farms :: "EpiParams \<Rightarrow> SimulationState \<Rightarrow> real" where
  "sheep_on_farms e st = (\<Sum>k<num_farms st. num_sheep (farms st k) (num_inf_stages_sheep e))"

text \<open>What a shipment between two farms of the list keeps: the number of farms, the
  cattle and the sheep on the farms, and every farm other than the two.\<close>

definition herds :: "EpiParams \<Rightarrow> SimulationState \<Rightarrow> nat \<times> real \<times> real" where
  "herds e st = (num_farms st, cattle_on_farms e st, sheep_on_farms e st)"

text \<open>The farms that no movement link names.\<close>

definition off_the_links :: "SimulationState \<Rightarrow> nat \<Rightarrow> bool" where
  "off_the_links st k \<longleftrightarrow>
     (\<forall>l<num_movement_links st. movement_from st l \<noteq> k \<and> movement_to st l \<noteq> k)"

definition links_on_farms :: "SimulationState \<Rightarrow> bool" where
  "links_on_farms st \<longleftrightarrow>
     (\<forall>l<num_movement_links st. movement_from st l < num_farms st
                                \<and> movement_to st l < num_farms st)"

text \<open>The books of the farm loop: the number of farms, the cattle on the farms, the
  sheep on the farms plus the deaths counted so far, and the cattle total of every farm.\<close>

definition books :: "EpiParams \<Rightarrow> SimulationState \<Rightarrow> nat \<times> real \<times> real \<times> (nat \<Rightarrow> real)" where
  "books e st = (num_farms st, cattle_on_farms e st,
                 sheep_on_farms e st + real_of_int (num_sheep_deaths st),
                 \<lambda>k. num_cattle (farms st k) (num_inf_stages_cattle e))"

text \<open>One farm with one infected sheep in the first stage, a generator whose Poisson
  draws are 1 wherever the mean is not zero, and the parameters with control switched
  off.\<close>

definition state_sheep :: SimulationState where
  "state_sheep = state0\<lparr>farms := (\<lambda>_. farm0\<lparr>i_sheep := (\<lambda>n. if n = 0 then 1 else 0)\<rparr>)\<rparr>"

definition rng_ones :: gsl_rng where
  "rng_ones = rng0\<lparr>poisson_out := (\<lambda>_ mu. if mu = 0 then 0 else 1)\<rparr>"

definition params_nc :: Params where
  "params_nc = params0\<lparr>ctrl := ctrl0\<lparr>no_control := True\<rparr>\<rparr>"

text \<open>Host counts are doubles that hold whole numbers of animals.\<close>

definition whole_hosts :: "Farm \<Rightarrow> bool" where
  "whole_hosts f \<longleftrightarrow>
     s_sheep f \<in> \<nat> \<and> (\<forall>n. i_sheep f n \<in> \<nat>) \<and> r_sheep f \<in> \<nat>
     \<and> s_cattle f \<in> \<nat> \<and> (\<forall>n. i_cattle f n \<in> \<nat>) \<and> r_cattle f \<in> \<nat>"

definition herds_whole :: "SimulationState \<Rightarrow> bool" where
  "herds_whole st \<longleftrightarrow> (\<forall>k. whole_hosts (farms st k))"

text \<open>A generator within the library's ranges none of whose uniform draws is exactly
  zero.\<close>

definition positive_draws :: "gsl_rng \<Rightarrow> bool" where
  "positive_draws g \<longleftrightarrow> rng_ok g \<and> (\<forall>n. 0 < uniform_out g n)"

text \<open>Midge densities that are not negative, with the interior of the scratch grid
  zero, as every diffusion sub-step leaves it.\<close>

definition midges_nonneg :: "SimulationState \<Rightarrow> bool" where
  "midges_nonneg st \<longleftrightarrow>
     (\<forall>i j n. 0 \<le> latent_midge_density st i j n)
     \<and> (\<forall>i j. 0 \<le> inf_midge_density st i j)
     \<and> (\<forall>i j. interior i j \<longrightarrow> diffusion_soln_grid st i j = 0)"

text \<open>The stability condition of the explicit diffusion scheme: on every interior cell
  the share \<open>D * dt / h\<^sup>2\<close> of a density that a sub-step sends to each pair of
  neighbours is between 0 and one half.\<close>

definition stable :: "Params \<Rightarrow> SimulationState \<Rightarrow> bool" where
  "stable P st \<longleftrightarrow>
     midge_grid_width (grids P) \<noteq> 0
     \<and> (\<forall>i j. interior i j \<longrightarrow>
           0 \<le> diffusion_grid st i j * dt (sim P)
                 / (midge_grid_width (grids P) * midge_grid_width (grids P))
           \<and> diffusion_grid st i j * dt (sim P)
                 / (midge_grid_width (grids P) * midge_grid_width (grids P)) \<le> 1 / 2)"

text \<open>The sign conditions on the transmission parameters, and what a day preserves:
  whole host counts on every farm, non-negative midge densities, a generator with
  positive uniform draws and the stability of the diffusion scheme.\<close>

definition signs_ok :: "EpiParams \<Rightarrow> bool" where
  "signs_ok e \<longleftrightarrow> 0 \<le> p_v e \<and> 0 \<le> preference_for_sheep e \<and> 0 \<le> transmission_scalar e"

definition day_ok :: "Params \<Rightarrow> SimulationState \<times> gsl_rng \<Rightarrow> bool" where
  "day_ok P sg \<longleftrightarrow>
     herds_whole (fst sg) \<and> midges_nonneg (fst sg) \<and> positive_draws (snd sg)
     \<and> stable P (fst sg)"

text \<open>One farm with one infected cow, a generator whose uniform draws are one quarter,
  and parameters with control switched off and a cattle detection probability of one
  half: the passive detection of the first day fires.\<close>

definition state_cow :: SimulationState where
  "state_cow = state0\<lparr>farms := (\<lambda>_. farm0\<lparr>i_cattle := (\<lambda>n. if n = 0 then 1 else 0)\<rparr>)\<rparr>"

definition rng_quarter :: gsl_rng where
  "rng_quarter = rng0\<lparr>uniform_out := (\<lambda>_. 1 / 4)\<rparr>"

definition params_detect :: Params where
  "params_detect = params0\<lparr>ctrl := ctrl0\<lparr>no_control := True\<rparr>,
                          epi := epi0\<lparr>detection_prob_cattle := 1 / 2\<rparr>\<rparr>"

text \<open>The state and the generator of a day when the farm loop of \<^verbatim>\<open>simulate_day\<close>
  reaches farm \<open>k\<close>: the four steps before the loop and the updates of the farms
  \<open>0, \<dots>, k - 1\<close>.\<close>

definition day_upto ::
  "Params \<Rightarrow> nat \<Rightarrow> SimulationState \<times> gsl_rng \<Rightarrow> (SimulationState \<times> gsl_rng) option" where
  "day_upto P k sg =
     (let s0 = reset_daily_counters (fst sg);
          s1 = apply_control_measures s0 (epi P) (ctrl P)
      in Option.bind (midge_mortality_and_incubation s1 (epi P) (grids P) (species P))
           (\<lambda>s2. Option.bind (midge_diffusion_for_day s2 (sim P) (epi P) (grids P))
             (\<lambda>s3. fold_option (farm_update P) [0..<k]
                      (movement_transmission s3 (epi P) (mov P) (ctrl P) (snd sg)))))"

text \<open>Three farms and one movement link from farm 0 to farm 1 that moves every day:
  farm 0 holds a susceptible cow, an infected cow and a sheep, farm 2, which no link
  names, an infected sheep.\<close>

definition state_three :: SimulationState where
  "state_three = state0\<lparr>num_farms := 3,
     farms := (\<lambda>k. if k = 0 then farm0\<lparr>s_cattle := 1, s_sheep := 1,
                                       i_cattle := (\<lambda>n. if n = 0 then 1 else 0)\<rparr>
                   else if k = 2 then farm0\<lparr>i_sheep := (\<lambda>n. if n = 0 then 1 else 0)\<rparr>
                   else farm0),
     num_movement_links := 1, movement_from := (\<lambda>_. 0), movement_to := (\<lambda>_. 1),
     movement_risk := (\<lambda>_. 1)\<rparr>"

text \<open>The midge densities of one cell: the latent stages and the infectious density.\<close>

definition midge_cell :: "SimulationState \<Rightarrow> nat \<Rightarrow> nat \<Rightarrow> (nat \<Rightarrow> real) \<times> real" where
  "midge_cell st i j = (latent_midge_density st i j, inf_midge_density st i j)"

text \<open>The cells that the double loop of \<^verbatim>\<open>midge_mortality_and_incubation\<close> visits with
  the stride \<open>R\<close>.\<close>

definition on_stride :: "int \<Rightarrow> nat \<Rightarrow> nat \<Rightarrow> bool" where
  "on_stride R i j \<longleftrightarrow> i < MAX_GRID_S \<and> j < MAX_GRID_E \<and> int i mod R = 0 \<and> int j mod R = 0"






section \<open>The rounded loop variables\<close>

lemma pow2_powr: "pow2 k = 2 powr (real_of_int k)"
proof (cases "0 \<le> k")
  case True
  then have "(2::real) powr real_of_int k = 2 powr real (nat k)" by simp
  also have "\<dots> = 2 ^ nat k" by (rule powr_realpow) simp
  finally show ?thesis using True by (simp add: pow2_def)
next
  case False
  then have "(2::real) powr real_of_int k = 2 powr (- real (nat (- k)))" by simp
  also have "\<dots> = 1 / 2 powr real (nat (- k))" by (simp add: powr_minus divide_inverse)
  also have "\<dots> = 1 / 2 ^ nat (- k)" by (simp only: powr_realpow[of 2, simplified])
  finally show ?thesis using False by (simp add: pow2_def)
qed

lemma floor_log2:
  assumes "0 < x" "pow2 e \<le> x" "x < pow2 (e + 1)"
  shows "\<lfloor>log 2 x\<rfloor> = e"
proof (rule floor_unique)
  show "real_of_int e \<le> log 2 x"
    using assms(1,2) by (simp add: le_log_iff pow2_powr)
  have "log 2 x < real_of_int (e + 1)"
    using assms(1,3) by (simp add: log_less_iff pow2_powr)
  then show "log 2 x < real_of_int e + 1" by simp
qed

lemma round_double_eval:
  assumes "pow2 e \<le> x" "x < pow2 (e + 1)"
  shows "round_double x = pow2 (e - 52) * real_of_int (round_half_even (x / pow2 (e - 52)))"
proof -
  have "0 < pow2 e" by (simp add: pow2_powr)
  with assms(1) have x: "0 < x" by linarith
  then have "\<lfloor>log 2 \<bar>x\<bar>\<rfloor> = e" using floor_log2[OF x assms] by simp
  with x show ?thesis by (simp add: round_double_def Let_def)
qed

lemma fl_add_zero_one: "fl_add 0 1 = 1"
  by (simp add: fl_add_def round_double_eval[where e = 0] pow2_def round_half_even_def Let_def)

lemma sub_day_time_0: "fl_add (0) dt_farm_double = 3602879701896397 / 36028797018963968"
  by (simp add: fl_add_def dt_farm_double_def round_double_eval[where e = "-4"] pow2_def
      round_half_even_def Let_def)

lemma sub_day_time_1: "fl_add (3602879701896397 / 36028797018963968) dt_farm_double = 3602879701896397 / 18014398509481984"
  by (simp add: fl_add_def dt_farm_double_def round_double_eval[where e = "-3"] pow2_def
      round_half_even_def Let_def)

lemma sub_day_time_2: "fl_add (3602879701896397 / 18014398509481984) dt_farm_double = 1351079888211149 / 4503599627370496"
  by (simp add: fl_add_def dt_farm_double_def round_double_eval[where e = "-2"] pow2_def
      round_half_even_def Let_def)

lemma sub_day_time_3: "fl_add (1351079888211149 / 4503599627370496) dt_farm_double = 3602879701896397 / 9007199254740992"
  by (simp add: fl_add_def dt_farm_double_def round_double_eval[where e = "-2"] pow2_def
      round_half_even_def Let_def)

lemma sub_day_time_4: "fl_add (3602879701896397 / 9007199254740992) dt_farm_double = 1 / 2"
  by (simp add: fl_add_def dt_farm_double_def round_double_eval[where e = "-1"] pow2_def
      round_half_even_def Let_def)

lemma sub_day_time_5: "fl_add (1 / 2) dt_farm_double = 5404319552844595 / 9007199254740992"
  by (simp add: fl_add_def dt_farm_double_def round_double_eval[where e = "-1"] pow2_def
      round_half_even_def Let_def)

lemma sub_day_time_6: "fl_add (5404319552844595 / 9007199254740992) dt_farm_double = 3152519739159347 / 4503599627370496"
  by (simp add: fl_add_def dt_farm_double_def round_double_eval[where e = "-1"] pow2_def
      round_half_even_def Let_def)

lemma sub_day_time_7: "fl_add (3152519739159347 / 4503599627370496) dt_farm_double = 7205759403792793 / 9007199254740992"
  by (simp add: fl_add_def dt_farm_double_def round_double_eval[where e = "-1"] pow2_def
      round_half_even_def Let_def)

lemma sub_day_time_8: "fl_add (7205759403792793 / 9007199254740992) dt_farm_double = 2026619832316723 / 2251799813685248"
  by (simp add: fl_add_def dt_farm_double_def round_double_eval[where e = "-1"] pow2_def
      round_half_even_def Let_def)

lemma sub_day_time_9: "fl_add (2026619832316723 / 2251799813685248) dt_farm_double = 9007199254740991 / 9007199254740992"
  by (simp add: fl_add_def dt_farm_double_def round_double_eval[where e = "-1"] pow2_def
      round_half_even_def Let_def)

lemma sub_day_time_10: "fl_add (9007199254740991 / 9007199254740992) dt_farm_double = 4953959590107545 / 4503599627370496"
  by (simp add: fl_add_def dt_farm_double_def round_double_eval[where e = "0"] pow2_def
      round_half_even_def Let_def)


text \<open>The values of the loop variable \<^verbatim>\<open>t\<close>: the first eleven are below 1 and the
  twelfth is not, so the sub-day loop makes eleven passes.\<close>

lemma sub_day_loop_passes:
  "sub_day_loop body s
   = body (body (body (body (body (body (body (body (body (body (body s))))))))))"
  unfolding sub_day_loop_def
  by (simp add: eval_nat_numeral sub_day_time_0 sub_day_time_1 sub_day_time_2 sub_day_time_3
      sub_day_time_4 sub_day_time_5 sub_day_time_6 sub_day_time_7 sub_day_time_8
      sub_day_time_9 sub_day_time_10)

lemma substeps_end_one: "substeps_end 1"
  unfolding substeps_end_def
  by (rule exI[of _ 1]) (simp add: fl_add_zero_one)

section \<open>Record updates and observations\<close>

lemmas rng_defs = rng_next_def gsl_rng_uniform_def gsl_ran_gaussian_def gsl_ran_poisson_def
  gsl_ran_binomial_def gsl_ran_negative_binomial_def rand_binomial_def rand_poisson_def
  capped_poisson_def

lemmas weather_defs = weather_time_index_def WEATHER_DAYS_def farm_get_weather_def

lemma farm_hosts_update [simp]:
  "farm_hosts (movement_banned_update u0 (f::Farm)) = farm_hosts f"
  "farm_hosts (free_area_update u1 (f::Farm)) = farm_hosts f"
  "farm_hosts (local_farm_ids_update u2 (f::Farm)) = farm_hosts f"
  "farm_hosts (num_local_farms_update u3 (f::Farm)) = farm_hosts f"
  "farm_hosts (ever_been_detected_update u4 (f::Farm)) = farm_hosts f"
  "farm_hosts (protection_zone_update u5 (f::Farm)) = farm_hosts f"
  "farm_hosts (surveillance_zone_update u6 (f::Farm)) = farm_hosts f"
  "farm_hosts (detected_update u7 (f::Farm)) = farm_hosts f"
  "farm_hosts (temp_today_update u8 (f::Farm)) = farm_hosts f"
  "farm_hosts (mean_rain_last_week_update u9 (f::Farm)) = farm_hosts f"
  "farm_hosts (wind_today_update u10 (f::Farm)) = farm_hosts f"
  "farm_hosts (autocorr_update u11 (f::Farm)) = farm_hosts f"
  "farm_hosts (overdispersion_update u12 (f::Farm)) = farm_hosts f"
  "farm_hosts (force_update u19 (f::Farm)) = farm_hosts f"
  by (simp_all add: farm_hosts_def)

lemma farm_weather_update [simp]:
  "farm_weather (movement_banned_update u0 (f::Farm)) = farm_weather f"
  "farm_weather (free_area_update u1 (f::Farm)) = farm_weather f"
  "farm_weather (local_farm_ids_update u2 (f::Farm)) = farm_weather f"
  "farm_weather (num_local_farms_update u3 (f::Farm)) = farm_weather f"
  "farm_weather (ever_been_detected_update u4 (f::Farm)) = farm_weather f"
  "farm_weather (protection_zone_update u5 (f::Farm)) = farm_weather f"
  "farm_weather (surveillance_zone_update u6 (f::Farm)) = farm_weather f"
  "farm_weather (detected_update u7 (f::Farm)) = farm_weather f"
  "farm_weather (i_sheep_update u13 (f::Farm)) = farm_weather f"
  "farm_weather (r_sheep_update u14 (f::Farm)) = farm_weather f"
  "farm_weather (s_sheep_update u15 (f::Farm)) = farm_weather f"
  "farm_weather (i_cattle_update u16 (f::Farm)) = farm_weather f"
  "farm_weather (r_cattle_update u17 (f::Farm)) = farm_weather f"
  "farm_weather (s_cattle_update u18 (f::Farm)) = farm_weather f"
  "farm_weather (force_update u19 (f::Farm)) = farm_weather f"
  by (simp_all add: farm_weather_def)

lemma farm_flags_update [simp]:
  "farm_flags (free_area_update u1 (f::Farm)) = farm_flags f"
  "farm_flags (local_farm_ids_update u2 (f::Farm)) = farm_flags f"
  "farm_flags (num_local_farms_update u3 (f::Farm)) = farm_flags f"
  "farm_flags (ever_been_detected_update u4 (f::Farm)) = farm_flags f"
  "farm_flags (detected_update u7 (f::Farm)) = farm_flags f"
  "farm_flags (temp_today_update u8 (f::Farm)) = farm_flags f"
  "farm_flags (mean_rain_last_week_update u9 (f::Farm)) = farm_flags f"
  "farm_flags (wind_today_update u10 (f::Farm)) = farm_flags f"
  "farm_flags (autocorr_update u11 (f::Farm)) = farm_flags f"
  "farm_flags (overdispersion_update u12 (f::Farm)) = farm_flags f"
  "farm_flags (i_sheep_update u13 (f::Farm)) = farm_flags f"
  "farm_flags (r_sheep_update u14 (f::Farm)) = farm_flags f"
  "farm_flags (s_sheep_update u15 (f::Farm)) = farm_flags f"
  "farm_flags (i_cattle_update u16 (f::Farm)) = farm_flags f"
  "farm_flags (r_cattle_update u17 (f::Farm)) = farm_flags f"
  "farm_flags (s_cattle_update u18 (f::Farm)) = farm_flags f"
  "farm_flags (force_update u19 (f::Farm)) = farm_flags f"
  by (simp_all add: farm_flags_def)

lemma midges_update [simp]:
  "midges (farms_update u0 (st::SimulationState)) = midges st"
  "midges (num_farms_detected_today_update u1 (st::SimulationState)) = midges st"
  "midges (btv_observed_update u2 (st::SimulationState)) = midges st"
  "midges (first_detected_farm_id_update u3 (st::SimulationState)) = midges st"
  "midges (num_sheep_deaths_update u4 (st::SimulationState)) = midges st"
  "midges (num_sheep_infected_today_update u5 (st::SimulationState)) = midges st"
  "midges (num_cattle_infected_today_update u6 (st::SimulationState)) = midges st"
  "midges (interrupted_movements_update u10 (st::SimulationState)) = midges st"
  "midges (num_risky_moves_blocked_update u11 (st::SimulationState)) = midges st"
  "midges (num_movement_transmissions_update u12 (st::SimulationState)) = midges st"
  "midges (restriction_zones_implemented_update u13 (st::SimulationState)) = midges st"
  "midges (active_surveillance_performed_update u14 (st::SimulationState)) = midges st"
  "midges (num_farms_checked_update u15 (st::SimulationState)) = midges st"
  "midges (num_tests_update u16 (st::SimulationState)) = midges st"
  "midges (num_pos_tests_update u17 (st::SimulationState)) = midges st"
  "midges (simulation_day_update u18 (st::SimulationState)) = midges st"
  "midges (day_of_year_update u19 (st::SimulationState)) = midges st"
  by (simp_all add: midges_def)

lemma layout_update [simp]:
  "layout (farms_update u0 (st::SimulationState)) = layout st"
  "layout (num_farms_detected_today_update u1 (st::SimulationState)) = layout st"
  "layout (btv_observed_update u2 (st::SimulationState)) = layout st"
  "layout (first_detected_farm_id_update u3 (st::SimulationState)) = layout st"
  "layout (num_sheep_deaths_update u4 (st::SimulationState)) = layout st"
  "layout (num_sheep_infected_today_update u5 (st::SimulationState)) = layout st"
  "layout (num_cattle_infected_today_update u6 (st::SimulationState)) = layout st"
  "layout (latent_midge_density_update u7 (st::SimulationState)) = layout st"
  "layout (inf_midge_density_update u8 (st::SimulationState)) = layout st"
  "layout (diffusion_soln_grid_update u9 (st::SimulationState)) = layout st"
  "layout (interrupted_movements_update u10 (st::SimulationState)) = layout st"
  "layout (num_risky_moves_blocked_update u11 (st::SimulationState)) = layout st"
  "layout (num_movement_transmissions_update u12 (st::SimulationState)) = layout st"
  "layout (restriction_zones_implemented_update u13 (st::SimulationState)) = layout st"
  "layout (active_surveillance_performed_update u14 (st::SimulationState)) = layout st"
  "layout (num_farms_checked_update u15 (st::SimulationState)) = layout st"
  "layout (num_tests_update u16 (st::SimulationState)) = layout st"
  "layout (num_pos_tests_update u17 (st::SimulationState)) = layout st"
  "layout (day_of_year_update u19 (st::SimulationState)) = layout st"
  by (simp_all add: layout_def)


section \<open>What each step leaves unchanged\<close>

lemma is_obs_simps [simp]:
  "is_flags (Flags k)" "\<not> is_flags (Hosts k)" "\<not> is_flags (Weather k)" "\<not> is_flags Midges"
  "\<not> is_flags Layout" "\<not> is_flags Deaths"
  "is_hosts (Hosts k)" "\<not> is_hosts (Flags k)" "\<not> is_hosts (Weather k)" "\<not> is_hosts Midges"
  "\<not> is_hosts Layout" "\<not> is_hosts Deaths"
  "is_weather (Weather k)" "\<not> is_weather (Flags k)" "\<not> is_weather (Hosts k)" "\<not> is_weather Midges"
  "\<not> is_weather Layout" "\<not> is_weather Deaths"
  by (simp_all add: is_flags_def is_hosts_def is_weather_def)

lemma view_upd_farm:
  assumes "\<forall>f. is_hosts ob \<longrightarrow> farm_hosts (h f) = farm_hosts f"
    and "\<forall>f. is_weather ob \<longrightarrow> farm_weather (h f) = farm_weather f"
    and "\<forall>f. is_flags ob \<longrightarrow> farm_flags (h f) = farm_flags f"
  shows "view ob (upd_farm k h st) = view ob st"
  using assms by (cases ob) (simp_all add: view_def upd_farm_def midges_def layout_def)

lemma view_update [simp]:
  "view ob (num_farms_detected_today_update u1 st) = view ob st"
  "view ob (btv_observed_update u2 st) = view ob st"
  "view ob (first_detected_farm_id_update u3 st) = view ob st"
  "view ob (num_sheep_infected_today_update u4 st) = view ob st"
  "view ob (num_cattle_infected_today_update u5 st) = view ob st"
  "view ob (interrupted_movements_update u6 st) = view ob st"
  "view ob (num_risky_moves_blocked_update u7 st) = view ob st"
  "view ob (num_movement_transmissions_update u8 st) = view ob st"
  "view ob (restriction_zones_implemented_update u9 st) = view ob st"
  "view ob (active_surveillance_performed_update u10 st) = view ob st"
  "view ob (num_farms_checked_update u11 st) = view ob st"
  "view ob (num_tests_update u12 st) = view ob st"
  "view ob (num_pos_tests_update u13 st) = view ob st"
  "view ob (day_of_year_update u14 st) = view ob st"
  by (cases ob; simp add: view_def)+

lemma view_update_observed:
  "ob \<noteq> Midges \<Longrightarrow> view ob (latent_midge_density_update v1 st) = view ob st"
  "ob \<noteq> Midges \<Longrightarrow> view ob (inf_midge_density_update v2 st) = view ob st"
  "ob \<noteq> Midges \<Longrightarrow> view ob (diffusion_soln_grid_update v3 st) = view ob st"
  "ob \<noteq> Layout \<Longrightarrow> view ob (simulation_day_update v4 st) = view ob st"
  "ob \<noteq> Deaths \<Longrightarrow> view ob (num_sheep_deaths_update v5 st) = view ob st"
  by (cases ob; simp add: view_def layout_def midges_def)+

lemma fold_view: "(\<And>a s. v (f a s) = v s) \<Longrightarrow> v (fold f as s) = v s"
  by (induction as arbitrary: s) simp_all

lemma view_fold: "(\<And>a s. view ob (f a s) = view ob s) \<Longrightarrow> view ob (fold f as st) = view ob st"
  by (rule fold_view)

lemma view_fold_fst:
  "(\<And>a s. view ob (fst (f a s)) = view ob (fst s)) \<Longrightarrow> view ob (fst (fold f as sg)) = view ob (fst sg)"
  by (rule fold_view[where v = "\<lambda>s. view ob (fst s)"])

lemma ban_farm_view: "\<not> is_flags ob \<Longrightarrow> view ob (ban_farm k st) = view ob st"
  by (simp add: ban_farm_def view_upd_farm)

lemma add_local_farm_view: "view ob (add_local_farm cid c k st) = view ob st"
  by (simp add: add_local_farm_def view_upd_farm)

lemma build_local_farms_view: "view ob (build_local_farms cid c st) = view ob st"
  by (simp add: build_local_farms_def Let_def view_upd_farm view_fold add_local_farm_view)

lemma ban_local_farms_view: "\<not> is_flags ob \<Longrightarrow> view ob (ban_local_farms cid st) = view ob st"
  by (simp add: ban_local_farms_def view_fold ban_farm_view)

lemma ban_county_view: "\<not> is_flags ob \<Longrightarrow> view ob (ban_county cid st) = view ob st"
  by (simp add: ban_county_def Let_def view_fold ban_farm_view)

lemma ban_all_view: "\<not> is_flags ob \<Longrightarrow> view ob (ban_all st) = view ob st"
  by (simp add: ban_all_def view_fold ban_farm_view)

lemma implement_local_movement_ban_view:
  "\<not> is_flags ob \<Longrightarrow> view ob (implement_local_movement_ban st cid c) = view ob st"
  by (simp add: implement_local_movement_ban_def Let_def build_local_farms_view
      ban_local_farms_view ban_county_view ban_all_view)

lemma on_detection_view:
  "is_flags ob \<longrightarrow> no_control c \<Longrightarrow> view ob (on_detection k c st) = view ob st"
  by (auto simp add: on_detection_def Let_def view_upd_farm implement_local_movement_ban_view)


lemma zone_farm_view: "\<not> is_flags ob \<Longrightarrow> view ob (zone_farm cid pz2 sz2 k st) = view ob st"
  by (simp add: zone_farm_def Let_def view_upd_farm)

lemma setup_restriction_zone_view:
  "\<not> is_flags ob \<Longrightarrow> view ob (setup_restriction_zone st cid c) = view ob st"
  by (simp add: setup_restriction_zone_def Let_def view_fold zone_farm_view)

lemma survey_farm_view: "view ob (survey_farm e sr2 k st) = view ob st"
  by (simp add: survey_farm_def Let_def view_upd_farm)

lemma perform_active_surveillance_view: "view ob (perform_active_surveillance st e) = view ob st"
  by (simp add: perform_active_surveillance_def Let_def view_fold survey_farm_view)

lemma apply_control_measures_view:
  "is_flags ob \<longrightarrow> no_control c \<Longrightarrow> view ob (apply_control_measures st e c) = view ob st"
  by (auto simp add: apply_control_measures_def Let_def setup_restriction_zone_view
      perform_active_surveillance_view)

lemma farm_get_weather_view:
  "farm_get_weather k st g = Some sg' \<Longrightarrow> \<not> is_weather ob \<Longrightarrow> view ob (fst sg') = view ob st"
  by (auto simp add: weather_defs rng_defs Let_def view_upd_farm split: if_splits)

lemma sheep_mortality_view:
  "\<not> is_hosts ob \<Longrightarrow> ob \<noteq> Deaths \<Longrightarrow> is_flags ob \<longrightarrow> no_control c \<Longrightarrow>
   view ob (fst (sheep_mortality k c dtf mort n sg)) = view ob (fst sg)"
  by (simp add: sheep_mortality_def Let_def case_prod_beta view_upd_farm view_update_observed
      on_detection_view)

lemma sheep_last_stage_view:
  "\<not> is_hosts ob \<Longrightarrow> ob \<noteq> Deaths \<Longrightarrow> is_flags ob \<longrightarrow> no_control c \<Longrightarrow>
   view ob (fst (sheep_last_stage k e c dtf mort sg)) = view ob (fst sg)"
  by (simp add: sheep_last_stage_def Let_def case_prod_beta view_upd_farm sheep_mortality_view)

lemma sheep_earlier_stage_view:
  "\<not> is_hosts ob \<Longrightarrow> ob \<noteq> Deaths \<Longrightarrow> is_flags ob \<longrightarrow> no_control c \<Longrightarrow>
   view ob (fst (sheep_earlier_stage k e c dtf mort n sg)) = view ob (fst sg)"
  by (simp add: sheep_earlier_stage_def Let_def case_prod_beta view_upd_farm sheep_mortality_view)

lemma sheep_substep_view:
  "\<not> is_hosts ob \<Longrightarrow> ob \<noteq> Deaths \<Longrightarrow> is_flags ob \<longrightarrow> no_control c \<Longrightarrow>
   view ob (fst (sheep_substep k e c dtf mort sg)) = view ob (fst sg)"
  by (simp add: sheep_substep_def view_fold_fst sheep_earlier_stage_view sheep_last_stage_view)

lemma cattle_last_stage_view:
  "\<not> is_hosts ob \<Longrightarrow> view ob (fst (cattle_last_stage k e dtf sg)) = view ob (fst sg)"
  by (simp add: cattle_last_stage_def Let_def case_prod_beta view_upd_farm)

lemma cattle_earlier_stage_view:
  "\<not> is_hosts ob \<Longrightarrow> view ob (fst (cattle_earlier_stage k e dtf n sg)) = view ob (fst sg)"
  by (simp add: cattle_earlier_stage_def Let_def case_prod_beta view_upd_farm)

lemma cattle_substep_view:
  "\<not> is_hosts ob \<Longrightarrow> view ob (fst (cattle_substep k e dtf sg)) = view ob (fst sg)"
  by (simp add: cattle_substep_def view_fold_fst cattle_earlier_stage_view cattle_last_stage_view)

lemma sub_day_iter_inv:
  "(\<And>s. P s \<Longrightarrow> P (body s)) \<Longrightarrow> P s \<Longrightarrow> P (sub_day_iter bound body t s)"
  by (induction bound arbitrary: t s) simp_all

lemma sub_day_loop_inv: "(\<And>s. P s \<Longrightarrow> P (body s)) \<Longrightarrow> P s \<Longrightarrow> P (sub_day_loop body s)"
  unfolding sub_day_loop_def by (rule sub_day_iter_inv)

lemma sub_day_loop_view:
  "(\<And>s. view ob (fst (body s)) = view ob (fst s)) \<Longrightarrow>
   view ob (fst (sub_day_loop body sg)) = view ob (fst sg)"
  by (rule sub_day_loop_inv[where P = "\<lambda>s. view ob (fst s) = view ob (fst sg)"]) simp_all

lemma passive_detection_view:
  "is_flags ob \<longrightarrow> no_control c \<Longrightarrow>
   view ob (fst (passive_detection k e c sg)) = view ob (fst sg)"
  by (simp add: passive_detection_def not_detect_def detect_test_def Let_def case_prod_beta on_detection_view)

lemma farm_deaths_and_recoveries_view:
  "\<not> is_hosts ob \<Longrightarrow> ob \<noteq> Deaths \<Longrightarrow> is_flags ob \<longrightarrow> no_control c \<Longrightarrow>
   view ob (fst (farm_deaths_and_recoveries k e c sg)) = view ob (fst sg)"
  by (simp add: farm_deaths_and_recoveries_def Let_def passive_detection_view
      sub_day_loop_view sheep_substep_view cattle_substep_view)

lemma farm_transmission_midges_to_hosts_view:
  "\<not> is_hosts ob \<Longrightarrow>
   view ob (fst (farm_transmission_midges_to_hosts k e sp sg)) = view ob (fst sg)"
  by (simp add: farm_transmission_midges_to_hosts_def Let_def case_prod_beta view_upd_farm)

lemma farm_transmission_hosts_to_midges_view:
  "ob \<noteq> Midges \<Longrightarrow> view ob (farm_transmission_hosts_to_midges k e st) = view ob st"
  by (simp add: farm_transmission_hosts_to_midges_def Let_def view_update_observed)


lemma apply_mortality_view: "ob \<noteq> Midges \<Longrightarrow> view ob (apply_mortality i j n mort st) = view ob st"
  by (simp add: apply_mortality_def Let_def view_fold view_update_observed)

lemma write_back_view: "ob \<noteq> Midges \<Longrightarrow> view ob (write_back i j n soln st) = view ob st"
  by (simp add: write_back_def Let_def view_fold view_update_observed)

lemma mortality_incubation_cell_view:
  "mortality_incubation_cell e sp i j st = Some st' \<Longrightarrow> ob \<noteq> Midges \<Longrightarrow> view ob st' = view ob st"
  by (auto simp add: mortality_incubation_cell_def Let_def apply_mortality_view write_back_view
      split: if_splits)

lemma strided_loop_inv:
  assumes run: "strided_loop R N body i s = Some s'"
    and body: "\<And>j s s'. body j s = Some s' \<Longrightarrow> Q s \<Longrightarrow> Q s'"
    and start: "Q s"
  shows "Q s'"
proof -
  let ?P = "\<lambda>(R::int) (N::nat) b (i::int) s y.
              (\<forall>j s s'. b j s = Some s' \<longrightarrow> Q s \<longrightarrow> Q s') \<longrightarrow> Q s \<longrightarrow> Q y"
  have "?P R N body i s s'"
  proof (rule strided_loop.raw_induct[where P = ?P, OF _ run])
    fix loop R N body i s y
    assume IH: "\<And>R N body i s y. loop R N body i s = Some y \<Longrightarrow> ?P R N body i s y"
      and eq: "(if i < int N
                then if i < 0 then None else body (nat i) s \<bind> loop R N body (i + R)
                else Some s) = Some y"
    show "?P R N body i s y"
    proof (intro impI)
      assume b: "\<forall>j s s'. body j s = Some s' \<longrightarrow> Q s \<longrightarrow> Q s'" and q: "Q s"
      show "Q y"
      proof (cases "i < int N")
        case True
        with eq obtain s1 where s1: "body (nat i) s = Some s1"
          and rest: "loop R N body (i + R) s1 = Some y"
          by (auto split: if_splits simp: bind_eq_Some_conv)
        from b s1 q have "Q s1" by blast
        with IH[OF rest] b show ?thesis by blast
      next
        case False
        with eq q show ?thesis by simp
      qed
    qed
  qed
  with body start show ?thesis by blast
qed

lemma diffusion_loop_inv:
  assumes run: "diffusion_loop step dtv elapsed s = Some s'"
    and body: "\<And>s. Q s \<Longrightarrow> Q (step s)"
    and start: "Q s"
  shows "Q s'"
proof -
  let ?P = "\<lambda>step (dtv::real) (elapsed::real) s y. (\<forall>s. Q s \<longrightarrow> Q (step s)) \<longrightarrow> Q s \<longrightarrow> Q y"
  have "?P step dtv elapsed s s'"
  proof (rule diffusion_loop.raw_induct[where P = ?P, OF _ run])
    fix loop step dtv elapsed s y
    assume IH: "\<And>step dtv elapsed s y. loop step dtv elapsed s = Some y \<Longrightarrow> ?P step dtv elapsed s y"
      and eq: "(if elapsed < 1 then loop step dtv (fl_add elapsed dtv) (step s) else Some s) = Some y"
    show "?P step dtv elapsed s y"
    proof (intro impI)
      assume b: "\<forall>s. Q s \<longrightarrow> Q (step s)" and q: "Q s"
      show "Q y"
      proof (cases "elapsed < 1")
        case True
        with eq have rest: "loop step dtv (fl_add elapsed dtv) (step s) = Some y" by simp
        from b q have "Q (step s)" by blast
        with IH[OF rest] b show ?thesis by blast
      next
        case False
        with eq q show ?thesis by simp
      qed
    qed
  qed
  with body start show ?thesis by blast
qed

lemma midge_mortality_and_incubation_view:
  assumes "midge_mortality_and_incubation st e gp sp = Some st'" and "ob \<noteq> Midges"
  shows "view ob st' = view ob st"
proof -
  let ?Q = "\<lambda>s. view ob s = view ob st"
  have inner: "\<And>i s s'. strided_loop (c_int (midge_grid_width gp / temp_grid_width gp)) MAX_GRID_E
        (mortality_incubation_cell e sp i) 0 s = Some s' \<Longrightarrow> ?Q s \<Longrightarrow> ?Q s'"
    by (erule strided_loop_inv) (simp_all add: mortality_incubation_cell_view[OF _ assms(2)])
  show ?thesis
    using assms(1) unfolding midge_mortality_and_incubation_def Let_def
    by (rule strided_loop_inv[where Q = ?Q]) (simp_all add: inner)
qed

lemma gset_gadd_simps [simp]:
  "gset i j v G i' j' = (if i' = i \<and> j' = j then v else G i' j')"
  "gadd i j v G i' j' = (if i' = i \<and> j' = j then G i j + v else G i' j')"
  by (auto simp add: gset_def gadd_def)

lemma diffuse_latent_stage_view:
  "ob \<noteq> Midges \<Longrightarrow> view ob (diffuse_latent_stage dtv h2 n st) = view ob st"
  by (simp add: diffuse_latent_stage_def Let_def case_prod_beta view_update_observed)

lemma diffuse_infectious_view:
  "ob \<noteq> Midges \<Longrightarrow> view ob (diffuse_infectious dtv h2 st) = view ob st"
  by (simp add: diffuse_infectious_def Let_def case_prod_beta view_update_observed)

lemma midge_diffusion_step_view:
  "ob \<noteq> Midges \<Longrightarrow> view ob (midge_diffusion_step st sp e gp) = view ob st"
  by (simp add: midge_diffusion_step_def Let_def view_fold diffuse_latent_stage_view
      diffuse_infectious_view)

lemma midge_diffusion_for_day_view:
  assumes "midge_diffusion_for_day st sp e gp = Some st'" and "ob \<noteq> Midges"
  shows "view ob st' = view ob st"
  using assms(1) unfolding midge_diffusion_for_day_def
  by (rule diffusion_loop_inv[where Q = "\<lambda>s. view ob s = view ob st"])
     (simp_all add: midge_diffusion_step_view assms(2))


lemma funpow_inv: "(\<And>s. P s \<Longrightarrow> P (f s)) \<Longrightarrow> P s \<Longrightarrow> P ((f ^^ n) s)"
  by (induction n) simp_all

lemma cattle_shipment_step_view:
  "\<not> is_hosts ob \<Longrightarrow>
   view ob (fst (cattle_shipment_step from_id to_id e tot v)) = view ob (fst v)"
  by (simp add: cattle_shipment_step_def Let_def case_prod_beta view_upd_farm rng_defs
      split: option.splits)

lemma sheep_shipment_step_view:
  "\<not> is_hosts ob \<Longrightarrow>
   view ob (fst (sheep_shipment_step from_id to_id e tot v)) = view ob (fst v)"
  by (simp add: sheep_shipment_step_def Let_def case_prod_beta view_upd_farm rng_defs
      split: option.splits)

lemma cattle_shipment_view:
  assumes "\<not> is_hosts ob"
  shows "view ob (fst (cattle_shipment from_id to_id e m sg)) = view ob (fst sg)"
  unfolding cattle_shipment_def Let_def case_prod_beta
  by (rule funpow_inv[where P = "\<lambda>v. view ob (fst v) = view ob (fst sg)"])
     (simp_all add: cattle_shipment_step_view assms)

lemma sheep_shipment_view:
  assumes "\<not> is_hosts ob"
  shows "view ob (fst (sheep_shipment from_id to_id e m sg)) = view ob (fst sg)"
  unfolding sheep_shipment_def Let_def case_prod_beta
  by (rule funpow_inv[where P = "\<lambda>v. view ob (fst v) = view ob (fst sg)"])
     (simp_all add: sheep_shipment_step_view assms)

lemma transmission_via_movement_view:
  "\<not> is_hosts ob \<Longrightarrow>
   view ob (fst (transmission_via_movement st from_id to_id risk e m c g)) = view ob st"
  by (simp add: transmission_via_movement_def Let_def case_prod_beta rng_defs
      cattle_shipment_view sheep_shipment_view)

lemma movement_transmission_view:
  "\<not> is_hosts ob \<Longrightarrow> view ob (fst (movement_transmission st e m c g)) = view ob st"
  by (simp add: movement_transmission_def view_fold_fst transmission_via_movement_view)

lemma farm_hosts_phase_view:
  assumes "farm_hosts_phase P k sg = Some sg'"
    and "\<not> is_hosts ob" "\<not> is_weather ob" "ob \<noteq> Deaths" "is_flags ob \<longrightarrow> no_control (ctrl P)"
  shows "view ob (fst sg') = view ob (fst sg)"
  using assms
  by (auto simp add: farm_hosts_phase_def Let_def bind_eq_Some_conv
      farm_transmission_midges_to_hosts_view farm_deaths_and_recoveries_view
      dest: farm_get_weather_view)

lemma farm_update_view:
  assumes "farm_update P k sg = Some sg'"
    and "\<not> is_hosts ob" "\<not> is_weather ob" "ob \<noteq> Deaths" "ob \<noteq> Midges"
        "is_flags ob \<longrightarrow> no_control (ctrl P)"
  shows "view ob (fst sg') = view ob (fst sg)"
  using assms
  by (auto simp add: farm_update_def bind_eq_Some_conv farm_transmission_hosts_to_midges_view
      dest: farm_hosts_phase_view)

lemma fold_option_inv:
  assumes "fold_option f as s = Some s'"
    and step: "\<And>a s s'. f a s = Some s' \<Longrightarrow> Q s \<Longrightarrow> Q s'"
    and "Q s"
  shows "Q s'"
  using assms(1,3)
proof (induction as arbitrary: s)
  case Nil
  then show ?case by simp
next
  case (Cons a as)
  from Cons.prems(1) obtain s1 where s1: "f a s = Some s1" and rest: "fold_option f as s1 = Some s'"
    by (auto simp: bind_eq_Some_conv)
  have "Q s1" using step[OF s1 Cons.prems(2)] .
  then show ?case using Cons.IH[OF rest] by blast
qed

lemma reset_daily_counters_view: "ob \<noteq> Deaths \<Longrightarrow> view ob (reset_daily_counters st) = view ob st"
  by (simp add: reset_daily_counters_def view_update_observed)

lemma advance_time_view: "ob \<noteq> Layout \<Longrightarrow> view ob (advance_time st) = view ob st"
  by (simp add: advance_time_def Let_def view_update_observed)

lemma simulate_day_flags:
  assumes run: "simulate_day P sg = Some sg'" and nc: "no_control (ctrl P)"
  shows "view (Flags k) (fst sg') = view (Flags k) (fst sg)"
proof -
  let ?ob = "Flags k"
  let ?s1 = "apply_control_measures (reset_daily_counters (fst sg)) (epi P) (ctrl P)"
  from run obtain s2 s3 sg5 where
    s2: "midge_mortality_and_incubation ?s1 (epi P) (grids P) (species P) = Some s2"
    and s3: "midge_diffusion_for_day s2 (sim P) (epi P) (grids P) = Some s3"
    and s5: "fold_option (farm_update P)
               [0..<num_farms (fst (movement_transmission s3 (epi P) (mov P) (ctrl P) (snd sg)))]
               (movement_transmission s3 (epi P) (mov P) (ctrl P) (snd sg)) = Some sg5"
    and out: "sg' = (advance_time (fst sg5), snd sg5)"
    by (auto simp add: simulate_day_def Let_def bind_eq_Some_conv)
  have v1: "view ?ob ?s1 = view ?ob (fst sg)"
    by (simp add: apply_control_measures_view reset_daily_counters_view nc)
  have v2: "view ?ob s2 = view ?ob ?s1"
    by (rule midge_mortality_and_incubation_view[OF s2]) simp
  have v3: "view ?ob s3 = view ?ob s2"
    by (rule midge_diffusion_for_day_view[OF s3]) simp
  have v4: "view ?ob (fst (movement_transmission s3 (epi P) (mov P) (ctrl P) (snd sg))) = view ?ob s3"
    by (simp add: movement_transmission_view)
  have v5: "view ?ob (fst sg5) = view ?ob (fst sg)"
    by (rule fold_option_inv[OF s5, where Q = "\<lambda>s. view ?ob (fst s) = view ?ob (fst sg)"])
       (simp_all add: farm_update_view nc v1 v2 v3 v4)
  show ?thesis
    by (simp add: out advance_time_view v5)
qed

section \<open>Every loop returns\<close>

lemma strided_loop_total:
  assumes R: "1 \<le> R"
    and body: "\<And>j s. Q s \<Longrightarrow> \<exists>s'. body j s = Some s' \<and> Q s'"
  shows "0 \<le> i \<Longrightarrow> Q s \<Longrightarrow> \<exists>s'. strided_loop R N body i s = Some s' \<and> Q s'"
proof (induction "nat (int N - i)" arbitrary: i s rule: less_induct)
  case less
  show ?case
  proof (cases "i < int N")
    case True
    from body[OF less.prems(2)] obtain s1 where s1: "body (nat i) s = Some s1" and q1: "Q s1"
      by blast
    have "nat (int N - (i + R)) < nat (int N - i)"
      using True R by linarith
    from less.hyps[OF this _ q1] less.prems(1) R
    obtain s' where "strided_loop R N body (i + R) s1 = Some s'" and "Q s'"
      by auto
    then show ?thesis
      using True less.prems(1) s1 by (subst strided_loop.simps) auto
  next
    case False
    then show ?thesis
      using less.prems(2) by (subst strided_loop.simps) simp
  qed
qed

lemma diffusion_loop_total:
  assumes step: "\<And>s. Q s \<Longrightarrow> Q (step s)"
  shows "\<not> ((\<lambda>x. fl_add x dtv) ^^ N) elapsed < 1 \<Longrightarrow> Q s \<Longrightarrow>
         \<exists>s'. diffusion_loop step dtv elapsed s = Some s' \<and> Q s'"
proof (induction N arbitrary: elapsed s)
  case 0
  then show ?case by (subst diffusion_loop.simps) simp
next
  case (Suc N)
  show ?case
  proof (cases "elapsed < 1")
    case True
    have "\<not> ((\<lambda>x. fl_add x dtv) ^^ N) (fl_add elapsed dtv) < 1"
      using Suc.prems(1) funpow_swap1[of "\<lambda>x. fl_add x dtv" N elapsed] by simp
    from Suc.IH[OF this step[OF Suc.prems(2)]]
    obtain s' where "diffusion_loop step dtv (fl_add elapsed dtv) (step s) = Some s'" and "Q s'"
      by auto
    then show ?thesis
      using True by (subst diffusion_loop.simps) auto
  next
    case False
    then show ?thesis
      using Suc.prems(2) by (subst diffusion_loop.simps) simp
  qed
qed

lemma fold_option_total:
  assumes step: "\<And>a s. Q s \<Longrightarrow> \<exists>s'. f a s = Some s' \<and> Q s'"
  shows "Q s \<Longrightarrow> \<exists>s'. fold_option f as s = Some s' \<and> Q s'"
proof (induction as arbitrary: s)
  case Nil
  then show ?case by simp
next
  case (Cons a as)
  from step[OF Cons.prems] obtain s1 where "f a s = Some s1" and "Q s1" by blast
  with Cons.IH[of s1] show ?case by auto
qed

lemma view_Layout_day: "view Layout st' = view Layout st \<Longrightarrow> simulation_day st' = simulation_day st"
  by (simp add: view_def layout_def)


lemma mortality_incubation_cell_total:
  "simulation_day st < 365 \<Longrightarrow> \<exists>st'. mortality_incubation_cell e sp i j st = Some st'"
  by (simp add: mortality_incubation_cell_def weather_time_index_def WEATHER_DAYS_def Let_def)

lemma midge_mortality_and_incubation_total:
  assumes R: "1 \<le> c_int (midge_grid_width gp / temp_grid_width gp)"
    and day: "simulation_day st < 365"
  shows "\<exists>st'. midge_mortality_and_incubation st e gp sp = Some st'"
proof -
  let ?R = "c_int (midge_grid_width gp / temp_grid_width gp)"
  let ?Q = "\<lambda>s. view Layout s = view Layout st"
  have cell: "\<And>i j s. ?Q s \<Longrightarrow> \<exists>s'. mortality_incubation_cell e sp i j s = Some s' \<and> ?Q s'"
  proof -
    fix i j s assume q: "?Q s"
    then have "simulation_day s < 365" using day by (simp add: view_def layout_def)
    then obtain s' where s': "mortality_incubation_cell e sp i j s = Some s'"
      using mortality_incubation_cell_total by blast
    then have "view Layout s' = view Layout s"
      by (rule mortality_incubation_cell_view) simp
    with s' q show "\<exists>s'. mortality_incubation_cell e sp i j s = Some s' \<and> ?Q s'" by simp
  qed
  have row: "\<And>i s. ?Q s \<Longrightarrow>
      \<exists>s'. strided_loop ?R MAX_GRID_E (mortality_incubation_cell e sp i) 0 s = Some s' \<and> ?Q s'"
    by (rule strided_loop_total[OF R, where Q = ?Q]) (simp_all add: cell)
  have "\<exists>s'. strided_loop ?R MAX_GRID_S
          (\<lambda>i. strided_loop ?R MAX_GRID_E (mortality_incubation_cell e sp i) 0) 0 st = Some s'
        \<and> ?Q s'"
    by (rule strided_loop_total[OF R, where Q = ?Q]) (simp_all add: row)
  then show ?thesis
    by (auto simp add: midge_mortality_and_incubation_def Let_def)
qed

lemma midge_diffusion_for_day_total:
  "substeps_end (dt sp) \<Longrightarrow> \<exists>st'. midge_diffusion_for_day st sp e gp = Some st'"
  unfolding midge_diffusion_for_day_def substeps_end_def
  using diffusion_loop_total[where Q = "\<lambda>s. True" and dtv = "dt sp" and elapsed = 0
      and s = st and step = "\<lambda>s. midge_diffusion_step s sp e gp"]
  by auto

lemma farm_get_weather_total:
  "simulation_day st < 365 \<Longrightarrow> \<exists>sg'. farm_get_weather k st g = Some sg'"
  by (simp add: weather_defs rng_defs Let_def)

lemma farm_update_total:
  assumes "simulation_day (fst sg) < 365"
  shows "\<exists>sg'. farm_update P k sg = Some sg'"
proof -
  from farm_get_weather_total[OF assms] obtain sg1
    where "farm_get_weather k (fst sg) (snd sg) = Some sg1" by blast
  then show ?thesis
    by (simp add: farm_update_def farm_hosts_phase_def Let_def)
qed

lemma simulate_day_total:
  assumes dt: "substeps_end (dt (sim P))"
    and R: "1 \<le> c_int (midge_grid_width (grids P) / temp_grid_width (grids P))"
    and day: "simulation_day (fst sg) < 365"
  shows "\<exists>sg'. simulate_day P sg = Some sg'"
proof -
  let ?s1 = "apply_control_measures (reset_daily_counters (fst sg)) (epi P) (ctrl P)"
  have l1: "view Layout ?s1 = view Layout (fst sg)"
    by (simp add: apply_control_measures_view reset_daily_counters_view)
  then have "simulation_day ?s1 < 365"
    using day by (simp add: view_def layout_def)
  from midge_mortality_and_incubation_total[OF R this]
  obtain s2 where s2: "midge_mortality_and_incubation ?s1 (epi P) (grids P) (species P) = Some s2"
    by blast
  have l2: "view Layout s2 = view Layout ?s1"
    by (rule midge_mortality_and_incubation_view[OF s2]) simp
  from midge_diffusion_for_day_total[OF dt]
  obtain s3 where s3: "midge_diffusion_for_day s2 (sim P) (epi P) (grids P) = Some s3"
    by blast
  have l3: "view Layout s3 = view Layout s2"
    by (rule midge_diffusion_for_day_view[OF s3]) simp
  let ?sg4 = "movement_transmission s3 (epi P) (mov P) (ctrl P) (snd sg)"
  have l4: "view Layout (fst ?sg4) = view Layout s3"
    by (simp add: movement_transmission_view)
  let ?Q = "\<lambda>s. view Layout (fst s) = view Layout (fst sg)"
  have step: "\<And>k s. ?Q s \<Longrightarrow> \<exists>s'. farm_update P k s = Some s' \<and> ?Q s'"
  proof -
    fix k and s :: "SimulationState \<times> gsl_rng"
    assume q: "?Q s"
    then have "simulation_day (fst s) < 365" using day by (simp add: view_def layout_def)
    from farm_update_total[OF this] obtain s' where s': "farm_update P k s = Some s'" by blast
    have "view Layout (fst s') = view Layout (fst s)"
      by (rule farm_update_view[OF s']) simp_all
    with s' q show "\<exists>s'. farm_update P k s = Some s' \<and> ?Q s'" by simp
  qed
  have "?Q ?sg4" using l1 l2 l3 l4 by simp
  have "\<exists>sg5. fold_option (farm_update P) [0..<num_farms (fst ?sg4)] ?sg4 = Some sg5 \<and> ?Q sg5"
    using step \<open>?Q ?sg4\<close> by (rule fold_option_total[where Q = ?Q and f = "farm_update P"])
  then obtain sg5 where "fold_option (farm_update P) [0..<num_farms (fst ?sg4)] ?sg4 = Some sg5"
    by blast
  with s2 s3 show ?thesis
    by (simp add: simulate_day_def Let_def)
qed

lemma simulate_day_clock:
  assumes "simulate_day P sg = Some sg'"
  shows "simulation_day (fst sg') = Suc (simulation_day (fst sg))"
proof -
  let ?s1 = "apply_control_measures (reset_daily_counters (fst sg)) (epi P) (ctrl P)"
  from assms obtain s2 s3 sg5 where
    s2: "midge_mortality_and_incubation ?s1 (epi P) (grids P) (species P) = Some s2"
    and s3: "midge_diffusion_for_day s2 (sim P) (epi P) (grids P) = Some s3"
    and s5: "fold_option (farm_update P)
               [0..<num_farms (fst (movement_transmission s3 (epi P) (mov P) (ctrl P) (snd sg)))]
               (movement_transmission s3 (epi P) (mov P) (ctrl P) (snd sg)) = Some sg5"
    and out: "sg' = (advance_time (fst sg5), snd sg5)"
    by (auto simp add: simulate_day_def Let_def bind_eq_Some_conv)
  have v1: "view Layout ?s1 = view Layout (fst sg)"
    by (simp add: apply_control_measures_view reset_daily_counters_view)
  have v2: "view Layout s2 = view Layout ?s1"
    by (rule midge_mortality_and_incubation_view[OF s2]) simp
  have v3: "view Layout s3 = view Layout s2"
    by (rule midge_diffusion_for_day_view[OF s3]) simp
  have v4: "view Layout (fst (movement_transmission s3 (epi P) (mov P) (ctrl P) (snd sg))) = view Layout s3"
    by (simp add: movement_transmission_view)
  have v5: "view Layout (fst sg5) = view Layout (fst sg)"
    by (rule fold_option_inv[OF s5, where Q = "\<lambda>s. view Layout (fst s) = view Layout (fst sg)"])
       (simp_all add: farm_update_view v1 v2 v3 v4)
  then have "simulation_day (fst sg5) = simulation_day (fst sg)"
    by (simp add: view_def layout_def)
  then show ?thesis
    by (simp add: out advance_time_def Let_def)
qed

lemma simulate_days_total:
  assumes dt: "substeps_end (dt (sim P))"
    and R: "1 \<le> c_int (midge_grid_width (grids P) / temp_grid_width (grids P))"
  shows "simulation_day (fst sg) + n \<le> 365 \<Longrightarrow> \<exists>sg'. simulate_days P n sg = Some sg'"
proof (induction n arbitrary: sg)
  case 0
  then show ?case by simp
next
  case (Suc n)
  then have "simulation_day (fst sg) < 365" by simp
  from simulate_day_total[OF dt R this] obtain sg1 where sg1: "simulate_day P sg = Some sg1"
    by blast
  from simulate_day_clock[OF sg1] Suc.prems have "simulation_day (fst sg1) + n \<le> 365" by simp
  from Suc.IH[OF this] sg1 show ?case by simp
qed

lemma simulate_days_flags:
  assumes nc: "no_control (ctrl P)"
  shows "simulate_days P n sg = Some sg' \<Longrightarrow> view (Flags k) (fst sg') = view (Flags k) (fst sg)"
proof (induction n arbitrary: sg)
  case 0
  then show ?case by simp
next
  case (Suc n)
  from Suc.prems obtain sg1 where sg1: "simulate_day P sg = Some sg1"
    and rest: "simulate_days P n sg1 = Some sg'"
    by (auto simp: bind_eq_Some_conv)
  from Suc.IH[OF rest] simulate_day_flags[OF sg1 nc] show ?case by simp
qed

section \<open>The weather read\<close>

lemma farm_get_weather_stores:
  assumes "simulation_day st < 365"
  shows "\<exists>st' g'. farm_get_weather k st g = Some (st', g')
     \<and> temp_today (farms st' k)
         = temp_grid st (temp_grid_y (farms st k)) (temp_grid_x (farms st k)) (simulation_day st)
     \<and> mean_rain_last_week (farms st' k)
         = rain_grid st (rain_grid_y (farms st k)) (rain_grid_x (farms st k)) (simulation_day st)"
  using assms by (simp add: weather_defs rng_defs Let_def upd_farm_def)
lemma farm_get_weather_zero:
  "farm_get_weather k st g = Some sg' \<Longrightarrow>
   wind_today (farms (fst sg') k) = 0 \<and> autocorr (farms (fst sg') k) = 0"
  by (auto simp add: weather_defs rng_defs Let_def upd_farm_def split: if_splits)

lemma farm_get_weather_forgets_autocorr:
  "farm_get_weather k (upd_farm k (\<lambda>f. f\<lparr>autocorr := a\<rparr>) st) g = farm_get_weather k st g"
  by (simp add: weather_defs rng_defs Let_def upd_farm_def)

lemma view_Weather_autocorr:
  "view (Weather k) st' = view (Weather k) st \<Longrightarrow> autocorr (farms st' k) = autocorr (farms st k)"
  by (simp add: view_def farm_weather_def)

lemma farm_hosts_phase_autocorr:
  assumes "farm_hosts_phase P k sg = Some sg3"
  shows "autocorr (farms (fst sg3) k) = 0"
proof -
  from assms obtain sg1 where w: "farm_get_weather k (fst sg) (snd sg) = Some sg1"
    and out: "sg3 = farm_transmission_midges_to_hosts k (epi P) (species P)
                      (farm_deaths_and_recoveries k (epi P) (ctrl P) sg1)"
    by (auto simp add: farm_hosts_phase_def Let_def bind_eq_Some_conv)
  have "view (Weather k) (fst sg3) = view (Weather k) (fst sg1)"
    by (simp add: out farm_transmission_midges_to_hosts_view farm_deaths_and_recoveries_view)
  then show ?thesis
    using farm_get_weather_zero[OF w] by (simp add: view_def farm_weather_def)
qed

section \<open>Mortality and incubation in one cell\<close>

lemma sum_stages_sum: "sum_stages a n = (\<Sum>m<n. a m)"
  by (induction n) simp_all

lemma set_latent_apply [simp]:
  "set_latent i j n v L i' j' n' = (if i' = i \<and> j' = j \<and> n' = n then v else L i' j' n')"
  by (simp add: set_latent_def)

lemma fold_latent:
  "latent_midge_density
     (fold (\<lambda>n s. s\<lparr>latent_midge_density :=
                     set_latent i j n (F n (latent_midge_density s i j n))
                       (latent_midge_density s)\<rparr>) [0..<N] st) i' j' n'
   = (if i' = i \<and> j' = j \<and> n' < N then F n' (latent_midge_density st i j n')
      else latent_midge_density st i' j' n')"
  by (induction N) (auto simp add: less_Suc_eq)

lemma fold_latent_inf:
  "inf_midge_density
     (fold (\<lambda>n s. s\<lparr>latent_midge_density := G n s\<rparr>) ns st) = inf_midge_density st"
  by (induction ns arbitrary: st) simp_all

lemma apply_mortality_latent:
  "latent_midge_density (apply_mortality i j N mort st) i' j' n
   = (if i' = i \<and> j' = j \<and> n < N then latent_midge_density st i j n * mort
      else latent_midge_density st i' j' n)"
  unfolding apply_mortality_def Let_def
  by (simp add: fold_latent[where F = "\<lambda>n v. v * mort"])

lemma apply_mortality_inf:
  "inf_midge_density (apply_mortality i j N mort st) i' j'
   = (if i' = i \<and> j' = j then inf_midge_density st i j * mort else inf_midge_density st i' j')"
  unfolding apply_mortality_def Let_def
  by (simp add: fold_latent_inf)

lemma write_back_latent:
  "latent_midge_density (write_back i j N soln st) i' j' n
   = (if i' = i \<and> j' = j \<and> n < N then soln n else latent_midge_density st i' j' n)"
  unfolding write_back_def Let_def
  by (simp add: fold_latent[where F = "\<lambda>n v. soln n"])

lemma write_back_inf:
  "inf_midge_density (write_back i j N soln st) i' j'
   = (if i' = i \<and> j' = j then soln N else inf_midge_density st i' j')"
  unfolding write_back_def Let_def
  by (simp add: fold_latent_inf)

section \<open>The movement gate\<close>

lemma fold_inv: "(\<And>a s. Q s \<Longrightarrow> Q (f a s)) \<Longrightarrow> Q s \<Longrightarrow> Q (fold f as s)"
  by (induction as arbitrary: s) simp_all

lemma transmission_via_movement_gate:
  "risk < uniform_out g (rng_draws g) \<Longrightarrow>
   transmission_via_movement st from_id to_id risk e m c g = (st, rng_next g)"
  by (simp add: transmission_via_movement_def gsl_rng_uniform_def)

lemma movement_transmission_no_risk:
  assumes risk: "\<forall>k. movement_risk st k = 0"
    and draws: "\<forall>n. 0 < uniform_out g n"
  shows "fst (movement_transmission st e m c g) = st"
proof -
  let ?Q = "\<lambda>sg. fst sg = st \<and> uniform_out (snd sg) = uniform_out g"
  have "?Q (movement_transmission st e m c g)"
    unfolding movement_transmission_def
    by (rule fold_inv[where Q = ?Q])
       (use risk draws in \<open>simp_all add: transmission_via_movement_gate rng_next_def\<close>)
  then show ?thesis by simp
qed

section \<open>The detection block\<close>
























section \<open>One diffusion pass\<close>

lemma gadd_hit: "gadd i j v G a b = G a b + v * hit i j a b"
  by (simp add: hit_def)

lemma deposit_contrib:
  "deposit dtv h2 D rho i j soln a b = soln a b + contrib dtv h2 D rho i j a b"
proof (cases "rho i j > 0.00001")
  case True
  then have "deposit dtv h2 D rho i j soln a b
     = soln a b + - (2 * (D i j * dtv * rho i j / h2)) * hit i j a b
       + 0.5 * (D i j * dtv * rho i j / h2) * hit (i + 1) j a b
       + 0.5 * (D i j * dtv * rho i j / h2) * hit (i - 1) j a b
       + 0.5 * (D i j * dtv * rho i j / h2) * hit i (j + 1) a b
       + 0.5 * (D i j * dtv * rho i j / h2) * hit i (j - 1) a b"
    by (simp only: deposit_def Let_def gadd_hit if_True)
  also have "\<dots> = soln a b + contrib dtv h2 D rho i j a b"
    using True by (simp only: contrib_def flux_of_def if_True) (simp add: algebra_simps)
  finally show ?thesis .
next
  case False
  then show ?thesis
    by (simp add: deposit_def contrib_def flux_of_def)
qed

lemma fold_deposit_row:
  "fold (deposit dtv h2 D rho i) js soln a b
   = soln a b + (\<Sum>j\<leftarrow>js. contrib dtv h2 D rho i j a b)"
  by (induction js arbitrary: soln) (simp_all add: deposit_contrib)

lemma fold_deposit_rows:
  "fold (\<lambda>i. fold (deposit dtv h2 D rho i) js) is soln a b
   = soln a b + (\<Sum>i\<leftarrow>is. \<Sum>j\<leftarrow>js. contrib dtv h2 D rho i j a b)"
  by (induction "is" arbitrary: soln) (simp_all add: fold_deposit_row)

lemma deposit_pass_cell:
  "deposit_pass dtv h2 D rho soln a b = soln a b + deposits dtv h2 D rho a b"
  by (simp add: deposit_pass_def deposits_def fold_deposit_rows
      interv_sum_list_conv_sum_set_nat)

lemma absorb_cell:
  "fst (absorb i j rs) a b = (if a = i \<and> b = j then fst rs a b + snd rs a b else fst rs a b)"
  "snd (absorb i j rs) a b = (if a = i \<and> b = j then 0 else snd rs a b)"
  by (simp_all add: absorb_def case_prod_beta)

lemma fold_absorb_row:
  "fst (fold (absorb i) js rs) a b
     = (if a = i \<and> b \<in> set js then fst rs a b + snd rs a b else fst rs a b)
   \<and> snd (fold (absorb i) js rs) a b = (if a = i \<and> b \<in> set js then 0 else snd rs a b)"
proof (induction js arbitrary: rs)
  case Nil
  then show ?case by simp
next
  case (Cons j js)
  show ?case
    using Cons.IH[of "absorb i j rs"] by (auto simp add: absorb_cell)
qed

lemma fold_absorb_rows:
  "fst (fold (\<lambda>i. fold (absorb i) js) is rs) a b
     = (if a \<in> set is \<and> b \<in> set js then fst rs a b + snd rs a b else fst rs a b)
   \<and> snd (fold (\<lambda>i. fold (absorb i) js) is rs) a b
     = (if a \<in> set is \<and> b \<in> set js then 0 else snd rs a b)"
proof (induction "is" arbitrary: rs)
  case Nil
  then show ?case by simp
next
  case (Cons i "is")
  define r where "r = fold (absorb i) js rs"
  have row: "fst r a b = (if a = i \<and> b \<in> set js then fst rs a b + snd rs a b else fst rs a b)"
    "snd r a b = (if a = i \<and> b \<in> set js then 0 else snd rs a b)"
    using fold_absorb_row[of i js rs a b] by (simp_all add: r_def)
  have unfold: "fold (\<lambda>i. fold (absorb i) js) (i # is) rs = fold (\<lambda>i. fold (absorb i) js) is r"
    by (simp add: r_def)
  have ih: "fst (fold (\<lambda>i. fold (absorb i) js) is r) a b
              = (if a \<in> set is \<and> b \<in> set js then fst r a b + snd r a b else fst r a b)"
    "snd (fold (\<lambda>i. fold (absorb i) js) is r) a b
              = (if a \<in> set is \<and> b \<in> set js then 0 else snd r a b)"
    using Cons.IH[of r] by simp_all
  show ?case
    unfolding unfold ih row by (cases "a = i"; cases "b \<in> set js"; simp)
qed

lemma absorb_pass_cells:
  "fst (absorb_pass (rho, soln)) a b = (if interior a b then rho a b + soln a b else rho a b)"
  "snd (absorb_pass (rho, soln)) a b = (if interior a b then 0 else soln a b)"
  using fold_absorb_rows[of "[1..<MAX_GRID_E - 1]" "[1..<MAX_GRID_S - 1]" "(rho, soln)" a b]
  by (simp_all add: absorb_pass_def interior_def conj_ac)

lemma diffuse_field_cells:
  "fst (diffuse_field dtv h2 D (rho, soln)) a b
     = (if interior a b then rho a b + (soln a b + deposits dtv h2 D rho a b) else rho a b)"
  "snd (diffuse_field dtv h2 D (rho, soln)) a b
     = (if interior a b then 0 else soln a b + deposits dtv h2 D rho a b)"
  by (simp_all add: diffuse_field_def absorb_pass_cells deposit_pass_cell)

lemma cells_finite [simp]: "finite inner_cells" "finite all_cells"
  by (simp_all add: inner_cells_def all_cells_def)

lemma inner_cells_iff [simp]: "(a, b) \<in> inner_cells \<longleftrightarrow> interior a b"
  by (auto simp add: inner_cells_def interior_def)

lemma inner_subset: "inner_cells \<subseteq> all_cells"
  by (auto simp add: inner_cells_def all_cells_def MAX_GRID_S_def MAX_GRID_E_def)

lemma total_mass_cells: "total_mass rho = (\<Sum>(a, b)\<in>all_cells. rho a b)"
  by (simp add: total_mass_def all_cells_def sum.cartesian_product)

lemma deposits_cells: "deposits dtv h2 D rho a b = (\<Sum>(i, j)\<in>inner_cells. contrib dtv h2 D rho i j a b)"
  by (simp add: deposits_def inner_cells_def sum.cartesian_product)

lemma sum_hit: "finite C \<Longrightarrow> (\<Sum>c\<in>C. hit p q (fst c) (snd c)) = (if (p, q) \<in> C then 1 else 0)"
proof -
  assume fin: "finite C"
  have "(\<Sum>c\<in>C. hit p q (fst c) (snd c)) = (\<Sum>c\<in>C. if c = (p, q) then 1 else 0)"
    by (rule sum.cong) (simp_all add: hit_def prod_eq_iff)
  also have "\<dots> = (if (p, q) \<in> C then 1 else 0)"
    using fin by (simp add: sum.delta)
  finally show ?thesis .
qed

lemma sum_contrib:
  assumes "finite C"
  shows "(\<Sum>c\<in>C. contrib dtv h2 D rho i j (fst c) (snd c))
     = flux_of dtv h2 D rho i j
       * (- 2 * (if (i, j) \<in> C then 1 else 0) + 0.5 * (if (i + 1, j) \<in> C then 1 else 0)
          + 0.5 * (if (i - 1, j) \<in> C then 1 else 0) + 0.5 * (if (i, j + 1) \<in> C then 1 else 0)
          + 0.5 * (if (i, j - 1) \<in> C then 1 else 0))"
proof -
  have "(\<Sum>c\<in>C. contrib dtv h2 D rho i j (fst c) (snd c))
     = flux_of dtv h2 D rho i j
       * (- 2 * (\<Sum>c\<in>C. hit i j (fst c) (snd c)) + 0.5 * (\<Sum>c\<in>C. hit (i + 1) j (fst c) (snd c))
          + 0.5 * (\<Sum>c\<in>C. hit (i - 1) j (fst c) (snd c))
          + 0.5 * (\<Sum>c\<in>C. hit i (j + 1) (fst c) (snd c))
          + 0.5 * (\<Sum>c\<in>C. hit i (j - 1) (fst c) (snd c)))"
    unfolding contrib_def
    by (simp only: sum_distrib_left[symmetric] sum.distrib)
  then show ?thesis
    by (simp only: sum_hit[OF assms])
qed

lemma interior_source_total:
  assumes "interior i j"
  shows "(\<Sum>c\<in>all_cells. contrib dtv h2 D rho i j (fst c) (snd c)) = 0"
proof -
  from assms have "(i, j) \<in> all_cells" "(i + 1, j) \<in> all_cells" "(i - 1, j) \<in> all_cells"
    "(i, j + 1) \<in> all_cells" "(i, j - 1) \<in> all_cells"
    by (auto simp add: all_cells_def interior_def)
  then show ?thesis
    by (simp add: sum_contrib)
qed

lemma deep_source_inner:
  assumes "interior i j" and "deep i j \<or> flux_of dtv h2 D rho i j = 0"
  shows "(\<Sum>c\<in>inner_cells. contrib dtv h2 D rho i j (fst c) (snd c)) = 0"
proof (cases "flux_of dtv h2 D rho i j = 0")
  case True
  then show ?thesis by (simp add: sum_contrib)
next
  case False
  with assms have "(i, j) \<in> inner_cells" "(i + 1, j) \<in> inner_cells" "(i - 1, j) \<in> inner_cells"
    "(i, j + 1) \<in> inner_cells" "(i, j - 1) \<in> inner_cells"
    by (simp_all add: deep_def)
  then show ?thesis by (simp add: sum_contrib)
qed

lemma deposits_inner_total:
  assumes "\<And>i j. interior i j \<Longrightarrow> deep i j \<or> flux_of dtv h2 D rho i j = 0"
  shows "(\<Sum>(a, b)\<in>inner_cells. deposits dtv h2 D rho a b) = 0"
proof -
  have "(\<Sum>(a, b)\<in>inner_cells. deposits dtv h2 D rho a b)
        = (\<Sum>ab\<in>inner_cells. \<Sum>ij\<in>inner_cells.
             contrib dtv h2 D rho (fst ij) (snd ij) (fst ab) (snd ab))"
    by (simp add: deposits_cells case_prod_beta)
  also have "\<dots> = (\<Sum>ij\<in>inner_cells. \<Sum>ab\<in>inner_cells.
             contrib dtv h2 D rho (fst ij) (snd ij) (fst ab) (snd ab))"
    by (rule sum.swap)
  also have "\<dots> = (\<Sum>ij\<in>inner_cells. 0)"
  proof (rule sum.cong[OF refl])
    fix ij assume "ij \<in> inner_cells"
    then have "interior (fst ij) (snd ij)" by (cases ij) simp
    from deep_source_inner[OF this assms[OF this]]
    show "(\<Sum>ab\<in>inner_cells. contrib dtv h2 D rho (fst ij) (snd ij) (fst ab) (snd ab)) = 0" .
  qed
  finally show ?thesis by simp
qed

lemma total_mass_absorbed:
  "total_mass (\<lambda>a b. if interior a b then rho a b + v a b else rho a b)
   = total_mass rho + (\<Sum>(a, b)\<in>inner_cells. v a b)"
proof -
  have "total_mass (\<lambda>a b. if interior a b then rho a b + v a b else rho a b)
        = (\<Sum>c\<in>all_cells. rho (fst c) (snd c)
             + (if c \<in> inner_cells then v (fst c) (snd c) else 0))"
    unfolding total_mass_cells
    by (rule sum.cong) (auto simp add: case_prod_beta)
  also have "\<dots> = total_mass rho
      + (\<Sum>c\<in>all_cells. if c \<in> inner_cells then v (fst c) (snd c) else 0)"
    by (simp add: sum.distrib total_mass_cells case_prod_beta)
  also have "(\<Sum>c\<in>all_cells. if c \<in> inner_cells then v (fst c) (snd c) else 0)
             = (\<Sum>c\<in>inner_cells. v (fst c) (snd c))"
    using inner_subset by (simp add: sum.inter_restrict[symmetric] Int_absorb1)
  finally show ?thesis by (simp add: case_prod_beta)
qed

lemma diffuse_field_mass:
  assumes zero: "\<And>a b. interior a b \<Longrightarrow> soln a b = 0"
    and quiet: "\<And>i j. interior i j \<Longrightarrow> deep i j \<or> flux_of dtv h2 D rho i j = 0"
  shows "total_mass (fst (diffuse_field dtv h2 D (rho, soln))) = total_mass rho"
proof -
  have "fst (diffuse_field dtv h2 D (rho, soln))
        = (\<lambda>a b. if interior a b then rho a b + deposits dtv h2 D rho a b else rho a b)"
    by (auto simp add: fun_eq_iff diffuse_field_cells zero)
  then have "total_mass (fst (diffuse_field dtv h2 D (rho, soln)))
        = total_mass rho + (\<Sum>(a, b)\<in>inner_cells. deposits dtv h2 D rho a b)"
    by (simp only: total_mass_absorbed)
  then show ?thesis
    by (simp add: deposits_inner_total[OF quiet])
qed

lemma sum_pick:
  assumes "finite C"
  shows "(\<Sum>c\<in>C. F c * (k * (if Q then (if c = p then 1 else 0) else 0)))
         = k * (if Q \<and> p \<in> C then F p else (0::real))"
proof -
  have "(\<Sum>c\<in>C. F c * (k * (if Q then (if c = p then 1 else 0) else 0)))
        = (\<Sum>c\<in>C. if c = p then (if Q then k * F c else 0) else 0)"
    by (rule sum.cong) simp_all
  also have "\<dots> = (if p \<in> C then (if Q then k * F p else 0) else 0)"
    using assms by (simp only: sum.delta)
  finally show ?thesis by simp
qed

lemma deposits_gather:
  "deposits dtv h2 D rho a b
   = - 2 * (if True \<and> interior a b then flux_of dtv h2 D rho a b else 0)
     + 0.5 * (if 1 \<le> a \<and> interior (a - 1) b then flux_of dtv h2 D rho (a - 1) b else 0)
     + 0.5 * (if True \<and> interior (a + 1) b then flux_of dtv h2 D rho (a + 1) b else 0)
     + 0.5 * (if 1 \<le> b \<and> interior a (b - 1) then flux_of dtv h2 D rho a (b - 1) else 0)
     + 0.5 * (if True \<and> interior a (b + 1) then flux_of dtv h2 D rho a (b + 1) else 0)"
proof -
  let ?F = "\<lambda>c. flux_of dtv h2 D rho (fst c) (snd c)"
  have h0: "\<And>c. c \<in> inner_cells \<Longrightarrow>
      hit (fst c) (snd c) a b = (if True then (if c = (a, b) then 1 else 0) else 0)"
    by (auto simp add: hit_def prod_eq_iff)
  have h1: "\<And>c. c \<in> inner_cells \<Longrightarrow>
      hit (fst c + 1) (snd c) a b = (if 1 \<le> a then (if c = (a - 1, b) then 1 else 0) else 0)"
    by (auto simp add: hit_def prod_eq_iff)
  have h2: "\<And>c. c \<in> inner_cells \<Longrightarrow>
      hit (fst c - 1) (snd c) a b = (if True then (if c = (a + 1, b) then 1 else 0) else 0)"
    by (auto simp add: hit_def prod_eq_iff inner_cells_def)
  have h3: "\<And>c. c \<in> inner_cells \<Longrightarrow>
      hit (fst c) (snd c + 1) a b = (if 1 \<le> b then (if c = (a, b - 1) then 1 else 0) else 0)"
    by (auto simp add: hit_def prod_eq_iff)
  have h4: "\<And>c. c \<in> inner_cells \<Longrightarrow>
      hit (fst c) (snd c - 1) a b = (if True then (if c = (a, b + 1) then 1 else 0) else 0)"
    by (auto simp add: hit_def prod_eq_iff inner_cells_def)
  have "deposits dtv h2 D rho a b
        = (\<Sum>c\<in>inner_cells. ?F c
             * (- 2 * (if True then (if c = (a, b) then 1 else 0) else 0)
                + 0.5 * (if 1 \<le> a then (if c = (a - 1, b) then 1 else 0) else 0)
                + 0.5 * (if True then (if c = (a + 1, b) then 1 else 0) else 0)
                + 0.5 * (if 1 \<le> b then (if c = (a, b - 1) then 1 else 0) else 0)
                + 0.5 * (if True then (if c = (a, b + 1) then 1 else 0) else 0)))"
    unfolding deposits_cells case_prod_beta contrib_def
    by (rule sum.cong[OF refl]) (simp only: h0 h1 h2 h3 h4)
  also have "\<dots> =
        (\<Sum>c\<in>inner_cells. ?F c * (- 2 * (if True then (if c = (a, b) then 1 else 0) else 0)))
      + (\<Sum>c\<in>inner_cells. ?F c * (0.5 * (if 1 \<le> a then (if c = (a - 1, b) then 1 else 0) else 0)))
      + (\<Sum>c\<in>inner_cells. ?F c * (0.5 * (if True then (if c = (a + 1, b) then 1 else 0) else 0)))
      + (\<Sum>c\<in>inner_cells. ?F c * (0.5 * (if 1 \<le> b then (if c = (a, b - 1) then 1 else 0) else 0)))
      + (\<Sum>c\<in>inner_cells. ?F c * (0.5 * (if True then (if c = (a, b + 1) then 1 else 0) else 0)))"
    by (simp only: distrib_left sum.distrib)
  finally show ?thesis
    by (simp only: sum_pick[OF cells_finite(1)] inner_cells_iff fst_conv snd_conv)
qed

lemma deposits_cell:
  "deposits dtv h2 D rho a b
   = - 2 * (if interior a b then flux_of dtv h2 D rho a b else 0)
     + 0.5 * (if 1 \<le> a \<and> interior (a - 1) b then flux_of dtv h2 D rho (a - 1) b else 0)
     + 0.5 * (if interior (a + 1) b then flux_of dtv h2 D rho (a + 1) b else 0)
     + 0.5 * (if 1 \<le> b \<and> interior a (b - 1) then flux_of dtv h2 D rho a (b - 1) else 0)
     + 0.5 * (if interior a (b + 1) then flux_of dtv h2 D rho a (b + 1) else 0)"
  by (simp only: deposits_gather simp_thms)

lemma interior_deep: "interior i j \<Longrightarrow> \<not> near_boundary i j \<Longrightarrow> deep i j"
  by (auto simp add: interior_def near_boundary_def deep_def MAX_GRID_S_def MAX_GRID_E_def)

lemma flux_of_inactive: "rho i j \<le> 0.00001 \<Longrightarrow> flux_of dtv h2 D rho i j = 0"
  by (simp add: flux_of_def)

lemma deposits_inactive:
  assumes "\<And>i j. rho i j \<le> 0.00001"
  shows "deposits dtv h2 D rho a b = 0"
  by (simp add: deposits_cell flux_of_inactive[OF assms])

lemma deposit_total_mass:
  assumes "interior i j"
  shows "total_mass (deposit dtv h2 D rho i j soln) = total_mass soln"
proof -
  have "total_mass (deposit dtv h2 D rho i j soln)
        = (\<Sum>c\<in>all_cells. soln (fst c) (snd c) + contrib dtv h2 D rho i j (fst c) (snd c))"
    by (simp add: total_mass_cells case_prod_beta deposit_contrib)
  also have "\<dots> = total_mass soln + (\<Sum>c\<in>all_cells. contrib dtv h2 D rho i j (fst c) (snd c))"
    by (simp add: sum.distrib total_mass_cells case_prod_beta)
  finally show ?thesis
    by (simp add: interior_source_total[OF assms])
qed

section \<open>The diffusion sub-step on the state\<close>

lemma diffuse_latent_stage_fields:
  "latent_field (diffuse_latent_stage dtv h2 n st) m
     = (if m = n then fst (diffuse_field dtv h2 (diffusion_grid st)
                              (latent_field st n, diffusion_soln_grid st))
        else latent_field st m)"
  "diffusion_soln_grid (diffuse_latent_stage dtv h2 n st)
     = snd (diffuse_field dtv h2 (diffusion_grid st) (latent_field st n, diffusion_soln_grid st))"
  "inf_midge_density (diffuse_latent_stage dtv h2 n st) = inf_midge_density st"
  "diffusion_grid (diffuse_latent_stage dtv h2 n st) = diffusion_grid st"
  by (simp_all add: diffuse_latent_stage_def latent_field_def case_prod_beta fun_eq_iff)

lemma diffuse_infectious_fields:
  "latent_field (diffuse_infectious dtv h2 st) m = latent_field st m"
  "diffusion_soln_grid (diffuse_infectious dtv h2 st)
     = snd (diffuse_field dtv h2 (diffusion_grid st) (inf_midge_density st, diffusion_soln_grid st))"
  "inf_midge_density (diffuse_infectious dtv h2 st)
     = fst (diffuse_field dtv h2 (diffusion_grid st) (inf_midge_density st, diffusion_soln_grid st))"
  "diffusion_grid (diffuse_infectious dtv h2 st) = diffusion_grid st"
  by (simp_all add: diffuse_infectious_def latent_field_def case_prod_beta)

lemma scratch_interior_after_pass:
  "interior a b \<Longrightarrow> snd (diffuse_field dtv h2 D (rho, soln)) a b = 0"
  by (simp add: diffuse_field_cells)

lemma midge_diffusion_step_scratch:
  "interior a b \<Longrightarrow> diffusion_soln_grid (midge_diffusion_step st sp e gp) a b = 0"
  by (simp add: midge_diffusion_step_def Let_def diffuse_infectious_fields
      scratch_interior_after_pass)

lemma latent_passes_mass:
  assumes quiet: "\<And>n i j. n \<in> set ns \<Longrightarrow> near_boundary i j \<Longrightarrow>
                    latent_field st n i j \<le> 0.00001"
  shows "distinct ns \<Longrightarrow> between_passes st s \<Longrightarrow>
         (\<And>n. n \<in> set ns \<Longrightarrow> latent_field s n = latent_field st n) \<Longrightarrow>
         between_passes st (fold (diffuse_latent_stage dtv h2) ns s)"
  using quiet
proof (induction ns arbitrary: s)
  case Nil
  then show ?case by simp
next
  case (Cons n ns)
  let ?s' = "diffuse_latent_stage dtv h2 n s"
  have same: "latent_field s n = latent_field st n" using Cons.prems(3) by simp
  have zero: "\<And>a b. interior a b \<Longrightarrow> diffusion_soln_grid s a b = 0"
    using Cons.prems(2) by (simp add: between_passes_def)
  have q: "\<And>i j. interior i j \<Longrightarrow>
      deep i j \<or> flux_of dtv h2 (diffusion_grid s) (latent_field s n) i j = 0"
  proof -
    fix i j assume int: "interior i j"
    show "deep i j \<or> flux_of dtv h2 (diffusion_grid s) (latent_field s n) i j = 0"
    proof (cases "near_boundary i j")
      case True
      then have "latent_field s n i j \<le> 0.00001" using Cons.prems(4)[of n i j] same by simp
      then show ?thesis by (simp add: flux_of_inactive)
    next
      case False
      with int show ?thesis by (simp add: interior_deep)
    qed
  qed
  have mass: "total_mass (latent_field ?s' n) = total_mass (latent_field st n)"
    using diffuse_field_mass[of "diffusion_soln_grid s" dtv h2 "diffusion_grid s" "latent_field s n",
        OF zero q]
    by (simp add: diffuse_latent_stage_fields same)
  have bp: "between_passes st ?s'"
    using Cons.prems(2) mass
    by (simp add: between_passes_def diffuse_latent_stage_fields scratch_interior_after_pass)
  have rest: "\<And>m. m \<in> set ns \<Longrightarrow> latent_field ?s' m = latent_field st m"
    using Cons.prems(1,3) by (auto simp add: diffuse_latent_stage_fields)
  have "between_passes st (fold (diffuse_latent_stage dtv h2) ns ?s')"
    using Cons.prems(1) Cons.prems(4)
    by (intro Cons.IH[OF _ bp rest]) simp_all
  then show ?case by simp
qed

lemma midge_diffusion_step_mass:
  assumes zero: "\<forall>a b. interior a b \<longrightarrow> diffusion_soln_grid st a b = 0"
    and quiet: "\<forall>i j. near_boundary i j \<longrightarrow>
                  inf_midge_density st i j \<le> 0.00001
                  \<and> (\<forall>n<num_eip_stages e. latent_midge_density st i j n \<le> 0.00001)"
  shows "total_mass (inf_midge_density (midge_diffusion_step st sp e gp))
           = total_mass (inf_midge_density st)"
    and "total_mass (latent_field (midge_diffusion_step st sp e gp) n)
           = total_mass (latent_field st n)"
proof -
  let ?dt = "dt sp" and ?h2 = "midge_grid_width gp * midge_grid_width gp"
  let ?s1 = "fold (diffuse_latent_stage ?dt ?h2) [0..<num_eip_stages e] st"
  have start: "between_passes st st" using zero by (simp add: between_passes_def)
  have bp: "between_passes st ?s1"
    by (rule latent_passes_mass[OF _ _ start])
       (use quiet in \<open>simp_all add: latent_field_def\<close>)
  have out: "midge_diffusion_step st sp e gp = diffuse_infectious ?dt ?h2 ?s1"
    by (simp add: midge_diffusion_step_def Let_def)
  have q: "\<And>i j. interior i j \<Longrightarrow>
      deep i j \<or> flux_of ?dt ?h2 (diffusion_grid ?s1) (inf_midge_density ?s1) i j = 0"
  proof -
    fix i j assume int: "interior i j"
    show "deep i j \<or> flux_of ?dt ?h2 (diffusion_grid ?s1) (inf_midge_density ?s1) i j = 0"
    proof (cases "near_boundary i j")
      case True
      then have "inf_midge_density ?s1 i j \<le> 0.00001"
        using quiet bp by (simp add: between_passes_def)
      then show ?thesis by (simp add: flux_of_inactive)
    next
      case False
      with int show ?thesis by (simp add: interior_deep)
    qed
  qed
  have z1: "\<And>a b. interior a b \<Longrightarrow> diffusion_soln_grid ?s1 a b = 0"
    using bp by (simp add: between_passes_def)
  show "total_mass (inf_midge_density (midge_diffusion_step st sp e gp))
           = total_mass (inf_midge_density st)"
    using diffuse_field_mass[of "diffusion_soln_grid ?s1" ?dt ?h2 "diffusion_grid ?s1"
        "inf_midge_density ?s1", OF z1 q] bp
    by (simp add: out diffuse_infectious_fields between_passes_def)
  show "total_mass (latent_field (midge_diffusion_step st sp e gp) n)
           = total_mass (latent_field st n)"
    using bp by (simp add: out diffuse_infectious_fields between_passes_def)
qed

lemma interior_simps:
  "interior 1 1" "\<not> interior 0 b" "\<not> interior a 0" "interior 5 5" "interior 2 1" "interior 1 2"
  by (simp_all add: interior_def MAX_GRID_S_def MAX_GRID_E_def)

lemma state_source_latent_pass:
  "diffusion_soln_grid (diffuse_latent_stage dtv h2 n state_source) = (\<lambda>_ _. 0)"
  "inf_midge_density (diffuse_latent_stage dtv h2 n state_source) = inf_midge_density state_source"
  "diffusion_grid (diffuse_latent_stage dtv h2 n state_source) = diffusion_grid state_source"
proof -
  have "\<And>i j. latent_field state_source n i j \<le> 0.00001"
    by (simp add: latent_field_def state_source_def state0_def)
  then have "\<And>a b. deposits dtv h2 (diffusion_grid state_source) (latent_field state_source n) a b = 0"
    by (rule deposits_inactive)
  moreover have "\<And>a b. diffusion_soln_grid state_source a b = 0"
    by (simp add: state_source_def state0_def)
  ultimately show "diffusion_soln_grid (diffuse_latent_stage dtv h2 n state_source) = (\<lambda>_ _. 0)"
    by (simp add: diffuse_latent_stage_fields diffuse_field_cells fun_eq_iff)
qed (simp_all add: diffuse_latent_stage_fields)

lemma state_source_flux:
  "flux_of 1 1 (diffusion_grid state_source) (inf_midge_density state_source) i j
     = (if i = 1 \<and> j = 1 then 1 else 0)"
  by (simp add: flux_of_def state_source_def state0_def)

lemma state_source_deposit:
  "deposits 1 1 (diffusion_grid state_source) (inf_midge_density state_source) 0 1 = 1 / 2"
  by (simp add: deposits_cell state_source_flux interior_simps del: One_nat_def)

lemma state_source_step:
  "diffusion_soln_grid (midge_diffusion_step state_source (sim params0) epi0 (grids params0)) 0 1
     = 1 / 2"
proof -
  have "midge_diffusion_step state_source (sim params0) epi0 (grids params0)
        = diffuse_infectious 1 1 (diffuse_latent_stage 1 1 0 state_source)"
    by (simp add: midge_diffusion_step_def params0_def epi0_def Let_def)
  then show ?thesis
    by (simp add: diffuse_infectious_fields diffuse_field_cells state_source_latent_pass
        state_source_deposit interior_simps del: One_nat_def)
qed

lemma total_mass_point: "total_mass (\<lambda>a b. if a = 5 \<and> b = 5 then 1 else 0) = 1"
proof -
  have "total_mass (\<lambda>a b. if a = 5 \<and> b = 5 then 1 else 0)
        = (\<Sum>c\<in>all_cells. if c = (5, 5) then 1 else 0)"
    by (simp add: total_mass_cells case_prod_beta prod_eq_iff)
  also have "\<dots> = (if (5, 5) \<in> all_cells then 1 else 0)"
    by (simp add: sum.delta)
  finally show ?thesis
    by (simp add: all_cells_def MAX_GRID_S_def MAX_GRID_E_def)
qed

lemma total_mass_zero: "total_mass (\<lambda>_ _. 0) = 0"
  by (simp add: total_mass_def)

section \<open>Herd totals\<close>

lemma sum_stages_upd:
  "sum_stages (a(n := v)) N = sum_stages a N + (if n < N then v - a n else 0)"
  by (induction N) (auto simp add: less_Suc_eq)

lemma on_detection_hosts [simp]:
  "farm_hosts (farms (on_detection k c st) k') = farm_hosts (farms st k')"
  using on_detection_view[of "Hosts k'" c k st] by (simp add: view_def)

lemma on_detection_fields [simp]:
  "s_sheep (farms (on_detection k c st) k') = s_sheep (farms st k')"
  "i_sheep (farms (on_detection k c st) k') = i_sheep (farms st k')"
  "r_sheep (farms (on_detection k c st) k') = r_sheep (farms st k')"
  "s_cattle (farms (on_detection k c st) k') = s_cattle (farms st k')"
  "i_cattle (farms (on_detection k c st) k') = i_cattle (farms st k')"
  "r_cattle (farms (on_detection k c st) k') = r_cattle (farms st k')"
  using on_detection_hosts[of k c st k'] by (simp_all add: farm_hosts_def)

lemma on_detection_deaths [simp]:
  "num_sheep_deaths (on_detection k c st) = num_sheep_deaths st"
  using on_detection_view[of Deaths c k st] by (simp add: view_def)

lemma on_detection_ledger [simp]: "ledger e k0 (on_detection k c st) = ledger e k0 st"
  by (simp add: ledger_def num_cattle_def num_sheep_def num_inf_cattle_def num_inf_sheep_def
      cong: if_cong)

lemma ledger_cong:
  assumes "\<And>k'. view (Hosts k') st' = view (Hosts k') st"
    and "view Deaths st' = view Deaths st"
  shows "ledger e k st' = ledger e k st"
proof -
  have "\<And>k'. farm_hosts (farms st' k') = farm_hosts (farms st k')"
    using assms(1) by (simp add: view_def)
  then have f: "\<And>k'. s_sheep (farms st' k') = s_sheep (farms st k')"
    "\<And>k'. i_sheep (farms st' k') = i_sheep (farms st k')"
    "\<And>k'. r_sheep (farms st' k') = r_sheep (farms st k')"
    "\<And>k'. s_cattle (farms st' k') = s_cattle (farms st k')"
    "\<And>k'. i_cattle (farms st' k') = i_cattle (farms st k')"
    "\<And>k'. r_cattle (farms st' k') = r_cattle (farms st k')"
    by (simp_all add: farm_hosts_def)
  have "num_sheep_deaths st' = num_sheep_deaths st"
    using assms(2) by (simp add: view_def)
  then show ?thesis
    by (simp add: ledger_def num_cattle_def num_sheep_def num_inf_cattle_def num_inf_sheep_def f
        cong: if_cong)
qed

lemma fold_ledger:
  "(\<And>a s. a \<in> set as \<Longrightarrow> v (f a s) = v s) \<Longrightarrow> v s0 = c \<Longrightarrow> v (fold f as s0) = c"
  by (induction as arbitrary: s0) simp_all

lemma sheep_mortality_ledger:
  "n < num_inf_stages_sheep e \<Longrightarrow>
   ledger e k (fst (sheep_mortality k c dtf mort n sg)) = ledger e k (fst sg)"
  by (auto simp add: sheep_mortality_def Let_def case_prod_beta ledger_def upd_farm_def
      num_cattle_def num_sheep_def num_inf_cattle_def num_inf_sheep_def sum_stages_upd fun_eq_iff)

lemma sheep_last_stage_ledger:
  "1 \<le> num_inf_stages_sheep e \<Longrightarrow>
   ledger e k (fst (sheep_last_stage k e c dtf mort sg)) = ledger e k (fst sg)"
  by (simp add: sheep_last_stage_def Let_def case_prod_beta sheep_mortality_ledger)
     (auto simp add: ledger_def upd_farm_def
      num_cattle_def num_sheep_def num_inf_cattle_def num_inf_sheep_def sum_stages_upd fun_eq_iff)

lemma sheep_earlier_stage_ledger:
  "Suc n < num_inf_stages_sheep e \<Longrightarrow>
   ledger e k (fst (sheep_earlier_stage k e c dtf mort n sg)) = ledger e k (fst sg)"
  by (simp add: sheep_earlier_stage_def Let_def case_prod_beta sheep_mortality_ledger)
     (auto simp add: ledger_def upd_farm_def
      num_cattle_def num_sheep_def num_inf_cattle_def num_inf_sheep_def sum_stages_upd fun_eq_iff)

lemma sheep_substep_ledger:
  assumes "1 \<le> num_inf_stages_sheep e"
  shows "ledger e k (fst (sheep_substep k e c dtf mort sg)) = ledger e k (fst sg)"
proof -
  let ?Q = "\<lambda>s. ledger e k (fst s) = ledger e k (fst sg)"
  have "?Q (fold (sheep_earlier_stage k e c dtf mort) (rev [0..<num_inf_stages_sheep e - 1])
             (sheep_last_stage k e c dtf mort sg))"
  proof (rule fold_ledger)
    show "?Q (sheep_last_stage k e c dtf mort sg)"
      using assms by (rule sheep_last_stage_ledger)
    fix n s assume "n \<in> set (rev [0..<num_inf_stages_sheep e - 1])"
    then have "Suc n < num_inf_stages_sheep e" by auto
    then show "ledger e k (fst (sheep_earlier_stage k e c dtf mort n s)) = ledger e k (fst s)"
      by (rule sheep_earlier_stage_ledger)
  qed
  then show ?thesis by (simp add: sheep_substep_def)
qed

lemma cattle_last_stage_ledger:
  "1 \<le> num_inf_stages_cattle e \<Longrightarrow>
   ledger e k0 (fst (cattle_last_stage k e dtf sg)) = ledger e k0 (fst sg)"
  by (auto simp add: cattle_last_stage_def Let_def case_prod_beta ledger_def upd_farm_def
      num_cattle_def num_sheep_def num_inf_cattle_def num_inf_sheep_def sum_stages_upd fun_eq_iff)

lemma cattle_earlier_stage_ledger:
  "Suc n < num_inf_stages_cattle e \<Longrightarrow>
   ledger e k0 (fst (cattle_earlier_stage k e dtf n sg)) = ledger e k0 (fst sg)"
  by (auto simp add: cattle_earlier_stage_def Let_def case_prod_beta ledger_def upd_farm_def
      num_cattle_def num_sheep_def num_inf_cattle_def num_inf_sheep_def sum_stages_upd fun_eq_iff)

lemma cattle_substep_ledger:
  assumes "1 \<le> num_inf_stages_cattle e"
  shows "ledger e k0 (fst (cattle_substep k e dtf sg)) = ledger e k0 (fst sg)"
proof -
  let ?Q = "\<lambda>s. ledger e k0 (fst s) = ledger e k0 (fst sg)"
  have "?Q (fold (cattle_earlier_stage k e dtf) (rev [0..<num_inf_stages_cattle e - 1])
             (cattle_last_stage k e dtf sg))"
  proof (rule fold_ledger)
    show "?Q (cattle_last_stage k e dtf sg)"
      using assms by (rule cattle_last_stage_ledger)
    fix n s assume "n \<in> set (rev [0..<num_inf_stages_cattle e - 1])"
    then have "Suc n < num_inf_stages_cattle e" by auto
    then show "ledger e k0 (fst (cattle_earlier_stage k e dtf n s)) = ledger e k0 (fst s)"
      by (rule cattle_earlier_stage_ledger)
  qed
  then show ?thesis by (simp add: cattle_substep_def)
qed

lemma passive_detection_ledger:
  "ledger e' k0 (fst (passive_detection k e c sg)) = ledger e' k0 (fst sg)"
  by (simp add: passive_detection_def not_detect_def detect_test_def Let_def case_prod_beta rng_defs)

lemma farm_deaths_and_recoveries_ledger:
  "ledger e k (fst (farm_deaths_and_recoveries k e c sg)) = ledger e k (fst sg)"
proof -
  let ?sg1 = "if num_inf_sheep (farms (fst sg) k) (num_inf_stages_sheep e) > 0
              then sub_day_loop (sheep_substep k e c 0.1 0.0055) sg else sg"
  let ?sg2 = "if num_inf_cattle (farms (fst ?sg1) k) (num_inf_stages_cattle e) > 0
              then sub_day_loop (cattle_substep k e 0.1) ?sg1 else ?sg1"
  have l1: "ledger e k (fst ?sg1) = ledger e k (fst sg)"
  proof (cases "num_inf_sheep (farms (fst sg) k) (num_inf_stages_sheep e) > 0")
    case True
    then have "1 \<le> num_inf_stages_sheep e"
      by (cases "num_inf_stages_sheep e") (simp_all add: num_inf_sheep_def)
    then have "ledger e k (fst (sub_day_loop (sheep_substep k e c 0.1 0.0055) sg))
               = ledger e k (fst sg)"
      by (intro sub_day_loop_inv[where P = "\<lambda>s. ledger e k (fst s) = ledger e k (fst sg)"])
         (simp_all add: sheep_substep_ledger)
    with True show ?thesis by simp
  next
    case False
    then show ?thesis by simp
  qed
  have l2: "ledger e k (fst ?sg2) = ledger e k (fst ?sg1)"
  proof (cases "num_inf_cattle (farms (fst ?sg1) k) (num_inf_stages_cattle e) > 0")
    case True
    then have "1 \<le> num_inf_stages_cattle e"
      by (cases "num_inf_stages_cattle e") (simp_all add: num_inf_cattle_def)
    then have "ledger e k (fst (sub_day_loop (cattle_substep k e 0.1) ?sg1))
               = ledger e k (fst ?sg1)"
      by (intro sub_day_loop_inv[where P = "\<lambda>s. ledger e k (fst s) = ledger e k (fst ?sg1)"])
         (simp_all add: cattle_substep_ledger)
    with True show ?thesis by simp
  next
    case False
    then show ?thesis by simp
  qed
  have "farm_deaths_and_recoveries k e c sg = passive_detection k e c ?sg2"
    by (simp add: farm_deaths_and_recoveries_def Let_def)
  then show ?thesis
    by (simp only: passive_detection_ledger l2 l1)
qed

lemma farm_transmission_midges_to_hosts_ledger:
  "1 \<le> num_inf_stages_sheep e \<Longrightarrow> 1 \<le> num_inf_stages_cattle e \<Longrightarrow>
   ledger e k0 (fst (farm_transmission_midges_to_hosts k e sp sg)) = ledger e k0 (fst sg)"
  by (auto simp add: farm_transmission_midges_to_hosts_def Let_def case_prod_beta ledger_def
      upd_farm_def num_cattle_def num_sheep_def num_inf_cattle_def num_inf_sheep_def
      sum_stages_upd fun_eq_iff)

lemma farm_update_ledger:
  assumes run: "farm_update P k sg = Some sg'"
    and stages: "1 \<le> num_inf_stages_sheep (epi P)" "1 \<le> num_inf_stages_cattle (epi P)"
  shows "ledger (epi P) k (fst sg') = ledger (epi P) k (fst sg)"
proof -
  from run obtain sg1 where w: "farm_get_weather k (fst sg) (snd sg) = Some sg1"
    and out: "sg' = (farm_transmission_hosts_to_midges k (epi P)
                (fst (farm_transmission_midges_to_hosts k (epi P) (species P)
                   (farm_deaths_and_recoveries k (epi P) (ctrl P) sg1))),
              snd (farm_transmission_midges_to_hosts k (epi P) (species P)
                   (farm_deaths_and_recoveries k (epi P) (ctrl P) sg1)))"
    by (auto simp add: farm_update_def farm_hosts_phase_def bind_eq_Some_conv Let_def)
  have "ledger (epi P) k (fst sg1) = ledger (epi P) k (fst sg)"
    by (rule ledger_cong) (simp_all add: farm_get_weather_view[OF w])
  moreover have "\<And>s. ledger (epi P) k (farm_transmission_hosts_to_midges k (epi P) s)
                  = ledger (epi P) k s"
    by (rule ledger_cong) (simp_all add: farm_transmission_hosts_to_midges_view)
  ultimately show ?thesis
    by (simp add: out farm_transmission_midges_to_hosts_ledger[OF stages]
        farm_deaths_and_recoveries_ledger)
qed

section \<open>Shipments\<close>

lemma pick_stage_mem: "pick_stage a sel cum ns = Some n \<Longrightarrow> n \<in> set ns"
  by (induction ns arbitrary: cum) (auto split: if_splits)

lemma transfer_cattle:
  fixes st :: SimulationState
  assumes "n < N" "src < F" "dst < F"
  defines "s2 \<equiv> upd_farm dst (\<lambda>f. f\<lparr>i_cattle := (i_cattle f)(n := i_cattle f n + 1)\<rparr>)
                 (upd_farm src (\<lambda>f. f\<lparr>i_cattle := (i_cattle f)(n := i_cattle f n - 1)\<rparr>) st)"
  shows "(\<Sum>k<F. num_cattle (farms s2 k) N) = (\<Sum>k<F. num_cattle (farms st k) N)"
    and "num_sheep (farms s2 k) M = num_sheep (farms st k) M"
    and "num_farms s2 = num_farms st"
    and "k \<noteq> src \<Longrightarrow> k \<noteq> dst \<Longrightarrow> farms s2 k = farms st k"
proof -
  have pt: "\<And>k. num_cattle (farms s2 k) N
      = num_cattle (farms st k) N + ((if k = dst then 1 else 0) - (if k = src then 1 else 0))"
    using assms(1)
    by (auto simp add: s2_def upd_farm_def num_cattle_def num_inf_cattle_def sum_stages_upd)
  show "(\<Sum>k<F. num_cattle (farms s2 k) N) = (\<Sum>k<F. num_cattle (farms st k) N)"
    using assms(2,3) by (simp add: pt sum.distrib sum_subtractf)
  show "num_sheep (farms s2 k) M = num_sheep (farms st k) M"
    by (simp add: s2_def upd_farm_def num_sheep_def num_inf_sheep_def)
  show "num_farms s2 = num_farms st"
    by (simp add: s2_def upd_farm_def)
  show "k \<noteq> src \<Longrightarrow> k \<noteq> dst \<Longrightarrow> farms s2 k = farms st k"
    by (simp add: s2_def upd_farm_def)
qed

lemma transfer_sheep:
  fixes st :: SimulationState
  assumes "n < N" "src < F" "dst < F"
  defines "s2 \<equiv> upd_farm dst (\<lambda>f. f\<lparr>i_sheep := (i_sheep f)(n := i_sheep f n + 1)\<rparr>)
                 (upd_farm src (\<lambda>f. f\<lparr>i_sheep := (i_sheep f)(n := i_sheep f n - 1)\<rparr>) st)"
  shows "(\<Sum>k<F. num_sheep (farms s2 k) N) = (\<Sum>k<F. num_sheep (farms st k) N)"
    and "num_cattle (farms s2 k) M = num_cattle (farms st k) M"
    and "num_farms s2 = num_farms st"
    and "k \<noteq> src \<Longrightarrow> k \<noteq> dst \<Longrightarrow> farms s2 k = farms st k"
proof -
  have pt: "\<And>k. num_sheep (farms s2 k) N
      = num_sheep (farms st k) N + ((if k = dst then 1 else 0) - (if k = src then 1 else 0))"
    using assms(1)
    by (auto simp add: s2_def upd_farm_def num_sheep_def num_inf_sheep_def sum_stages_upd)
  show "(\<Sum>k<F. num_sheep (farms s2 k) N) = (\<Sum>k<F. num_sheep (farms st k) N)"
    using assms(2,3) by (simp add: pt sum.distrib sum_subtractf)
  show "num_cattle (farms s2 k) M = num_cattle (farms st k) M"
    by (simp add: s2_def upd_farm_def num_cattle_def num_inf_cattle_def)
  show "num_farms s2 = num_farms st"
    by (simp add: s2_def upd_farm_def)
  show "k \<noteq> src \<Longrightarrow> k \<noteq> dst \<Longrightarrow> farms s2 k = farms st k"
    by (simp add: s2_def upd_farm_def)
qed

lemma cattle_shipment_step_herds:
  assumes "src < num_farms (fst v)" "dst < num_farms (fst v)"
  shows "herds e (fst (cattle_shipment_step src dst e tot v)) = herds e (fst v)"
proof -
  obtain st g infc moved where v: "v = (st, g, infc, moved)" by (cases v) auto
  show ?thesis
  proof (cases "pick_stage (i_cattle (farms st src)) (fst (gsl_rng_uniform (snd (gsl_rng_uniform g))) * infc) 0
                  [0..<num_inf_stages_cattle e]")
    case None
    then show ?thesis
      by (simp add: v cattle_shipment_step_def Let_def case_prod_beta)
  next
    case (Some n)
    then have n: "n < num_inf_stages_cattle e"
      using pick_stage_mem by fastforce
    from assms have b: "src < num_farms st" "dst < num_farms st" by (simp_all add: v)
    show ?thesis
      using Some
      by (simp add: v cattle_shipment_step_def Let_def case_prod_beta herds_def
          cattle_on_farms_def sheep_on_farms_def transfer_cattle[OF n b])
  qed
qed

lemma sheep_shipment_step_herds:
  assumes "src < num_farms (fst v)" "dst < num_farms (fst v)"
  shows "herds e (fst (sheep_shipment_step src dst e tot v)) = herds e (fst v)"
proof -
  obtain st g infc moved where v: "v = (st, g, infc, moved)" by (cases v) auto
  show ?thesis
  proof (cases "pick_stage (i_sheep (farms st src)) (fst (gsl_rng_uniform (snd (gsl_rng_uniform g))) * infc) 0
                  [0..<num_inf_stages_sheep e]")
    case None
    then show ?thesis
      by (simp add: v sheep_shipment_step_def Let_def case_prod_beta)
  next
    case (Some n)
    then have n: "n < num_inf_stages_sheep e"
      using pick_stage_mem by fastforce
    from assms have b: "src < num_farms st" "dst < num_farms st" by (simp_all add: v)
    show ?thesis
      using Some
      by (simp add: v sheep_shipment_step_def Let_def case_prod_beta herds_def
          cattle_on_farms_def sheep_on_farms_def transfer_sheep[OF n b])
  qed
qed

lemma shipment_step_others:
  assumes "k \<noteq> src" "k \<noteq> dst"
  shows "farms (fst (cattle_shipment_step src dst e tot v)) k = farms (fst v) k"
    and "farms (fst (sheep_shipment_step src dst e tot v)) k = farms (fst v) k"
  using assms
  by (simp_all add: cattle_shipment_step_def sheep_shipment_step_def Let_def case_prod_beta
      upd_farm_def split: option.splits)

lemma shipment_herds:
  assumes "src < num_farms (fst sg)" "dst < num_farms (fst sg)"
  shows "herds e (fst (cattle_shipment src dst e m sg)) = herds e (fst sg)"
    and "herds e (fst (sheep_shipment src dst e m sg)) = herds e (fst sg)"
proof -
  let ?Q = "\<lambda>v::SimulationState \<times> gsl_rng \<times> real \<times> int. herds e (fst v) = herds e (fst sg)"
  have c: "\<And>tot v. ?Q v \<Longrightarrow> ?Q (cattle_shipment_step src dst e tot v)"
    using assms by (subst cattle_shipment_step_herds) (simp_all add: herds_def)
  have s: "\<And>tot v. ?Q v \<Longrightarrow> ?Q (sheep_shipment_step src dst e tot v)"
    using assms by (subst sheep_shipment_step_herds) (simp_all add: herds_def)
  show "herds e (fst (cattle_shipment src dst e m sg)) = herds e (fst sg)"
    unfolding cattle_shipment_def Let_def case_prod_beta
    by (rule funpow_inv[where P = ?Q]) (simp_all add: c)
  show "herds e (fst (sheep_shipment src dst e m sg)) = herds e (fst sg)"
    unfolding sheep_shipment_def Let_def case_prod_beta
    by (rule funpow_inv[where P = ?Q]) (simp_all add: s)
qed

lemma shipment_others:
  assumes "k \<noteq> src" "k \<noteq> dst"
  shows "farms (fst (cattle_shipment src dst e m sg)) k = farms (fst sg) k"
    and "farms (fst (sheep_shipment src dst e m sg)) k = farms (fst sg) k"
proof -
  let ?Q = "\<lambda>v::SimulationState \<times> gsl_rng \<times> real \<times> int. farms (fst v) k = farms (fst sg) k"
  show "farms (fst (cattle_shipment src dst e m sg)) k = farms (fst sg) k"
    unfolding cattle_shipment_def Let_def case_prod_beta
    by (rule funpow_inv[where P = ?Q]) (simp_all add: shipment_step_others[OF assms])
  show "farms (fst (sheep_shipment src dst e m sg)) k = farms (fst sg) k"
    unfolding sheep_shipment_def Let_def case_prod_beta
    by (rule funpow_inv[where P = ?Q]) (simp_all add: shipment_step_others[OF assms])
qed

lemma herds_update [simp]:
  "herds e (interrupted_movements_update u1 st) = herds e st"
  "herds e (num_risky_moves_blocked_update u2 st) = herds e st"
  "herds e (num_movement_transmissions_update u3 st) = herds e st"
  by (simp_all add: herds_def cattle_on_farms_def sheep_on_farms_def)

lemma transmission_via_movement_herds:
  assumes "src < num_farms st" "dst < num_farms st"
  shows "herds e (fst (transmission_via_movement st src dst risk e m c g)) = herds e st"
  using assms
  by (simp add: transmission_via_movement_def Let_def case_prod_beta shipment_herds)

lemma transmission_via_movement_others:
  assumes "k \<noteq> src" "k \<noteq> dst"
  shows "farms (fst (transmission_via_movement st src dst risk e m c g)) k = farms st k"
  using assms
  by (simp add: transmission_via_movement_def Let_def case_prod_beta shipment_others)

lemma fold_inv_mem:
  "(\<And>a s. a \<in> set as \<Longrightarrow> Q s \<Longrightarrow> Q (f a s)) \<Longrightarrow> Q s \<Longrightarrow> Q (fold f as s)"
  by (induction as arbitrary: s) simp_all

lemma movement_transmission_herds:
  assumes links: "links_on_farms st"
  shows "herds e (fst (movement_transmission st e m c g)) = herds e st"
proof -
  let ?Q = "\<lambda>sg::SimulationState \<times> gsl_rng.
              herds e (fst sg) = herds e st \<and> view Layout (fst sg) = view Layout st"
  have "?Q (movement_transmission st e m c g)"
    unfolding movement_transmission_def
  proof (rule fold_inv_mem[where Q = ?Q])
    show "?Q (st, g)" by simp
    fix l and sg :: "SimulationState \<times> gsl_rng"
    assume l: "l \<in> set [0..<num_movement_links st]" and q: "?Q sg"
    from q have lay: "movement_from (fst sg) l = movement_from st l"
      "movement_to (fst sg) l = movement_to st l" "num_farms (fst sg) = num_farms st"
      by (simp_all add: view_def layout_def)
    from links l have "movement_from st l < num_farms st" "movement_to st l < num_farms st"
      by (simp_all add: links_on_farms_def)
    with lay q show "?Q (transmission_via_movement (fst sg) (movement_from (fst sg) l)
              (movement_to (fst sg) l) (movement_risk (fst sg) l) e m c (snd sg))"
      by (simp add: transmission_via_movement_herds transmission_via_movement_view)
  qed
  then show ?thesis by simp
qed

lemma movement_transmission_others:
  assumes off: "off_the_links st k"
  shows "farms (fst (movement_transmission st e m c g)) k = farms st k"
proof -
  let ?Q = "\<lambda>sg::SimulationState \<times> gsl_rng.
              farms (fst sg) k = farms st k \<and> view Layout (fst sg) = view Layout st"
  have "?Q (movement_transmission st e m c g)"
    unfolding movement_transmission_def
  proof (rule fold_inv_mem[where Q = ?Q])
    show "?Q (st, g)" by simp
    fix l and sg :: "SimulationState \<times> gsl_rng"
    assume l: "l \<in> set [0..<num_movement_links st]" and q: "?Q sg"
    from q have lay: "movement_from (fst sg) l = movement_from st l"
      "movement_to (fst sg) l = movement_to st l"
      by (simp_all add: view_def layout_def)
    from off l have "k \<noteq> movement_from st l" "k \<noteq> movement_to st l"
      by (auto simp add: off_the_links_def)
    with lay q show "?Q (transmission_via_movement (fst sg) (movement_from (fst sg) l)
              (movement_to (fst sg) l) (movement_risk (fst sg) l) e m c (snd sg))"
      by (simp add: transmission_via_movement_others transmission_via_movement_view)
  qed
  then show ?thesis by simp
qed

section \<open>The herds over one day\<close>

lemma ledger_sums:
  assumes led: "ledger e k s' = ledger e k s"
    and nf: "num_farms s' = num_farms s"
    and k: "k < num_farms s"
  shows "cattle_on_farms e s' = cattle_on_farms e s"
    and "sheep_on_farms e s' + real_of_int (num_sheep_deaths s')
         = sheep_on_farms e s + real_of_int (num_sheep_deaths s)"
    and "num_cattle (farms s' k') (num_inf_stages_cattle e)
         = num_cattle (farms s k') (num_inf_stages_cattle e)"
proof -
  from led have c: "\<And>k'. num_cattle (farms s' k') (num_inf_stages_cattle e)
                        = num_cattle (farms s k') (num_inf_stages_cattle e)"
    and sh: "\<And>k'. num_sheep (farms s' k') (num_inf_stages_sheep e)
                    + (if k' = k then real_of_int (num_sheep_deaths s') else 0)
                  = num_sheep (farms s k') (num_inf_stages_sheep e)
                    + (if k' = k then real_of_int (num_sheep_deaths s) else 0)"
    by (simp_all add: ledger_def fun_eq_iff)
  show "cattle_on_farms e s' = cattle_on_farms e s"
    by (simp add: cattle_on_farms_def nf c)
  show "num_cattle (farms s' k') (num_inf_stages_cattle e)
         = num_cattle (farms s k') (num_inf_stages_cattle e)"
    by (rule c)
  have "(\<Sum>k'<num_farms s. num_sheep (farms s' k') (num_inf_stages_sheep e)
                    + (if k' = k then real_of_int (num_sheep_deaths s') else 0))
        = (\<Sum>k'<num_farms s. num_sheep (farms s k') (num_inf_stages_sheep e)
                    + (if k' = k then real_of_int (num_sheep_deaths s) else 0))"
    by (rule sum.cong[OF refl]) (rule sh)
  then show "sheep_on_farms e s' + real_of_int (num_sheep_deaths s')
         = sheep_on_farms e s + real_of_int (num_sheep_deaths s)"
    using k by (simp add: sheep_on_farms_def nf sum.distrib)
qed

lemma herds_cong:
  assumes "\<And>k. view (Hosts k) s' = view (Hosts k) s" and "view Layout s' = view Layout s"
  shows "herds e s' = herds e s"
    and "links_on_farms s' = links_on_farms s"
    and "off_the_links s' k = off_the_links s k"
    and "num_cattle (farms s' k) N = num_cattle (farms s k) N"
proof -
  have "\<And>k. farm_hosts (farms s' k) = farm_hosts (farms s k)"
    using assms(1) by (simp add: view_def)
  then have f: "\<And>k. s_sheep (farms s' k) = s_sheep (farms s k)"
    "\<And>k. i_sheep (farms s' k) = i_sheep (farms s k)"
    "\<And>k. r_sheep (farms s' k) = r_sheep (farms s k)"
    "\<And>k. s_cattle (farms s' k) = s_cattle (farms s k)"
    "\<And>k. i_cattle (farms s' k) = i_cattle (farms s k)"
    "\<And>k. r_cattle (farms s' k) = r_cattle (farms s k)"
    by (simp_all add: farm_hosts_def)
  have l: "num_farms s' = num_farms s" "num_movement_links s' = num_movement_links s"
    "movement_from s' = movement_from s" "movement_to s' = movement_to s"
    using assms(2) by (simp_all add: view_def layout_def)
  show "herds e s' = herds e s"
    by (simp add: herds_def cattle_on_farms_def sheep_on_farms_def num_cattle_def num_sheep_def
        num_inf_cattle_def num_inf_sheep_def f l)
  show "links_on_farms s' = links_on_farms s"
    by (simp add: links_on_farms_def l)
  show "off_the_links s' k = off_the_links s k"
    by (simp add: off_the_links_def l)
  show "num_cattle (farms s' k) N = num_cattle (farms s k) N"
    by (simp add: num_cattle_def num_inf_cattle_def f)
qed

lemma fold_option_inv_mem:
  assumes "fold_option f as s = Some s'"
    and step: "\<And>a s s'. a \<in> set as \<Longrightarrow> f a s = Some s' \<Longrightarrow> Q s \<Longrightarrow> Q s'"
    and "Q s"
  shows "Q s'"
  using assms
proof (induction as arbitrary: s)
  case Nil
  then show ?case by simp
next
  case (Cons a as)
  from Cons.prems(1) obtain s1 where s1: "f a s = Some s1" and rest: "fold_option f as s1 = Some s'"
    by (auto simp: bind_eq_Some_conv)
  have "Q s1" using Cons.prems(2)[OF _ s1 Cons.prems(3)] by simp
  moreover have "\<And>b t t'. b \<in> set as \<Longrightarrow> f b t = Some t' \<Longrightarrow> Q t \<Longrightarrow> Q t'"
    using Cons.prems(2) by (meson list.set_intros(2))
  ultimately show ?case using Cons.IH[OF rest] by blast
qed

lemma farm_update_books:
  assumes run: "farm_update P k sg = Some sg'"
    and stages: "1 \<le> num_inf_stages_sheep (epi P)" "1 \<le> num_inf_stages_cattle (epi P)"
    and k: "k < num_farms (fst sg)"
  shows "books (epi P) (fst sg') = books (epi P) (fst sg)"
proof -
  have "view Layout (fst sg') = view Layout (fst sg)"
    using run by (rule farm_update_view) simp_all
  then have nf: "num_farms (fst sg') = num_farms (fst sg)"
    by (simp add: view_def layout_def)
  note led = farm_update_ledger[OF run stages]
  show ?thesis
    by (simp add: books_def nf ledger_sums[OF led nf k] fun_eq_iff)
qed

lemma simulate_day_herds:
  assumes run: "simulate_day P sg = Some sg'"
    and stages: "1 \<le> num_inf_stages_sheep (epi P)" "1 \<le> num_inf_stages_cattle (epi P)"
    and links: "links_on_farms (fst sg)"
  shows "cattle_on_farms (epi P) (fst sg') = cattle_on_farms (epi P) (fst sg)"
    and "sheep_on_farms (epi P) (fst sg') + real_of_int (num_sheep_deaths (fst sg'))
         = sheep_on_farms (epi P) (fst sg)"
    and "num_farms (fst sg') = num_farms (fst sg)"
    and "off_the_links (fst sg) k \<Longrightarrow>
         num_cattle (farms (fst sg') k) (num_inf_stages_cattle (epi P))
         = num_cattle (farms (fst sg) k) (num_inf_stages_cattle (epi P))"
proof -
  let ?e = "epi P"
  let ?s1 = "apply_control_measures (reset_daily_counters (fst sg)) (epi P) (ctrl P)"
  from run obtain s2 s3 sg5 where
    s2: "midge_mortality_and_incubation ?s1 (epi P) (grids P) (species P) = Some s2"
    and s3: "midge_diffusion_for_day s2 (sim P) (epi P) (grids P) = Some s3"
    and s5: "fold_option (farm_update P)
               [0..<num_farms (fst (movement_transmission s3 (epi P) (mov P) (ctrl P) (snd sg)))]
               (movement_transmission s3 (epi P) (mov P) (ctrl P) (snd sg)) = Some sg5"
    and out: "sg' = (advance_time (fst sg5), snd sg5)"
    by (auto simp add: simulate_day_def Let_def bind_eq_Some_conv)
  let ?sg4 = "movement_transmission s3 (epi P) (mov P) (ctrl P) (snd sg)"
  have v3: "\<And>ob. ob \<noteq> Midges \<Longrightarrow> ob \<noteq> Deaths \<Longrightarrow> \<not> is_flags ob \<Longrightarrow>
              view ob s3 = view ob (fst sg)"
    by (simp add: midge_diffusion_for_day_view[OF s3] midge_mortality_and_incubation_view[OF s2]
        apply_control_measures_view reset_daily_counters_view)
  have d3: "num_sheep_deaths s3 = 0"
  proof -
    have "view Deaths s3 = view Deaths (reset_daily_counters (fst sg))"
      by (simp add: midge_diffusion_for_day_view[OF s3] midge_mortality_and_incubation_view[OF s2]
          apply_control_measures_view)
    then show ?thesis by (simp add: view_def reset_daily_counters_def)
  qed
  have h3: "herds ?e s3 = herds ?e (fst sg)" and l3: "links_on_farms s3"
    and o3: "off_the_links s3 k = off_the_links (fst sg) k"
    and c3: "num_cattle (farms s3 k) (num_inf_stages_cattle ?e)
             = num_cattle (farms (fst sg) k) (num_inf_stages_cattle ?e)"
    using links by (simp_all add: herds_cong[where s' = s3 and s = "fst sg"] v3)
  have h4: "herds ?e (fst ?sg4) = herds ?e (fst sg)"
    by (simp add: movement_transmission_herds[OF l3] h3)
  have d4: "num_sheep_deaths (fst ?sg4) = 0"
    using movement_transmission_view[of Deaths s3 "epi P" "mov P" "ctrl P" "snd sg"] d3
    by (simp add: view_def)
  have b5: "books ?e (fst sg5) = books ?e (fst ?sg4)"
    using s5
  proof (rule fold_option_inv_mem[where Q = "\<lambda>s. books ?e (fst s) = books ?e (fst ?sg4)"])
    show "books ?e (fst ?sg4) = books ?e (fst ?sg4)" by simp
    fix a and s s' :: "SimulationState \<times> gsl_rng"
    assume a: "a \<in> set [0..<num_farms (fst ?sg4)]" and upd: "farm_update P a s = Some s'"
      and q: "books ?e (fst s) = books ?e (fst ?sg4)"
    from q have "num_farms (fst s) = num_farms (fst ?sg4)" by (simp add: books_def)
    with a have "a < num_farms (fst s)" by simp
    from farm_update_books[OF upd stages this] q
    show "books ?e (fst s') = books ?e (fst ?sg4)" by simp
  qed
  have adv: "\<And>s. books ?e (advance_time s) = books ?e s"
    by (simp add: books_def advance_time_def Let_def cattle_on_farms_def sheep_on_farms_def)
  have b: "books ?e (fst sg') = books ?e (fst ?sg4)"
    by (simp add: out adv b5)
  show "cattle_on_farms (epi P) (fst sg') = cattle_on_farms (epi P) (fst sg)"
    using b h4 by (simp add: books_def herds_def)
  show "sheep_on_farms (epi P) (fst sg') + real_of_int (num_sheep_deaths (fst sg'))
         = sheep_on_farms (epi P) (fst sg)"
    using b h4 d4 by (simp add: books_def herds_def)
  show "num_farms (fst sg') = num_farms (fst sg)"
    using b h4 by (simp add: books_def herds_def)
  show "num_cattle (farms (fst sg') k) (num_inf_stages_cattle (epi P))
         = num_cattle (farms (fst sg) k) (num_inf_stages_cattle (epi P))"
    if "off_the_links (fst sg) k"
  proof -
    from that o3 have "off_the_links s3 k" by simp
    then have "farms (fst ?sg4) k = farms s3 k"
      by (rule movement_transmission_others)
    moreover from b have "num_cattle (farms (fst sg') k) (num_inf_stages_cattle ?e)
        = num_cattle (farms (fst ?sg4) k) (num_inf_stages_cattle ?e)"
      by (simp add: books_def fun_eq_iff)
    ultimately show ?thesis by (simp add: c3)
  qed
qed

lemma simulate_day_links:
  assumes "simulate_day P sg = Some sg'"
  shows "links_on_farms (fst sg') = links_on_farms (fst sg)"
    and "off_the_links (fst sg') k = off_the_links (fst sg) k"
    and "num_farms (fst sg') = num_farms (fst sg)"
proof -
  let ?s1 = "apply_control_measures (reset_daily_counters (fst sg)) (epi P) (ctrl P)"
  from assms obtain s2 s3 sg5 where
    s2: "midge_mortality_and_incubation ?s1 (epi P) (grids P) (species P) = Some s2"
    and s3: "midge_diffusion_for_day s2 (sim P) (epi P) (grids P) = Some s3"
    and s5: "fold_option (farm_update P)
               [0..<num_farms (fst (movement_transmission s3 (epi P) (mov P) (ctrl P) (snd sg)))]
               (movement_transmission s3 (epi P) (mov P) (ctrl P) (snd sg)) = Some sg5"
    and out: "sg' = (advance_time (fst sg5), snd sg5)"
    by (auto simp add: simulate_day_def Let_def bind_eq_Some_conv)
  have v4: "view Layout (fst (movement_transmission s3 (epi P) (mov P) (ctrl P) (snd sg)))
            = view Layout (fst sg)"
    by (simp add: movement_transmission_view midge_diffusion_for_day_view[OF s3]
        midge_mortality_and_incubation_view[OF s2] apply_control_measures_view
        reset_daily_counters_view)
  have v5: "view Layout (fst sg5) = view Layout (fst sg)"
    by (rule fold_option_inv[OF s5, where Q = "\<lambda>s. view Layout (fst s) = view Layout (fst sg)"])
       (simp_all add: farm_update_view v4)
  then have l: "num_farms (fst sg') = num_farms (fst sg)"
    "num_movement_links (fst sg') = num_movement_links (fst sg)"
    "movement_from (fst sg') = movement_from (fst sg)"
    "movement_to (fst sg') = movement_to (fst sg)"
    by (simp_all add: view_def layout_def out advance_time_def Let_def)
  show "links_on_farms (fst sg') = links_on_farms (fst sg)"
    by (simp add: links_on_farms_def l)
  show "off_the_links (fst sg') k = off_the_links (fst sg) k"
    by (simp add: off_the_links_def l)
  show "num_farms (fst sg') = num_farms (fst sg)"
    by (rule l)
qed

lemma simulate_days_cattle:
  assumes stages: "1 \<le> num_inf_stages_sheep (epi P)" "1 \<le> num_inf_stages_cattle (epi P)"
  shows "simulate_days P n sg = Some sg' \<Longrightarrow> links_on_farms (fst sg) \<Longrightarrow>
         cattle_on_farms (epi P) (fst sg') = cattle_on_farms (epi P) (fst sg)
         \<and> (off_the_links (fst sg) k \<longrightarrow>
              num_cattle (farms (fst sg') k) (num_inf_stages_cattle (epi P))
              = num_cattle (farms (fst sg) k) (num_inf_stages_cattle (epi P)))"
proof (induction n arbitrary: sg)
  case 0
  then show ?case by simp
next
  case (Suc n)
  from Suc.prems(1) obtain sg1 where sg1: "simulate_day P sg = Some sg1"
    and rest: "simulate_days P n sg1 = Some sg'"
    by (auto simp: bind_eq_Some_conv)
  have l1: "links_on_farms (fst sg1)"
    using simulate_day_links(1)[OF sg1] Suc.prems(2) by simp
  from Suc.IH[OF rest l1] simulate_day_herds(1)[OF sg1 stages Suc.prems(2)]
    simulate_day_herds(4)[OF sg1 stages Suc.prems(2), of k] simulate_day_links(2)[OF sg1, of k]
  show ?case by simp
qed

section \<open>Days on which the midge grids do not change\<close>

lemma fold_fixed: "(\<And>a. f a s = s) \<Longrightarrow> fold f as s = s"
  by (induction as) simp_all

lemma apply_mortality_one: "apply_mortality i j N 1 st = st"
proof -
  have "st\<lparr>inf_midge_density := gset i j (inf_midge_density st i j * 1) (inf_midge_density st)\<rparr>
        = st"
    by (simp add: gset_def)
  moreover have "\<And>n. st\<lparr>latent_midge_density :=
                         set_latent i j n (latent_midge_density st i j n * 1)
                           (latent_midge_density st)\<rparr> = st"
    by (simp add: set_latent_def)
  ultimately show ?thesis
    by (simp add: apply_mortality_def Let_def fold_fixed)
qed

lemma still_cell:
  assumes "mortality_rate sp = (\<lambda>_. 0)" "incubation_rate sp = (\<lambda>_. 0)"
    and "simulation_day st < 365"
  shows "mortality_incubation_cell e sp i j st = Some st"
  using assms
  by (simp add: mortality_incubation_cell_def weather_defs Let_def apply_mortality_one)

lemma still_mortality:
  assumes sp: "mortality_rate sp = (\<lambda>_. 0)" "incubation_rate sp = (\<lambda>_. 0)"
    and day: "simulation_day st < 365"
    and R: "1 \<le> c_int (midge_grid_width gp / temp_grid_width gp)"
  shows "midge_mortality_and_incubation st e gp sp = Some st"
proof -
  let ?R = "c_int (midge_grid_width gp / temp_grid_width gp)"
  let ?Q = "\<lambda>s. s = st"
  have cell: "\<And>i j s. ?Q s \<Longrightarrow> \<exists>s'. mortality_incubation_cell e sp i j s = Some s' \<and> ?Q s'"
    by (simp add: still_cell[OF sp day])
  have row: "\<And>i s. ?Q s \<Longrightarrow>
      \<exists>s'. strided_loop ?R MAX_GRID_E (mortality_incubation_cell e sp i) 0 s = Some s' \<and> ?Q s'"
    by (rule strided_loop_total[OF R, where Q = ?Q]) (simp_all add: cell)
  have "\<exists>s'. strided_loop ?R MAX_GRID_S
          (\<lambda>i. strided_loop ?R MAX_GRID_E (mortality_incubation_cell e sp i) 0) 0 st = Some s'
        \<and> ?Q s'"
    by (rule strided_loop_total[OF R, where Q = ?Q]) (simp_all add: row)
  then show ?thesis
    by (auto simp add: midge_mortality_and_incubation_def Let_def)
qed

lemma idle_diffuse_field:
  assumes "\<And>a b. rho a b \<le> 0.00001" and "\<And>a b. interior a b \<Longrightarrow> soln a b = 0"
  shows "diffuse_field dtv h2 D (rho, soln) = (rho, soln)"
proof -
  have "fst (diffuse_field dtv h2 D (rho, soln)) = rho"
    by (simp add: fun_eq_iff diffuse_field_cells deposits_inactive[of rho, OF assms(1)] assms(2))
  moreover have "snd (diffuse_field dtv h2 D (rho, soln)) = soln"
    by (simp add: fun_eq_iff diffuse_field_cells deposits_inactive[of rho, OF assms(1)] assms(2))
  ultimately show ?thesis by (simp add: prod_eq_iff)
qed

lemma idle_diffusion_step:
  assumes "\<And>a b n. latent_midge_density st a b n \<le> 0.00001"
    and "\<And>a b. inf_midge_density st a b \<le> 0.00001"
    and "\<And>a b. interior a b \<Longrightarrow> diffusion_soln_grid st a b = 0"
  shows "midge_diffusion_step st sp e gp = st"
proof -
  have "\<And>dtv h2 n. diffuse_field dtv h2 (diffusion_grid st)
                          (latent_field st n, diffusion_soln_grid st)
                        = (latent_field st n, diffusion_soln_grid st)"
    using assms by (intro idle_diffuse_field) (simp_all add: latent_field_def)
  then have lat: "\<And>dtv h2 n. diffuse_latent_stage dtv h2 n st = st"
    by (simp add: diffuse_latent_stage_def latent_field_def)
  have "\<And>dtv h2. diffuse_field dtv h2 (diffusion_grid st)
                          (inf_midge_density st, diffusion_soln_grid st)
                        = (inf_midge_density st, diffusion_soln_grid st)"
    using assms by (intro idle_diffuse_field) simp_all
  then have inf: "\<And>dtv h2. diffuse_infectious dtv h2 st = st"
    by (simp add: diffuse_infectious_def)
  show ?thesis
    by (simp add: midge_diffusion_step_def Let_def fold_fixed lat inf)
qed

lemma idle_diffusion_day:
  assumes "\<And>a b n. latent_midge_density st a b n \<le> 0.00001"
    and "\<And>a b. inf_midge_density st a b \<le> 0.00001"
    and "\<And>a b. interior a b \<Longrightarrow> diffusion_soln_grid st a b = 0"
    and dt: "substeps_end (dt sp)"
  shows "midge_diffusion_for_day st sp e gp = Some st"
proof -
  from dt obtain N where N: "\<not> ((\<lambda>x. fl_add x (dt sp)) ^^ N) 0 < 1"
    unfolding substeps_end_def by blast
  have "\<exists>s'. diffusion_loop (\<lambda>s. midge_diffusion_step s sp e gp) (dt sp) 0 st = Some s'
             \<and> s' = st"
    by (rule diffusion_loop_total[where Q = "\<lambda>s. s = st", OF _ N])
       (simp_all add: idle_diffusion_step[OF assms(1-3)])
  then show ?thesis by (simp add: midge_diffusion_for_day_def)
qed

text \<open>A day on which neither the midge phases nor control nor movement have anything
  to do: the day is the farm loop and the clock.\<close>

lemma quiet_day:
  assumes sp: "mortality_rate (species P) = (\<lambda>_. 0)" "incubation_rate (species P) = (\<lambda>_. 0)"
    and day: "simulation_day st < 365"
    and R: "1 \<le> c_int (midge_grid_width (grids P) / temp_grid_width (grids P))"
    and dt: "substeps_end (dt (sim P))"
    and idle: "latent_midge_density st = (\<lambda>_ _ _. 0)" "inf_midge_density st = (\<lambda>_ _. 0)"
      "diffusion_soln_grid st = (\<lambda>_ _. 0)"
    and nc: "no_control (ctrl P)"
    and links: "num_movement_links st = 0"
  shows "simulate_day P (st, g)
         = Option.bind (fold_option (farm_update P) [0..<num_farms st]
                          (reset_daily_counters st, g))
             (\<lambda>sg5. Some (advance_time (fst sg5), snd sg5))"
proof -
  let ?s0 = "reset_daily_counters st"
  have c: "apply_control_measures ?s0 (epi P) (ctrl P) = ?s0"
    using nc by (simp add: apply_control_measures_def)
  have f: "simulation_day ?s0 < 365" "latent_midge_density ?s0 = (\<lambda>_ _ _. 0)"
    "inf_midge_density ?s0 = (\<lambda>_ _. 0)" "diffusion_soln_grid ?s0 = (\<lambda>_ _. 0)"
    "num_movement_links ?s0 = 0" "num_farms ?s0 = num_farms st"
    using day idle links by (simp_all add: reset_daily_counters_def)
  have m: "midge_mortality_and_incubation ?s0 (epi P) (grids P) (species P) = Some ?s0"
    by (rule still_mortality[OF sp f(1) R])
  have d: "midge_diffusion_for_day ?s0 (sim P) (epi P) (grids P) = Some ?s0"
    by (rule idle_diffusion_day[OF _ _ _ dt]) (simp_all add: f)
  have mv: "movement_transmission ?s0 (epi P) (mov P) (ctrl P) g = (?s0, g)"
    by (simp add: movement_transmission_def f)
  show ?thesis
    by (simp add: simulate_day_def Let_def c m d mv f)
qed

lemma sheep_death_update:
  "\<exists>s g. farm_update params_nc 0 (reset_daily_counters state_sheep, rng_ones) = Some (s, g)
     \<and> i_sheep (farms s 0) 0 = 0 \<and> s_sheep (farms s 0) = 0 \<and> r_sheep (farms s 0) = 0
     \<and> num_sheep_deaths s = 1"
  by (simp add: farm_update_def farm_hosts_phase_def farm_get_weather_def weather_defs
      farm_deaths_and_recoveries_def passive_detection_def not_detect_def detect_test_def
      sub_day_loop_passes sheep_substep_def
      sheep_last_stage_def sheep_mortality_def capped_poisson_def rand_poisson_def
      on_detection_def cattle_substep_def cattle_last_stage_def
      farm_transmission_midges_to_hosts_def farm_transmission_hosts_to_midges_def
      eff_num_animals_def num_cattle_def num_sheep_def
      reset_daily_counters_def
      state_sheep_def rng_ones_def params_nc_def
      state0_def farm0_def rng0_def epi0_def ctrl0_def params0_def species0_def rng_defs Let_def
      num_inf_cattle_def num_inf_sheep_def int_min_def c_int_def upd_farm_def)

lemma sheep_death_day:
  "\<exists>s g. simulate_day params_nc (state_sheep, rng_ones) = Some (s, g)
     \<and> i_sheep (farms s 0) 0 = 0 \<and> s_sheep (farms s 0) = 0 \<and> r_sheep (farms s 0) = 0
     \<and> num_sheep_deaths s = 1"
proof -
  have "simulate_day params_nc (state_sheep, rng_ones)
         = Option.bind (fold_option (farm_update params_nc) [0..<num_farms state_sheep]
                          (reset_daily_counters state_sheep, rng_ones))
             (\<lambda>sg5. Some (advance_time (fst sg5), snd sg5))"
    by (rule quiet_day)
       (simp_all add: params_nc_def params0_def species0_def state_sheep_def state0_def
          c_int_def ctrl0_def substeps_end_one)
  moreover have "num_farms state_sheep = 1"
    by (simp add: state_sheep_def state0_def)
  moreover from sheep_death_update obtain s g where
    "farm_update params_nc 0 (reset_daily_counters state_sheep, rng_ones) = Some (s, g)"
    "i_sheep (farms s 0) 0 = 0" "s_sheep (farms s 0) = 0" "r_sheep (farms s 0) = 0"
    "num_sheep_deaths s = 1"
    by blast
  ultimately show ?thesis
    by (simp add: advance_time_def Let_def)
qed

section \<open>Whole and non-negative host counts\<close>

lemma Nats_diff_int:
  assumes "x \<in> \<nat>" "0 \<le> X" "real_of_int X \<le> x"
  shows "x - real_of_int X \<in> \<nat>"
proof -
  from assms(1) obtain n :: nat where x: "x = real n" unfolding Nats_def by auto
  from assms(2) obtain m :: nat where X: "X = int m" using nonneg_int_cases by blast
  from assms(3) have "m \<le> n" by (simp add: x X)
  then have "x - real_of_int X = real (n - m)" by (simp add: x X)
  then show ?thesis by simp
qed

lemma Nats_add_int: "x \<in> \<nat> \<Longrightarrow> 0 \<le> X \<Longrightarrow> x + real_of_int X \<in> \<nat>"
proof -
  assume "x \<in> \<nat>" "0 \<le> X"
  then obtain m :: nat where X: "X = int m" using nonneg_int_cases by blast
  show ?thesis using \<open>x \<in> \<nat>\<close> by (simp add: X)
qed

lemma c_int_Nats: "x \<in> \<nat> \<Longrightarrow> real_of_int (c_int x) = x \<and> 0 \<le> c_int x"
proof -
  assume "x \<in> \<nat>"
  then obtain n :: nat where x: "x = real n" unfolding Nats_def by auto
  show ?thesis by (simp add: x c_int_def)
qed

lemma capped_poisson_bounds:
  assumes "count \<in> \<nat>"
  shows "0 \<le> fst (capped_poisson g lam count)"
    and "real_of_int (fst (capped_poisson g lam count)) \<le> count"
    and "count - real_of_int (fst (capped_poisson g lam count)) \<in> \<nat>"
proof -
  let ?X = "fst (capped_poisson g lam count)"
  from c_int_Nats[OF assms] have c: "real_of_int (c_int count) = count" "0 \<le> c_int count"
    by simp_all
  show a: "0 \<le> ?X"
    using c(2) by (simp add: rng_defs int_min_def Let_def case_prod_beta)
  have "?X \<le> c_int count"
    by (simp add: rng_defs int_min_def Let_def case_prod_beta)
  then have "real_of_int ?X \<le> real_of_int (c_int count)" by linarith
  then show b: "real_of_int ?X \<le> count" by (simp add: c)
  show "count - real_of_int ?X \<in> \<nat>"
    by (rule Nats_diff_int[OF assms a b])
qed

lemma herds_whole_upd:
  "herds_whole st \<Longrightarrow> whole_hosts (h (farms st k)) \<Longrightarrow> herds_whole (upd_farm k h st)"
  by (simp add: herds_whole_def upd_farm_def)

lemma whole_hosts_cong:
  "farm_hosts f' = farm_hosts f \<Longrightarrow> whole_hosts f' = whole_hosts f"
  by (simp add: farm_hosts_def whole_hosts_def)

lemma herds_whole_cong:
  assumes "\<And>k. view (Hosts k) s' = view (Hosts k) s"
  shows "herds_whole s' = herds_whole s"
proof -
  have "\<And>k. farm_hosts (farms s' k) = farm_hosts (farms s k)"
    using assms by (simp add: view_def)
  then have "\<And>k. whole_hosts (farms s' k) = whole_hosts (farms s k)"
    by (rule whole_hosts_cong)
  then show ?thesis
    by (simp add: herds_whole_def)
qed

lemma herds_whole_on_detection [simp]: "herds_whole (on_detection k c st) = herds_whole st"
  by (rule herds_whole_cong) (simp add: on_detection_view)

lemma herds_whole_update [simp]:
  "herds_whole (num_sheep_deaths_update u1 st) = herds_whole st"
  "herds_whole (num_sheep_infected_today_update u2 st) = herds_whole st"
  "herds_whole (num_cattle_infected_today_update u3 st) = herds_whole st"
  "herds_whole (interrupted_movements_update u4 st) = herds_whole st"
  "herds_whole (num_risky_moves_blocked_update u5 st) = herds_whole st"
  "herds_whole (num_movement_transmissions_update u6 st) = herds_whole st"
  "herds_whole (latent_midge_density_update u7 st) = herds_whole st"
  by (simp_all add: herds_whole_def)

lemma sheep_mortality_whole:
  assumes "herds_whole (fst sg)"
  shows "herds_whole (fst (sheep_mortality k c dtf mort n sg))"
proof -
  obtain st g where sg: "sg = (st, g)" by (cases sg)
  define X where "X = fst (capped_poisson g (dtf * mort * i_sheep (farms st k) n)
                             (i_sheep (farms st k) n))"
  define s1 where "s1 = (if X > 0 \<and> \<not> detected (farms st k) then on_detection k c st else st)"
  have w1: "herds_whole s1" using assms by (simp add: sg s1_def)
  have i1: "i_sheep (farms s1 k) = i_sheep (farms st k)" by (simp add: s1_def)
  have "i_sheep (farms st k) n \<in> \<nat>"
    using assms by (simp add: sg herds_whole_def whole_hosts_def)
  from capped_poisson_bounds(3)[OF this]
  have "i_sheep (farms st k) n - real_of_int X \<in> \<nat>" by (simp add: X_def)
  moreover have "whole_hosts (farms s1 k)" using w1 by (simp add: herds_whole_def)
  ultimately have "whole_hosts ((\<lambda>f. f\<lparr>i_sheep := (i_sheep f)(n := i_sheep f n - real_of_int X)\<rparr>)
                     (farms s1 k))"
    by (simp add: whole_hosts_def i1)
  then have "herds_whole (upd_farm k
                 (\<lambda>f. f\<lparr>i_sheep := (i_sheep f)(n := i_sheep f n - real_of_int X)\<rparr>) s1)"
    using w1 by (intro herds_whole_upd)
  moreover have "fst (sheep_mortality k c dtf mort n sg)
      = (upd_farm k (\<lambda>f. f\<lparr>i_sheep := (i_sheep f)(n := i_sheep f n - real_of_int X)\<rparr>) s1)
          \<lparr>num_sheep_deaths := num_sheep_deaths
             (upd_farm k (\<lambda>f. f\<lparr>i_sheep := (i_sheep f)(n := i_sheep f n - real_of_int X)\<rparr>) s1)
             + X\<rparr>"
    by (simp add: sg sheep_mortality_def Let_def case_prod_beta X_def s1_def)
  ultimately show ?thesis by simp
qed

lemma whole_hosts_recover_sheep:
  assumes "whole_hosts f" "0 \<le> X" "real_of_int X \<le> i_sheep f n"
  shows "whole_hosts (f\<lparr>i_sheep := (i_sheep f)(n := i_sheep f n - real_of_int X),
                        r_sheep := r_sheep f + real_of_int X\<rparr>)"
    and "whole_hosts (f\<lparr>i_sheep := ((i_sheep f)(n := i_sheep f n - real_of_int X))
                                     (Suc n := i_sheep f (Suc n) + real_of_int X)\<rparr>)"
  using assms by (simp_all add: whole_hosts_def Nats_diff_int Nats_add_int)

lemma whole_hosts_recover_cattle:
  assumes "whole_hosts f" "0 \<le> X" "real_of_int X \<le> i_cattle f n"
  shows "whole_hosts (f\<lparr>i_cattle := (i_cattle f)(n := i_cattle f n - real_of_int X),
                        r_cattle := r_cattle f + real_of_int X\<rparr>)"
    and "whole_hosts (f\<lparr>i_cattle := ((i_cattle f)(n := i_cattle f n - real_of_int X))
                                      (Suc n := i_cattle f (Suc n) + real_of_int X)\<rparr>)"
  using assms by (simp_all add: whole_hosts_def Nats_diff_int Nats_add_int)

lemma sheep_last_stage_whole:
  assumes "herds_whole (fst sg)"
  shows "herds_whole (fst (sheep_last_stage k e c dtf mort sg))"
proof -
  obtain st g where sg: "sg = (st, g)" by (cases sg)
  define n where "n = num_inf_stages_sheep e - 1"
  define lam where "lam = dtf * real (num_inf_stages_sheep e) * rec_rate_sheep e
                            * i_sheep (farms st k) n"
  define X where "X = fst (capped_poisson g lam (i_sheep (farms st k) n))"
  have w: "whole_hosts (farms st k)" using assms by (simp add: sg herds_whole_def)
  then have "i_sheep (farms st k) n \<in> \<nat>" by (simp add: whole_hosts_def)
  from capped_poisson_bounds(1,2)[OF this, of g lam]
  have "0 \<le> X" "real_of_int X \<le> i_sheep (farms st k) n" by (simp_all add: X_def)
  from whole_hosts_recover_sheep(1)[OF w this]
  have "herds_whole (upd_farm k
          (\<lambda>f. f\<lparr>i_sheep := (i_sheep f)(n := i_sheep f n - real_of_int X),
                 r_sheep := r_sheep f + real_of_int X\<rparr>) st)"
    using assms by (intro herds_whole_upd) (simp_all add: sg)
  then show ?thesis
    by (simp add: sg sheep_last_stage_def Let_def case_prod_beta sheep_mortality_whole
        X_def lam_def n_def)
qed

lemma sheep_earlier_stage_whole:
  assumes "herds_whole (fst sg)"
  shows "herds_whole (fst (sheep_earlier_stage k e c dtf mort n sg))"
proof -
  obtain st g where sg: "sg = (st, g)" by (cases sg)
  define lam where "lam = dtf * real (num_inf_stages_sheep e) * rec_rate_sheep e
                            * i_sheep (farms st k) n"
  define X where "X = fst (capped_poisson g lam (i_sheep (farms st k) n))"
  have w: "whole_hosts (farms st k)" using assms by (simp add: sg herds_whole_def)
  then have "i_sheep (farms st k) n \<in> \<nat>" by (simp add: whole_hosts_def)
  from capped_poisson_bounds(1,2)[OF this, of g lam]
  have "0 \<le> X" "real_of_int X \<le> i_sheep (farms st k) n" by (simp_all add: X_def)
  from whole_hosts_recover_sheep(2)[OF w this]
  have "herds_whole (upd_farm k
          (\<lambda>f. f\<lparr>i_sheep := ((i_sheep f)(n := i_sheep f n - real_of_int X))
                               (Suc n := i_sheep f (Suc n) + real_of_int X)\<rparr>) st)"
    using assms by (intro herds_whole_upd) (simp_all add: sg)
  then show ?thesis
    by (simp add: sg sheep_earlier_stage_def Let_def case_prod_beta sheep_mortality_whole
        X_def lam_def)
qed

lemma sheep_substep_whole:
  "herds_whole (fst sg) \<Longrightarrow> herds_whole (fst (sheep_substep k e c dtf mort sg))"
  unfolding sheep_substep_def
  by (rule fold_inv[where Q = "\<lambda>s. herds_whole (fst s)"])
     (simp_all add: sheep_earlier_stage_whole sheep_last_stage_whole)

lemma cattle_last_stage_whole:
  assumes "herds_whole (fst sg)"
  shows "herds_whole (fst (cattle_last_stage k e dtf sg))"
proof -
  obtain st g where sg: "sg = (st, g)" by (cases sg)
  define n where "n = num_inf_stages_cattle e - 1"
  define lam where "lam = dtf * real (num_inf_stages_cattle e) * rec_rate_cattle e
                            * i_cattle (farms st k) n"
  define X where "X = fst (capped_poisson g lam (i_cattle (farms st k) n))"
  have w: "whole_hosts (farms st k)" using assms by (simp add: sg herds_whole_def)
  then have "i_cattle (farms st k) n \<in> \<nat>" by (simp add: whole_hosts_def)
  from capped_poisson_bounds(1,2)[OF this, of g lam]
  have "0 \<le> X" "real_of_int X \<le> i_cattle (farms st k) n" by (simp_all add: X_def)
  from whole_hosts_recover_cattle(1)[OF w this]
  have "herds_whole (upd_farm k
          (\<lambda>f. f\<lparr>i_cattle := (i_cattle f)(n := i_cattle f n - real_of_int X),
                 r_cattle := r_cattle f + real_of_int X\<rparr>) st)"
    using assms by (intro herds_whole_upd) (simp_all add: sg)
  then show ?thesis
    by (simp add: sg cattle_last_stage_def Let_def case_prod_beta X_def lam_def n_def)
qed

lemma cattle_earlier_stage_whole:
  assumes "herds_whole (fst sg)"
  shows "herds_whole (fst (cattle_earlier_stage k e dtf n sg))"
proof -
  obtain st g where sg: "sg = (st, g)" by (cases sg)
  define lam where "lam = dtf * real (num_inf_stages_cattle e) * rec_rate_cattle e
                            * i_cattle (farms st k) n"
  define X where "X = fst (capped_poisson g lam (i_cattle (farms st k) n))"
  have w: "whole_hosts (farms st k)" using assms by (simp add: sg herds_whole_def)
  then have "i_cattle (farms st k) n \<in> \<nat>" by (simp add: whole_hosts_def)
  from capped_poisson_bounds(1,2)[OF this, of g lam]
  have "0 \<le> X" "real_of_int X \<le> i_cattle (farms st k) n" by (simp_all add: X_def)
  from whole_hosts_recover_cattle(2)[OF w this]
  have "herds_whole (upd_farm k
          (\<lambda>f. f\<lparr>i_cattle := ((i_cattle f)(n := i_cattle f n - real_of_int X))
                                (Suc n := i_cattle f (Suc n) + real_of_int X)\<rparr>) st)"
    using assms by (intro herds_whole_upd) (simp_all add: sg)
  then show ?thesis
    by (simp add: sg cattle_earlier_stage_def Let_def case_prod_beta X_def lam_def)
qed

lemma cattle_substep_whole:
  "herds_whole (fst sg) \<Longrightarrow> herds_whole (fst (cattle_substep k e dtf sg))"
  unfolding cattle_substep_def
  by (rule fold_inv[where Q = "\<lambda>s. herds_whole (fst s)"])
     (simp_all add: cattle_earlier_stage_whole cattle_last_stage_whole)

lemma passive_detection_whole:
  "herds_whole (fst sg) \<Longrightarrow> herds_whole (fst (passive_detection k e c sg))"
  by (simp add: passive_detection_def not_detect_def detect_test_def Let_def case_prod_beta rng_defs)

lemma farm_deaths_and_recoveries_whole:
  assumes "herds_whole (fst sg)"
  shows "herds_whole (fst (farm_deaths_and_recoveries k e c sg))"
proof -
  let ?Q = "\<lambda>s::SimulationState \<times> gsl_rng. herds_whole (fst s)"
  have a: "\<And>s dtf mort. ?Q s \<Longrightarrow> ?Q (sub_day_loop (sheep_substep k e c dtf mort) s)"
    by (rule sub_day_loop_inv[where P = ?Q]) (simp_all add: sheep_substep_whole)
  have b: "\<And>s dtf. ?Q s \<Longrightarrow> ?Q (sub_day_loop (cattle_substep k e dtf) s)"
    by (rule sub_day_loop_inv[where P = ?Q]) (simp_all add: cattle_substep_whole)
  show ?thesis
    using assms
    by (simp add: farm_deaths_and_recoveries_def Let_def passive_detection_whole a b)
qed

section \<open>The generator\<close>

text \<open>The outcome tables of a generator; a draw moves the position in the stream and
  leaves the tables alone.\<close>

lemma positive_draws_next [simp]:
  "positive_draws (rng_draws_update u g) = positive_draws g"
  "rng_ok (rng_draws_update u g) = rng_ok g"
  by (simp_all add: positive_draws_def rng_ok_def)

lemma capped_poisson_draws [simp]:
  "positive_draws (snd (capped_poisson g lam count)) = positive_draws g"
  "rng_ok (snd (capped_poisson g lam count)) = rng_ok g"
  by (simp_all add: rng_defs Let_def case_prod_beta)

lemma new_infections_draws [simp]:
  "positive_draws (snd (new_infections g count prob)) = positive_draws g"
  "rng_ok (snd (new_infections g count prob)) = rng_ok g"
  by (simp_all add: new_infections_def rng_defs Let_def case_prod_beta)

lemma sheep_mortality_draws [simp]:
  "positive_draws (snd (sheep_mortality k c dtf mort n sg)) = positive_draws (snd sg)"
  by (simp add: sheep_mortality_def Let_def case_prod_beta)

lemma sheep_stage_draws [simp]:
  "positive_draws (snd (sheep_last_stage k e c dtf mort sg)) = positive_draws (snd sg)"
  "positive_draws (snd (sheep_earlier_stage k e c dtf mort n sg)) = positive_draws (snd sg)"
  by (simp_all add: sheep_last_stage_def sheep_earlier_stage_def Let_def case_prod_beta)

lemma cattle_stage_draws [simp]:
  "positive_draws (snd (cattle_last_stage k e dtf sg)) = positive_draws (snd sg)"
  "positive_draws (snd (cattle_earlier_stage k e dtf n sg)) = positive_draws (snd sg)"
  by (simp_all add: cattle_last_stage_def cattle_earlier_stage_def Let_def case_prod_beta)

lemma substep_draws [simp]:
  "positive_draws (snd (sheep_substep k e c dtf mort sg)) = positive_draws (snd sg)"
  "positive_draws (snd (cattle_substep k e dtf sg)) = positive_draws (snd sg)"
  unfolding sheep_substep_def cattle_substep_def
  by (rule fold_ledger; simp)+

lemma sub_day_loop_draws:
  "(\<And>s. positive_draws (snd (body s)) = positive_draws (snd s)) \<Longrightarrow>
   positive_draws (snd (sub_day_loop body sg)) = positive_draws (snd sg)"
  by (rule sub_day_loop_inv[where P = "\<lambda>s. positive_draws (snd s) = positive_draws (snd sg)"])
     simp_all

lemma passive_detection_draws [simp]:
  "positive_draws (snd (passive_detection k e c sg)) = positive_draws (snd sg)"
  by (simp add: passive_detection_def not_detect_def detect_test_def Let_def case_prod_beta rng_defs)

lemma farm_deaths_and_recoveries_draws [simp]:
  "positive_draws (snd (farm_deaths_and_recoveries k e c sg)) = positive_draws (snd sg)"
  by (simp add: farm_deaths_and_recoveries_def Let_def sub_day_loop_draws)

lemma farm_transmission_midges_to_hosts_draws [simp]:
  "positive_draws (snd (farm_transmission_midges_to_hosts k e sp sg)) = positive_draws (snd sg)"
  by (simp add: farm_transmission_midges_to_hosts_def Let_def case_prod_beta)

lemma farm_get_weather_draws:
  "farm_get_weather k st g = Some sg' \<Longrightarrow> positive_draws (snd sg') = positive_draws g"
  by (auto simp add: weather_defs rng_defs Let_def split: if_splits)

lemma farm_update_draws:
  "farm_update P k sg = Some sg' \<Longrightarrow> positive_draws (snd sg') = positive_draws (snd sg)"
  by (auto simp add: farm_update_def farm_hosts_phase_def bind_eq_Some_conv Let_def
      dest: farm_get_weather_draws)

lemma shipment_step_draws [simp]:
  "positive_draws (fst (snd (cattle_shipment_step src dst e tot v))) = positive_draws (fst (snd v))"
  "positive_draws (fst (snd (sheep_shipment_step src dst e tot v))) = positive_draws (fst (snd v))"
  by (simp_all add: cattle_shipment_step_def sheep_shipment_step_def Let_def case_prod_beta
      rng_defs split: option.splits)

lemma shipment_draws [simp]:
  "positive_draws (fst (snd (cattle_shipment src dst e m sg))) = positive_draws (snd sg)"
  "positive_draws (fst (snd (sheep_shipment src dst e m sg))) = positive_draws (snd sg)"
proof -
  let ?Q = "\<lambda>v::SimulationState \<times> gsl_rng \<times> real \<times> int.
              positive_draws (fst (snd v)) = positive_draws (snd sg)"
  show "positive_draws (fst (snd (cattle_shipment src dst e m sg))) = positive_draws (snd sg)"
    unfolding cattle_shipment_def Let_def case_prod_beta
    by (rule funpow_inv[where P = ?Q]) (simp_all add: rng_defs)
  show "positive_draws (fst (snd (sheep_shipment src dst e m sg))) = positive_draws (snd sg)"
    unfolding sheep_shipment_def Let_def case_prod_beta
    by (rule funpow_inv[where P = ?Q]) (simp_all add: rng_defs)
qed

lemma transmission_via_movement_draws [simp]:
  "positive_draws (snd (transmission_via_movement st src dst risk e m c g)) = positive_draws g"
  by (simp add: transmission_via_movement_def Let_def case_prod_beta rng_defs)

lemma movement_transmission_draws [simp]:
  "positive_draws (snd (movement_transmission st e m c g)) = positive_draws g"
  unfolding movement_transmission_def
  by (rule fold_ledger[where v = "\<lambda>s. positive_draws (snd s)"]) simp_all

section \<open>New infections and shipments keep the counts whole\<close>

lemma new_infections_bounds:
  assumes "rng_ok g" "count \<in> \<nat>"
  shows "0 \<le> fst (new_infections g count prob)"
    and "real_of_int (fst (new_infections g count prob)) \<le> count"
proof -
  from c_int_Nats[OF assms(2)] have c: "real_of_int (c_int count) = count" "0 \<le> c_int count"
    by simp_all
  let ?b = "binomial_out g (rng_draws g) prob (nat (c_int count))"
  have "?b \<le> nat (c_int count)" using assms(1) by (simp add: rng_ok_def)
  then have "int ?b \<le> c_int count" using c(2) by linarith
  then have "real_of_int (int ?b) \<le> real_of_int (c_int count)" by linarith
  then have b: "real ?b \<le> count" by (simp add: c)
  have r: "fst (rand_binomial g (c_int count) prob) = int ?b"
    by (simp add: rng_defs Let_def)
  show "0 \<le> fst (new_infections g count prob)"
    by (simp add: new_infections_def capped_poisson_bounds(1)[OF assms(2)] r)
  show "real_of_int (fst (new_infections g count prob)) \<le> count"
    using b by (simp add: new_infections_def capped_poisson_bounds(2)[OF assms(2)] r)
qed

lemma whole_hosts_infect:
  assumes "whole_hosts f" "0 \<le> A"
  shows "real_of_int A \<le> s_sheep f \<Longrightarrow>
         whole_hosts (f\<lparr>s_sheep := s_sheep f - real_of_int A,
                        i_sheep := (i_sheep f)(0 := i_sheep f 0 + real_of_int A)\<rparr>)"
    and "real_of_int A \<le> s_cattle f \<Longrightarrow>
         whole_hosts (f\<lparr>s_cattle := s_cattle f - real_of_int A,
                        i_cattle := (i_cattle f)(0 := i_cattle f 0 + real_of_int A)\<rparr>)"
  using assms by (simp_all add: whole_hosts_def Nats_diff_int Nats_add_int)

lemma whole_hosts_force [simp]: "whole_hosts (force_update u f) = whole_hosts f"
  by (simp add: whole_hosts_def)

lemma farm_transmission_midges_to_hosts_whole:
  assumes w: "herds_whole (fst sg)" and ok: "rng_ok (snd sg)"
  shows "herds_whole (fst (farm_transmission_midges_to_hosts k e sp sg))"
proof -
  obtain st g where sg: "sg = (st, g)" by (cases sg)
  define frc where "frc = rel_local_weight (farms st k)
      * inf_midge_density st (midge_grid_y (farms st k)) (midge_grid_x (farms st k))
      * (1 - exp (- biting_rate sp (temp_today (farms st k))))"
  define s1 where "s1 = upd_farm k (\<lambda>f. f\<lparr>force := frc\<rparr>) st"
  define eff where "eff = eff_num_animals (farms s1 k) (preference_for_sheep e)
                          (num_inf_stages_cattle e) (num_inf_stages_sheep e)"
  define ps where "ps = 1 - exp (- frc * (preference_for_sheep e / eff) * p_h e)"
  define pc where "pc = 1 - exp (- frc * (1 / eff) * p_h e)"
  define A where "A = fst (new_infections g (s_sheep (farms s1 k)) ps)"
  define g1 where "g1 = snd (new_infections g (s_sheep (farms s1 k)) ps)"
  define B where "B = fst (new_infections g1 (s_cattle (farms s1 k)) pc)"
  define s2 where "s2 = upd_farm k
                         (\<lambda>f. f\<lparr>s_sheep := s_sheep f - real_of_int A,
                                i_sheep := (i_sheep f)(0 := i_sheep f 0 + real_of_int A)\<rparr>) s1"
  define s3 where "s3 = s2\<lparr>num_sheep_infected_today := num_sheep_infected_today s2 + A\<rparr>"
  define s4 where "s4 = upd_farm k
                         (\<lambda>f. f\<lparr>s_cattle := s_cattle f - real_of_int B,
                                i_cattle := (i_cattle f)(0 := i_cattle f 0 + real_of_int B)\<rparr>) s3"
  have w0: "herds_whole st" and g: "rng_ok g" using w ok by (simp_all add: sg)
  have w1: "herds_whole s1"
    unfolding s1_def using w0 by (intro herds_whole_upd) (simp_all add: herds_whole_def)
  then have f1: "whole_hosts (farms s1 k)" by (simp add: herds_whole_def)
  then have n1: "s_sheep (farms s1 k) \<in> \<nat>" "s_cattle (farms s1 k) \<in> \<nat>"
    by (simp_all add: whole_hosts_def)
  have a: "0 \<le> A" "real_of_int A \<le> s_sheep (farms s1 k)"
    unfolding A_def using new_infections_bounds[OF g n1(1)] by simp_all
  have w2: "herds_whole s2"
    unfolding s2_def using w1 whole_hosts_infect(1)[OF f1 a] by (intro herds_whole_upd)
  then have w3: "herds_whole s3" by (simp add: s3_def)
  then have f3: "whole_hosts (farms s3 k)" by (simp add: herds_whole_def)
  have c3: "s_cattle (farms s3 k) = s_cattle (farms s1 k)"
    by (simp add: s3_def s2_def upd_farm_def)
  have g1: "rng_ok g1" unfolding g1_def using g by simp
  have b: "0 \<le> B" "real_of_int B \<le> s_cattle (farms s3 k)"
    unfolding B_def c3 using new_infections_bounds[OF g1 n1(2)] by simp_all
  have w4: "herds_whole s4"
    unfolding s4_def using w3 whole_hosts_infect(2)[OF f3 b] by (intro herds_whole_upd)
  have "fst (farm_transmission_midges_to_hosts k e sp sg)
        = (if eff < 1 then s1
           else s4\<lparr>num_cattle_infected_today := num_cattle_infected_today s4 + B\<rparr>)"
    by (simp add: sg farm_transmission_midges_to_hosts_def Let_def case_prod_beta
        frc_def s1_def eff_def ps_def pc_def A_def g1_def B_def s2_def s3_def s4_def)
  then show ?thesis using w1 w4 by simp
qed

lemma pick_stage_pos: "pick_stage a sel cum ns = Some n \<Longrightarrow> cum < sel \<Longrightarrow> 0 < a n"
proof (induction ns arbitrary: cum)
  case Nil
  then show ?case by simp
next
  case (Cons m ns)
  show ?case
  proof (cases "cum + a m \<ge> sel")
    case True
    with Cons.prems show ?thesis by simp
  next
    case False
    with Cons.prems have "pick_stage a sel (cum + a m) ns = Some n" by simp
    from Cons.IH[OF this] False show ?thesis by simp
  qed
qed

lemma Nats_pred:
  fixes x :: real
  assumes "x \<in> \<nat>" "0 < x"
  shows "x - 1 \<in> \<nat>"
proof -
  from assms(1) obtain n :: nat where x: "x = real n" unfolding Nats_def by auto
  with assms(2) have "1 \<le> n" by simp
  then have "x - 1 = real (n - 1)" by (simp add: x)
  then show ?thesis by simp
qed

lemma sum_stages_nonneg: "(\<And>n. 0 \<le> a n) \<Longrightarrow> 0 \<le> sum_stages a N"
  by (induction N) simp_all

lemma whole_hosts_totals:
  assumes "whole_hosts f"
  shows "0 \<le> num_cattle f N" "0 \<le> num_sheep f N" "0 \<le> num_inf_cattle f N"
    "0 \<le> num_inf_sheep f N"
proof -
  have nn: "\<And>x::real. x \<in> \<nat> \<Longrightarrow> 0 \<le> x" by (auto simp add: Nats_def)
  from assms have "0 \<le> s_sheep f" "0 \<le> r_sheep f" "0 \<le> s_cattle f" "0 \<le> r_cattle f"
    "\<And>n. 0 \<le> i_sheep f n" "\<And>n. 0 \<le> i_cattle f n"
    by (simp_all add: whole_hosts_def nn)
  then show "0 \<le> num_cattle f N" "0 \<le> num_sheep f N" "0 \<le> num_inf_cattle f N"
    "0 \<le> num_inf_sheep f N"
    by (simp_all add: num_cattle_def num_sheep_def num_inf_cattle_def num_inf_sheep_def
        sum_stages_nonneg)
qed

lemma shipment_pick:
  assumes pd: "positive_draws g" and tot: "0 \<le> tot"
    and u: "fst (gsl_rng_uniform g) < infc / tot"
  shows "0 < fst (gsl_rng_uniform (snd (gsl_rng_uniform g))) * infc"
proof -
  have "0 < fst (gsl_rng_uniform g)" "0 < fst (gsl_rng_uniform (snd (gsl_rng_uniform g)))"
    using pd by (simp_all add: positive_draws_def rng_defs)
  moreover from this(1) u have "0 < infc / tot" by linarith
  then have "0 < infc" using tot by (auto simp add: zero_less_divide_iff)
  ultimately show ?thesis by simp
qed

lemma cattle_shipment_step_whole:
  assumes w: "herds_whole (fst v)" and pd: "positive_draws (fst (snd v))" and tot: "0 \<le> tot"
  shows "herds_whole (fst (cattle_shipment_step src dst e tot v))"
proof -
  obtain st g infc moved where v: "v = (st, g, infc, moved)" by (cases v) auto
  define sel where "sel = fst (gsl_rng_uniform (snd (gsl_rng_uniform g))) * infc"
  show ?thesis
  proof (cases "fst (gsl_rng_uniform g) < infc / tot")
    case False
    then show ?thesis using w by (simp add: v cattle_shipment_step_def Let_def case_prod_beta)
  next
    case True
    from shipment_pick[OF _ tot True] pd have sel: "0 < sel" by (simp add: v sel_def)
    show ?thesis
    proof (cases "pick_stage (i_cattle (farms st src)) sel 0 [0..<num_inf_stages_cattle e]")
      case None
      then show ?thesis
        using w True by (simp add: v cattle_shipment_step_def Let_def case_prod_beta sel_def)
    next
      case (Some n)
      define s1 where "s1 = upd_farm src
                        (\<lambda>f. f\<lparr>i_cattle := (i_cattle f)(n := i_cattle f n - 1)\<rparr>) st"
      from pick_stage_pos[OF Some sel] have pos: "0 < i_cattle (farms st src) n" .
      have w0: "herds_whole st" using w by (simp add: v)
      then have "whole_hosts (farms st src)" by (simp add: herds_whole_def)
      with pos have "whole_hosts ((\<lambda>f. f\<lparr>i_cattle := (i_cattle f)(n := i_cattle f n - 1)\<rparr>)
                        (farms st src))"
        by (simp add: whole_hosts_def Nats_pred)
      then have w1: "herds_whole s1"
        unfolding s1_def using w0 by (intro herds_whole_upd)
      then have "whole_hosts (farms s1 dst)" by (simp add: herds_whole_def)
      then have "whole_hosts ((\<lambda>f. f\<lparr>i_cattle := (i_cattle f)(n := i_cattle f n + 1)\<rparr>)
                        (farms s1 dst))"
        by (simp add: whole_hosts_def)
      then have "herds_whole (upd_farm dst
                   (\<lambda>f. f\<lparr>i_cattle := (i_cattle f)(n := i_cattle f n + 1)\<rparr>) s1)"
        using w1 by (intro herds_whole_upd)
      then show ?thesis
        using True Some
        by (simp add: v cattle_shipment_step_def Let_def case_prod_beta sel_def s1_def)
    qed
  qed
qed

lemma sheep_shipment_step_whole:
  assumes w: "herds_whole (fst v)" and pd: "positive_draws (fst (snd v))" and tot: "0 \<le> tot"
  shows "herds_whole (fst (sheep_shipment_step src dst e tot v))"
proof -
  obtain st g infc moved where v: "v = (st, g, infc, moved)" by (cases v) auto
  define sel where "sel = fst (gsl_rng_uniform (snd (gsl_rng_uniform g))) * infc"
  show ?thesis
  proof (cases "fst (gsl_rng_uniform g) < infc / tot")
    case False
    then show ?thesis using w by (simp add: v sheep_shipment_step_def Let_def case_prod_beta)
  next
    case True
    from shipment_pick[OF _ tot True] pd have sel: "0 < sel" by (simp add: v sel_def)
    show ?thesis
    proof (cases "pick_stage (i_sheep (farms st src)) sel 0 [0..<num_inf_stages_sheep e]")
      case None
      then show ?thesis
        using w True by (simp add: v sheep_shipment_step_def Let_def case_prod_beta sel_def)
    next
      case (Some n)
      define s1 where "s1 = upd_farm src
                        (\<lambda>f. f\<lparr>i_sheep := (i_sheep f)(n := i_sheep f n - 1)\<rparr>) st"
      from pick_stage_pos[OF Some sel] have pos: "0 < i_sheep (farms st src) n" .
      have w0: "herds_whole st" using w by (simp add: v)
      then have "whole_hosts (farms st src)" by (simp add: herds_whole_def)
      with pos have "whole_hosts ((\<lambda>f. f\<lparr>i_sheep := (i_sheep f)(n := i_sheep f n - 1)\<rparr>)
                        (farms st src))"
        by (simp add: whole_hosts_def Nats_pred)
      then have w1: "herds_whole s1"
        unfolding s1_def using w0 by (intro herds_whole_upd)
      then have "whole_hosts (farms s1 dst)" by (simp add: herds_whole_def)
      then have "whole_hosts ((\<lambda>f. f\<lparr>i_sheep := (i_sheep f)(n := i_sheep f n + 1)\<rparr>)
                        (farms s1 dst))"
        by (simp add: whole_hosts_def)
      then have "herds_whole (upd_farm dst
                   (\<lambda>f. f\<lparr>i_sheep := (i_sheep f)(n := i_sheep f n + 1)\<rparr>) s1)"
        using w1 by (intro herds_whole_upd)
      then show ?thesis
        using True Some
        by (simp add: v sheep_shipment_step_def Let_def case_prod_beta sel_def s1_def)
    qed
  qed
qed

lemma shipment_whole:
  assumes w: "herds_whole (fst sg)" and pd: "positive_draws (snd sg)"
  shows "herds_whole (fst (cattle_shipment src dst e m sg))"
    and "herds_whole (fst (sheep_shipment src dst e m sg))"
proof -
  let ?Q = "\<lambda>v::SimulationState \<times> gsl_rng \<times> real \<times> int.
              herds_whole (fst v) \<and> positive_draws (fst (snd v))"
  have f: "whole_hosts (farms (fst sg) src)" using w by (simp add: herds_whole_def)
  have "?Q (cattle_shipment src dst e m sg)"
    unfolding cattle_shipment_def Let_def case_prod_beta
    by (rule funpow_inv[where P = ?Q])
       (simp_all add: cattle_shipment_step_whole whole_hosts_totals[OF f] w pd rng_defs)
  then show "herds_whole (fst (cattle_shipment src dst e m sg))" by simp
  have "?Q (sheep_shipment src dst e m sg)"
    unfolding sheep_shipment_def Let_def case_prod_beta
    by (rule funpow_inv[where P = ?Q])
       (simp_all add: sheep_shipment_step_whole whole_hosts_totals[OF f] w pd rng_defs)
  then show "herds_whole (fst (sheep_shipment src dst e m sg))" by simp
qed

lemma transmission_via_movement_whole:
  assumes "herds_whole st" "positive_draws g"
  shows "herds_whole (fst (transmission_via_movement st src dst risk e m c g))"
  using assms
  by (simp add: transmission_via_movement_def Let_def case_prod_beta shipment_whole rng_defs)

lemma movement_transmission_whole:
  assumes "herds_whole st" "positive_draws g"
  shows "herds_whole (fst (movement_transmission st e m c g))"
proof -
  let ?Q = "\<lambda>sg::SimulationState \<times> gsl_rng. herds_whole (fst sg) \<and> positive_draws (snd sg)"
  have "?Q (movement_transmission st e m c g)"
    unfolding movement_transmission_def
    by (rule fold_inv[where Q = ?Q]) (simp_all add: transmission_via_movement_whole assms)
  then show ?thesis by simp
qed

lemma farm_update_whole:
  assumes run: "farm_update P k sg = Some sg'"
    and w: "herds_whole (fst sg)" and pd: "positive_draws (snd sg)"
  shows "herds_whole (fst sg')"
proof -
  from run obtain sg1 where wr: "farm_get_weather k (fst sg) (snd sg) = Some sg1"
    and out: "sg' = (farm_transmission_hosts_to_midges k (epi P)
                (fst (farm_transmission_midges_to_hosts k (epi P) (species P)
                   (farm_deaths_and_recoveries k (epi P) (ctrl P) sg1))),
              snd (farm_transmission_midges_to_hosts k (epi P) (species P)
                   (farm_deaths_and_recoveries k (epi P) (ctrl P) sg1)))"
    by (auto simp add: farm_update_def farm_hosts_phase_def bind_eq_Some_conv Let_def)
  let ?sg2 = "farm_deaths_and_recoveries k (epi P) (ctrl P) sg1"
  have "herds_whole (fst sg1) = herds_whole (fst sg)"
    by (rule herds_whole_cong) (simp add: farm_get_weather_view[OF wr])
  then have w1: "herds_whole (fst sg1)" using w by simp
  have "positive_draws (snd sg1)" using farm_get_weather_draws[OF wr] pd by simp
  then have "positive_draws (snd ?sg2)" by simp
  then have "rng_ok (snd ?sg2)" unfolding positive_draws_def by simp
  moreover have "herds_whole (fst ?sg2)"
    using w1 by (rule farm_deaths_and_recoveries_whole)
  ultimately have "herds_whole (fst (farm_transmission_midges_to_hosts k (epi P) (species P) ?sg2))"
    by (intro farm_transmission_midges_to_hosts_whole)
  moreover have "\<And>s. herds_whole (farm_transmission_hosts_to_midges k (epi P) s) = herds_whole s"
    by (rule herds_whole_cong) (simp add: farm_transmission_hosts_to_midges_view)
  ultimately show ?thesis by (simp add: out)
qed

section \<open>Non-negative midge densities\<close>

lemma poisson_pdf_nonneg: "0 \<le> mu \<Longrightarrow> 0 \<le> gsl_ran_poisson_pdf k mu"
  by (simp add: gsl_ran_poisson_pdf_def)

lemma exp_partial_sum_le:
  fixes mu :: real
  assumes "0 \<le> mu"
  shows "(\<Sum>j\<le>k. mu ^ j / fact j) \<le> exp mu"
proof -
  have s: "(\<lambda>n. mu ^ n /\<^sub>R fact n) sums exp mu" by (rule exp_converges)
  have "(\<Sum>j\<in>{..k}. mu ^ j /\<^sub>R fact j) \<le> (\<Sum>n. mu ^ n /\<^sub>R fact n)"
    by (rule sum_le_suminf) (use s assms in \<open>auto simp add: sums_iff\<close>)
  also have "\<dots> = exp mu" using s by (simp add: sums_iff)
  finally show ?thesis by (simp add: divide_inverse mult.commute)
qed

lemma poisson_Q_nonneg:
  assumes "0 \<le> mu"
  shows "0 \<le> gsl_cdf_poisson_Q k mu"
proof -
  have "gsl_cdf_poisson_P k mu = (\<Sum>j\<le>k. mu ^ j / fact j) * exp (- mu)"
    by (simp add: gsl_cdf_poisson_P_def gsl_ran_poisson_pdf_def sum_distrib_right)
  also have "\<dots> \<le> exp mu * exp (- mu)"
    by (rule mult_right_mono[OF exp_partial_sum_le[OF assms]]) simp
  also have "\<dots> = 1" by (simp add: exp_minus)
  finally show ?thesis by (simp add: gsl_cdf_poisson_Q_def)
qed

lemma fold_latent_soln:
  "diffusion_soln_grid
     (fold (\<lambda>n s. s\<lparr>latent_midge_density := G n s\<rparr>) ns st) = diffusion_soln_grid st"
  by (induction ns arbitrary: st) simp_all

lemma apply_mortality_soln:
  "diffusion_soln_grid (apply_mortality i j N mort st) = diffusion_soln_grid st"
  unfolding apply_mortality_def Let_def by (simp add: fold_latent_soln)

lemma write_back_soln:
  "diffusion_soln_grid (write_back i j N soln st) = diffusion_soln_grid st"
  unfolding write_back_def Let_def by (simp add: fold_latent_soln)

lemma apply_mortality_nonneg:
  assumes "midges_nonneg st" "0 \<le> mort"
  shows "midges_nonneg (apply_mortality i j N mort st)"
  using assms
  by (simp add: midges_nonneg_def apply_mortality_latent apply_mortality_inf apply_mortality_soln)

lemma eip_soln_nonneg:
  assumes "midges_nonneg st" "0 \<le> incub"
  shows "0 \<le> eip_soln i j N incub st n"
proof -
  from assms(1) have l: "\<And>m. 0 \<le> latent_midge_density st i j m"
    and f: "0 \<le> inf_midge_density st i j"
    by (simp_all add: midges_nonneg_def)
  show ?thesis
    using f
    by (auto simp add: eip_soln_def sum_stages_sum poisson_pmf_def poisson_sf_def
        intro!: sum_nonneg add_nonneg_nonneg mult_nonneg_nonneg l
          poisson_pdf_nonneg[OF assms(2)] poisson_Q_nonneg[OF assms(2)]
        simp del: sum.lessThan_Suc)
qed

lemma write_back_nonneg:
  assumes "midges_nonneg st" "\<And>n. 0 \<le> soln n"
  shows "midges_nonneg (write_back i j N soln st)"
  using assms
  by (simp add: midges_nonneg_def write_back_latent write_back_inf write_back_soln)

lemma mortality_incubation_cell_nonneg:
  assumes "mortality_incubation_cell e sp i j st = Some st'" "midges_nonneg st"
  shows "midges_nonneg st'"
proof -
  let ?m = "exp (- mortality_rate sp (temp_grid st i j (weather_time_index st)))"
  let ?s1 = "apply_mortality i j (num_eip_stages e) ?m st"
  have s1: "midges_nonneg ?s1"
    using assms(2) by (rule apply_mortality_nonneg) simp
  show ?thesis
    using assms(1) s1
    by (auto simp add: mortality_incubation_cell_def Let_def split: if_splits
        intro!: write_back_nonneg eip_soln_nonneg)
qed

lemma midge_mortality_and_incubation_nonneg:
  assumes "midge_mortality_and_incubation st e gp sp = Some st'" and "midges_nonneg st"
  shows "midges_nonneg st'"
proof -
  let ?Q = "midges_nonneg"
  have inner: "\<And>i s s'. strided_loop (c_int (midge_grid_width gp / temp_grid_width gp)) MAX_GRID_E
        (mortality_incubation_cell e sp i) 0 s = Some s' \<Longrightarrow> ?Q s \<Longrightarrow> ?Q s'"
    by (erule strided_loop_inv) (simp_all add: mortality_incubation_cell_nonneg)
  show ?thesis
    using assms(1) unfolding midge_mortality_and_incubation_def Let_def
    by (rule strided_loop_inv[where Q = ?Q]) (simp_all add: inner assms(2))
qed

lemma flux_of_bounds:
  assumes "0 \<le> rho i j" "0 \<le> D i j * dtv / h2" "D i j * dtv / h2 \<le> 1 / 2"
  shows "0 \<le> flux_of dtv h2 D rho i j" and "2 * flux_of dtv h2 D rho i j \<le> rho i j"
proof -
  define c where "c = D i j * dtv / h2"
  have f: "flux_of dtv h2 D rho i j = (if rho i j > 0.00001 then c * rho i j else 0)"
    by (simp add: flux_of_def c_def)
  have a: "0 \<le> c * rho i j"
    using assms(1,2) unfolding c_def by (rule mult_nonneg_nonneg[rotated])
  have "c * rho i j \<le> (1 / 2) * rho i j"
    using assms(1,3) unfolding c_def by (rule mult_right_mono[rotated])
  then have b: "2 * (c * rho i j) \<le> rho i j" by simp
  show "0 \<le> flux_of dtv h2 D rho i j"
  proof (cases "rho i j > 0.00001")
    case True
    then show ?thesis using a by (simp only: f if_True)
  next
    case False
    then show ?thesis by (simp only: f if_False)
  qed
  show "2 * flux_of dtv h2 D rho i j \<le> rho i j"
  proof (cases "rho i j > 0.00001")
    case True
    then show ?thesis using b by (simp only: f if_True)
  next
    case False
    then show ?thesis using assms(1) by (simp only: f if_False)
  qed
qed

lemma diffuse_field_nonneg:
  assumes rho: "\<And>a b. 0 \<le> rho a b"
    and soln: "\<And>a b. interior a b \<Longrightarrow> soln a b = 0"
    and cfl: "\<And>a b. interior a b \<Longrightarrow> 0 \<le> D a b * dtv / h2 \<and> D a b * dtv / h2 \<le> 1 / 2"
  shows "0 \<le> fst (diffuse_field dtv h2 D (rho, soln)) a b"
proof (cases "interior a b")
  case False
  then show ?thesis by (simp add: diffuse_field_cells rho)
next
  case True
  have nn: "\<And>i j. interior i j \<Longrightarrow> 0 \<le> flux_of dtv h2 D rho i j"
  proof -
    fix i j assume "interior i j"
    from cfl[OF this] rho[of i j] show "0 \<le> flux_of dtv h2 D rho i j"
      by (intro flux_of_bounds(1)) simp_all
  qed
  have le: "2 * flux_of dtv h2 D rho a b \<le> rho a b"
    using cfl[OF True] rho[of a b] by (intro flux_of_bounds(2)) simp_all
  have t1: "0 \<le> (if 1 \<le> a \<and> interior (a - 1) b then flux_of dtv h2 D rho (a - 1) b else 0)"
    by (simp add: nn)
  have t2: "0 \<le> (if interior (a + 1) b then flux_of dtv h2 D rho (a + 1) b else 0)"
    by (simp add: nn)
  have t3: "0 \<le> (if 1 \<le> b \<and> interior a (b - 1) then flux_of dtv h2 D rho a (b - 1) else 0)"
    by (simp add: nn)
  have t4: "0 \<le> (if interior a (b + 1) then flux_of dtv h2 D rho a (b + 1) else 0)"
    by (simp add: nn)
  have "fst (diffuse_field dtv h2 D (rho, soln)) a b
        = rho a b - 2 * flux_of dtv h2 D rho a b
          + 0.5 * (if 1 \<le> a \<and> interior (a - 1) b then flux_of dtv h2 D rho (a - 1) b else 0)
          + 0.5 * (if interior (a + 1) b then flux_of dtv h2 D rho (a + 1) b else 0)
          + 0.5 * (if 1 \<le> b \<and> interior a (b - 1) then flux_of dtv h2 D rho a (b - 1) else 0)
          + 0.5 * (if interior a (b + 1) then flux_of dtv h2 D rho a (b + 1) else 0)"
    using True by (simp only: diffuse_field_cells deposits_cell soln[OF True] if_True)
  with le t1 t2 t3 t4 show ?thesis by linarith
qed

lemma diffuse_latent_stage_nonneg:
  assumes ok: "midges_nonneg st"
    and cfl: "\<And>a b. interior a b \<Longrightarrow>
                0 \<le> diffusion_grid st a b * dtv / h2 \<and> diffusion_grid st a b * dtv / h2 \<le> 1 / 2"
  shows "midges_nonneg (diffuse_latent_stage dtv h2 n st)"
proof -
  let ?s = "diffuse_latent_stage dtv h2 n st"
  have rho: "\<And>a b. 0 \<le> latent_field st n a b"
    using ok by (simp add: midges_nonneg_def latent_field_def)
  have soln: "\<And>a b. interior a b \<Longrightarrow> diffusion_soln_grid st a b = 0"
    using ok by (simp add: midges_nonneg_def)
  have new: "\<And>a b. 0 \<le> fst (diffuse_field dtv h2 (diffusion_grid st)
                               (latent_field st n, diffusion_soln_grid st)) a b"
    by (rule diffuse_field_nonneg[OF rho soln cfl])
  have "\<And>i j m. 0 \<le> latent_field ?s m i j"
    using ok new
    by (simp add: diffuse_latent_stage_fields) (simp add: latent_field_def midges_nonneg_def)
  then have "\<And>i j m. 0 \<le> latent_midge_density ?s i j m"
    by (simp add: latent_field_def)
  moreover have "\<And>i j. 0 \<le> inf_midge_density ?s i j"
    using ok by (simp add: diffuse_latent_stage_fields midges_nonneg_def)
  moreover have "\<And>i j. interior i j \<Longrightarrow> diffusion_soln_grid ?s i j = 0"
    by (simp add: diffuse_latent_stage_fields scratch_interior_after_pass)
  ultimately show ?thesis by (simp add: midges_nonneg_def)
qed

lemma diffuse_infectious_nonneg:
  assumes ok: "midges_nonneg st"
    and cfl: "\<And>a b. interior a b \<Longrightarrow>
                0 \<le> diffusion_grid st a b * dtv / h2 \<and> diffusion_grid st a b * dtv / h2 \<le> 1 / 2"
  shows "midges_nonneg (diffuse_infectious dtv h2 st)"
proof -
  let ?s = "diffuse_infectious dtv h2 st"
  have rho: "\<And>a b. 0 \<le> inf_midge_density st a b"
    using ok by (simp add: midges_nonneg_def)
  have soln: "\<And>a b. interior a b \<Longrightarrow> diffusion_soln_grid st a b = 0"
    using ok by (simp add: midges_nonneg_def)
  have new: "\<And>a b. 0 \<le> fst (diffuse_field dtv h2 (diffusion_grid st)
                               (inf_midge_density st, diffusion_soln_grid st)) a b"
    by (rule diffuse_field_nonneg[OF rho soln cfl])
  have "\<And>i j m. latent_field ?s m i j = latent_field st m i j"
    by (simp add: diffuse_infectious_fields)
  then have "\<And>i j m. 0 \<le> latent_midge_density ?s i j m"
    using ok by (simp add: latent_field_def midges_nonneg_def)
  moreover have "\<And>i j. 0 \<le> inf_midge_density ?s i j"
    using new by (simp add: diffuse_infectious_fields)
  moreover have "\<And>i j. interior i j \<Longrightarrow> diffusion_soln_grid ?s i j = 0"
    by (simp add: diffuse_infectious_fields scratch_interior_after_pass)
  ultimately show ?thesis by (simp add: midges_nonneg_def)
qed

lemma midge_diffusion_step_nonneg:
  assumes ok: "midges_nonneg st" and st: "stable P st"
  shows "midges_nonneg (midge_diffusion_step st (sim P) e (grids P))"
proof -
  let ?dt = "dt (sim P)" and ?h2 = "midge_grid_width (grids P) * midge_grid_width (grids P)"
  let ?Q = "\<lambda>s. midges_nonneg s \<and> diffusion_grid s = diffusion_grid st"
  have cfl: "\<And>s a b. diffusion_grid s = diffusion_grid st \<Longrightarrow> interior a b \<Longrightarrow>
      0 \<le> diffusion_grid s a b * ?dt / ?h2 \<and> diffusion_grid s a b * ?dt / ?h2 \<le> 1 / 2"
    using st by (simp add: stable_def)
  have "?Q (fold (diffuse_latent_stage ?dt ?h2) [0..<num_eip_stages e] st)"
  proof (rule fold_inv[where Q = ?Q])
    show "?Q st" using ok by simp
    fix n s assume q: "?Q s"
    then have "midges_nonneg (diffuse_latent_stage ?dt ?h2 n s)"
      by (intro diffuse_latent_stage_nonneg cfl) simp_all
    with q show "?Q (diffuse_latent_stage ?dt ?h2 n s)"
      by (simp add: diffuse_latent_stage_fields)
  qed
  then have "midges_nonneg (diffuse_infectious ?dt ?h2
                (fold (diffuse_latent_stage ?dt ?h2) [0..<num_eip_stages e] st))"
    by (intro diffuse_infectious_nonneg cfl) simp_all
  then show ?thesis
    by (simp add: midge_diffusion_step_def Let_def)
qed

lemma midge_diffusion_for_day_nonneg:
  assumes run: "midge_diffusion_for_day st (sim P) e (grids P) = Some st'"
    and ok: "midges_nonneg st" and st: "stable P st"
  shows "midges_nonneg st'"
proof -
  let ?Q = "\<lambda>s. midges_nonneg s \<and> view Layout s = view Layout st"
  have stab: "\<And>s. view Layout s = view Layout st \<Longrightarrow> stable P s"
    using st by (simp add: stable_def view_def layout_def)
  have "?Q st'"
    using run unfolding midge_diffusion_for_day_def
    by (rule diffusion_loop_inv[where Q = ?Q])
       (simp_all add: ok midge_diffusion_step_nonneg stab midge_diffusion_step_view)
  then show ?thesis by simp
qed

lemma midges_nonneg_cong:
  "view Midges s' = view Midges s \<Longrightarrow> midges_nonneg s' = midges_nonneg s"
  by (simp add: view_def midges_def midges_nonneg_def)

lemma bites_per_animal_nonneg: "0 \<le> transmission_scalar e \<Longrightarrow> 0 \<le> bites_per_animal e f d"
  by (simp add: bites_per_animal_def Let_def)

lemma eff_num_inf_animals_nonneg:
  assumes "whole_hosts f" "0 \<le> pref"
  shows "0 \<le> eff_num_inf_animals f pref Nc Ns"
proof -
  have nn: "\<And>x::real. x \<in> \<nat> \<Longrightarrow> 0 \<le> x" by (auto simp add: Nats_def)
  from assms(1) have "\<And>n. 0 \<le> i_sheep f n" "\<And>n. 0 \<le> i_cattle f n"
    by (simp_all add: whole_hosts_def nn)
  then show ?thesis
    using assms(2) by (simp add: eff_num_inf_animals_def sum_stages_nonneg)
qed

lemma farm_transmission_hosts_to_midges_nonneg:
  assumes ok: "midges_nonneg st" and w: "whole_hosts (farms st k)"
    and signs: "0 \<le> p_v e" "0 \<le> preference_for_sheep e" "0 \<le> transmission_scalar e"
  shows "midges_nonneg (farm_transmission_hosts_to_midges k e st)"
proof -
  have "0 \<le> p_v e * eff_num_inf_animals (farms st k) (preference_for_sheep e)
                 (num_inf_stages_cattle e) (num_inf_stages_sheep e)
               * bites_per_animal e (farms st k) (real (simulation_day st))"
    by (intro mult_nonneg_nonneg signs(1) eff_num_inf_animals_nonneg[OF w signs(2)]
        bites_per_animal_nonneg[OF signs(3)])
  then show ?thesis
    using ok
    by (simp add: farm_transmission_hosts_to_midges_def Let_def midges_nonneg_def)
qed

section \<open>One day keeps the counts whole and the densities non-negative\<close>

lemma stable_cong: "view Layout s' = view Layout s \<Longrightarrow> stable P s' = stable P s"
  by (simp add: stable_def view_def layout_def)

lemma farm_update_day_ok:
  assumes run: "farm_update P k sg = Some sg'"
    and signs: "signs_ok (epi P)"
    and ok: "day_ok P sg"
  shows "day_ok P sg'"
proof -
  from run obtain sg1 where wr: "farm_get_weather k (fst sg) (snd sg) = Some sg1"
    and out: "sg' = (farm_transmission_hosts_to_midges k (epi P)
                (fst (farm_transmission_midges_to_hosts k (epi P) (species P)
                   (farm_deaths_and_recoveries k (epi P) (ctrl P) sg1))),
              snd (farm_transmission_midges_to_hosts k (epi P) (species P)
                   (farm_deaths_and_recoveries k (epi P) (ctrl P) sg1)))"
    by (auto simp add: farm_update_def farm_hosts_phase_def bind_eq_Some_conv Let_def)
  let ?sg3 = "farm_transmission_midges_to_hosts k (epi P) (species P)
                (farm_deaths_and_recoveries k (epi P) (ctrl P) sg1)"
  from ok have w: "herds_whole (fst sg)" and m: "midges_nonneg (fst sg)"
    and pd: "positive_draws (snd sg)" and st: "stable P (fst sg)"
    by (simp_all add: day_ok_def)
  have w': "herds_whole (fst sg')" by (rule farm_update_whole[OF run w pd])
  have pd': "positive_draws (snd sg')" using farm_update_draws[OF run] pd by simp
  have "view Layout (fst sg') = view Layout (fst sg)"
    using run by (rule farm_update_view) simp_all
  then have st': "stable P (fst sg')" using st stable_cong[of "fst sg'" "fst sg" P] by simp
  have v3: "view Midges (fst ?sg3) = view Midges (fst sg)"
    by (simp add: farm_transmission_midges_to_hosts_view farm_deaths_and_recoveries_view
        farm_get_weather_view[OF wr])
  then have m3: "midges_nonneg (fst ?sg3)"
    using m midges_nonneg_cong[of "fst ?sg3" "fst sg"] by simp
  have "\<And>s. herds_whole (farm_transmission_hosts_to_midges k (epi P) s) = herds_whole s"
    by (rule herds_whole_cong) (simp add: farm_transmission_hosts_to_midges_view)
  then have "herds_whole (fst ?sg3)" using w' by (simp add: out)
  then have f3: "whole_hosts (farms (fst ?sg3) k)" by (simp add: herds_whole_def)
  have "midges_nonneg (farm_transmission_hosts_to_midges k (epi P) (fst ?sg3))"
    using m3 f3 signs by (intro farm_transmission_hosts_to_midges_nonneg)
      (simp_all add: signs_ok_def)
  then have m': "midges_nonneg (fst sg')" by (simp add: out)
  from w' m' pd' st' show ?thesis by (simp add: day_ok_def)
qed

lemma simulate_day_ok:
  assumes run: "simulate_day P sg = Some sg'"
    and signs: "signs_ok (epi P)"
    and ok: "day_ok P sg"
  shows "day_ok P sg'"
proof -
  let ?s1 = "apply_control_measures (reset_daily_counters (fst sg)) (epi P) (ctrl P)"
  from run obtain s2 s3 sg5 where
    s2: "midge_mortality_and_incubation ?s1 (epi P) (grids P) (species P) = Some s2"
    and s3: "midge_diffusion_for_day s2 (sim P) (epi P) (grids P) = Some s3"
    and s5: "fold_option (farm_update P)
               [0..<num_farms (fst (movement_transmission s3 (epi P) (mov P) (ctrl P) (snd sg)))]
               (movement_transmission s3 (epi P) (mov P) (ctrl P) (snd sg)) = Some sg5"
    and out: "sg' = (advance_time (fst sg5), snd sg5)"
    by (auto simp add: simulate_day_def Let_def bind_eq_Some_conv)
  let ?sg4 = "movement_transmission s3 (epi P) (mov P) (ctrl P) (snd sg)"
  from ok have w: "herds_whole (fst sg)" and m: "midges_nonneg (fst sg)"
    and pd: "positive_draws (snd sg)" and st: "stable P (fst sg)"
    by (simp_all add: day_ok_def)
  have v1: "\<And>ob. ob \<noteq> Deaths \<Longrightarrow> \<not> is_flags ob \<Longrightarrow> view ob ?s1 = view ob (fst sg)"
    by (simp add: apply_control_measures_view reset_daily_counters_view)
  have v3: "\<And>ob. ob \<noteq> Deaths \<Longrightarrow> \<not> is_flags ob \<Longrightarrow> ob \<noteq> Midges \<Longrightarrow>
              view ob s3 = view ob (fst sg)"
    by (simp add: midge_diffusion_for_day_view[OF s3] midge_mortality_and_incubation_view[OF s2]
        v1)
  have m1: "midges_nonneg ?s1" using m midges_nonneg_cong[of ?s1 "fst sg"] by (simp add: v1)
  have m2: "midges_nonneg s2" by (rule midge_mortality_and_incubation_nonneg[OF s2 m1])
  have "view Layout s2 = view Layout (fst sg)"
    by (simp add: midge_mortality_and_incubation_view[OF s2] v1)
  then have st2: "stable P s2" using st stable_cong[of s2 "fst sg" P] by simp
  have m3: "midges_nonneg s3" by (rule midge_diffusion_for_day_nonneg[OF s3 m2 st2])
  have "herds_whole s3 = herds_whole (fst sg)"
    by (rule herds_whole_cong) (simp add: v3)
  then have w3: "herds_whole s3" using w by simp
  have st3: "stable P s3" using st stable_cong[of s3 "fst sg" P] by (simp add: v3)
  have w4: "herds_whole (fst ?sg4)" by (rule movement_transmission_whole[OF w3 pd])
  have m4: "midges_nonneg (fst ?sg4)"
    using m3 midges_nonneg_cong[of "fst ?sg4" s3] by (simp add: movement_transmission_view)
  have st4: "stable P (fst ?sg4)"
    using st3 stable_cong[of "fst ?sg4" s3 P] by (simp add: movement_transmission_view)
  have ok4: "day_ok P ?sg4" using w4 m4 st4 pd by (simp add: day_ok_def)
  have ok5: "day_ok P sg5"
    by (rule fold_option_inv[OF s5, where Q = "day_ok P"])
       (simp_all add: farm_update_day_ok[OF _ signs] ok4)
  have "herds_whole (advance_time (fst sg5)) = herds_whole (fst sg5)"
    by (rule herds_whole_cong) (simp add: advance_time_view)
  moreover have "midges_nonneg (advance_time (fst sg5)) = midges_nonneg (fst sg5)"
    by (rule midges_nonneg_cong) (simp add: advance_time_view)
  moreover have "stable P (advance_time (fst sg5)) = stable P (fst sg5)"
    by (simp add: stable_def advance_time_def Let_def)
  ultimately show ?thesis using ok5 by (simp add: day_ok_def out)
qed

lemma simulate_days_ok:
  assumes signs: "signs_ok (epi P)"
  shows "simulate_days P n sg = Some sg' \<Longrightarrow> day_ok P sg \<Longrightarrow> day_ok P sg'"
proof (induction n arbitrary: sg)
  case 0
  then show ?case by simp
next
  case (Suc n)
  from Suc.prems(1) obtain sg1 where sg1: "simulate_day P sg = Some sg1"
    and rest: "simulate_days P n sg1 = Some sg'"
    by (auto simp: bind_eq_Some_conv)
  from Suc.IH[OF rest simulate_day_ok[OF sg1 signs Suc.prems(2)]] show ?case .
qed

lemma Nats_nonneg: "(x::real) \<in> \<nat> \<Longrightarrow> 0 \<le> x"
  by (auto simp add: Nats_def)

lemma cow_detected_update:
  "\<exists>s g. farm_update params_detect 0 (reset_daily_counters state_cow, rng_quarter) = Some (s, g)
     \<and> detected (farms s 0) \<and> num_farms_detected_today s = 1"
  by (simp add: farm_update_def farm_hosts_phase_def farm_get_weather_def weather_defs
      farm_deaths_and_recoveries_def passive_detection_def not_detect_def detect_test_def
      sub_day_loop_passes on_detection_def cattle_substep_def cattle_last_stage_def
      farm_transmission_midges_to_hosts_def farm_transmission_hosts_to_midges_def
      eff_num_animals_def num_cattle_def num_sheep_def new_infections_def
      reset_daily_counters_def
      state_cow_def rng_quarter_def params_detect_def
      state0_def farm0_def rng0_def epi0_def ctrl0_def params0_def species0_def rng_defs Let_def
      num_inf_cattle_def num_inf_sheep_def int_min_def c_int_def upd_farm_def)

lemma cow_detected_day:
  "\<exists>s g. simulate_day params_detect (state_cow, rng_quarter) = Some (s, g)
     \<and> detected (farms s 0) \<and> num_farms_detected_today s = 1"
proof -
  have "simulate_day params_detect (state_cow, rng_quarter)
         = Option.bind (fold_option (farm_update params_detect) [0..<num_farms state_cow]
                          (reset_daily_counters state_cow, rng_quarter))
             (\<lambda>sg5. Some (advance_time (fst sg5), snd sg5))"
    by (rule quiet_day)
       (simp_all add: params_detect_def params0_def species0_def state_cow_def state0_def
          c_int_def ctrl0_def substeps_end_one)
  moreover have "num_farms state_cow = 1"
    by (simp add: state_cow_def state0_def)
  moreover from cow_detected_update obtain s g where
    "farm_update params_detect 0 (reset_daily_counters state_cow, rng_quarter) = Some (s, g)"
    "detected (farms s 0)" "num_farms_detected_today s = 1"
    by blast
  ultimately show ?thesis
    by (simp add: advance_time_def Let_def)
qed

lemma fold_option_append:
  "fold_option f (xs @ ys) s = Option.bind (fold_option f xs s) (fold_option f ys)"
proof (induction xs arbitrary: s)
  case Nil
  then show ?case by simp
next
  case (Cons a xs)
  then show ?case by (cases "f a s") simp_all
qed

lemma farm_update_other_sheep:
  assumes run: "farm_update P j sg = Some sg'"
    and stages: "1 \<le> num_inf_stages_sheep (epi P)" "1 \<le> num_inf_stages_cattle (epi P)"
    and neq: "k \<noteq> j"
  shows "num_sheep (farms (fst sg') k) (num_inf_stages_sheep (epi P))
         = num_sheep (farms (fst sg) k) (num_inf_stages_sheep (epi P))"
proof -
  from farm_update_ledger[OF run stages]
  have "snd (ledger (epi P) j (fst sg')) k = snd (ledger (epi P) j (fst sg)) k" by simp
  with neq show ?thesis by (simp add: ledger_def)
qed

lemma farm_update_own_sheep:
  assumes run: "farm_update P k sg = Some sg'"
    and stages: "1 \<le> num_inf_stages_sheep (epi P)" "1 \<le> num_inf_stages_cattle (epi P)"
  shows "num_sheep (farms (fst sg') k) (num_inf_stages_sheep (epi P))
         = num_sheep (farms (fst sg) k) (num_inf_stages_sheep (epi P))
           - real_of_int (num_sheep_deaths (fst sg') - num_sheep_deaths (fst sg))"
proof -
  from farm_update_ledger[OF run stages]
  have "snd (ledger (epi P) k (fst sg')) k = snd (ledger (epi P) k (fst sg)) k" by simp
  then have "num_sheep (farms (fst sg') k) (num_inf_stages_sheep (epi P))
          + real_of_int (num_sheep_deaths (fst sg'))
        = num_sheep (farms (fst sg) k) (num_inf_stages_sheep (epi P))
          + real_of_int (num_sheep_deaths (fst sg))"
    by (simp add: ledger_def)
  then show ?thesis by simp
qed

lemma simulate_day_sheep_farm:
  assumes run: "simulate_day P sg = Some sg'"
    and stages: "1 \<le> num_inf_stages_sheep (epi P)" "1 \<le> num_inf_stages_cattle (epi P)"
    and k: "k < num_farms (fst sg)" and off: "off_the_links (fst sg) k"
  shows "\<exists>sa sb. day_upto P k sg = Some sa \<and> farm_update P k sa = Some sb
           \<and> num_sheep (farms (fst sg') k) (num_inf_stages_sheep (epi P))
             = num_sheep (farms (fst sg) k) (num_inf_stages_sheep (epi P))
               - real_of_int (num_sheep_deaths (fst sb) - num_sheep_deaths (fst sa))"
proof -
  let ?N = "num_inf_stages_sheep (epi P)"
  let ?s1 = "apply_control_measures (reset_daily_counters (fst sg)) (epi P) (ctrl P)"
  from run obtain s2 s3 sg5 where
    s2: "midge_mortality_and_incubation ?s1 (epi P) (grids P) (species P) = Some s2"
    and s3: "midge_diffusion_for_day s2 (sim P) (epi P) (grids P) = Some s3"
    and s5: "fold_option (farm_update P)
               [0..<num_farms (fst (movement_transmission s3 (epi P) (mov P) (ctrl P) (snd sg)))]
               (movement_transmission s3 (epi P) (mov P) (ctrl P) (snd sg)) = Some sg5"
    and out: "sg' = (advance_time (fst sg5), snd sg5)"
    by (auto simp add: simulate_day_def Let_def bind_eq_Some_conv)
  let ?sg4 = "movement_transmission s3 (epi P) (mov P) (ctrl P) (snd sg)"
  have v3: "\<And>ob. ob \<noteq> Midges \<Longrightarrow> ob \<noteq> Deaths \<Longrightarrow> \<not> is_flags ob \<Longrightarrow>
              view ob s3 = view ob (fst sg)"
    by (simp add: midge_diffusion_for_day_view[OF s3] midge_mortality_and_incubation_view[OF s2]
        apply_control_measures_view reset_daily_counters_view)
  have h3: "farm_hosts (farms s3 k) = farm_hosts (farms (fst sg) k)"
    using v3[of "Hosts k"] by (simp add: view_def)
  have o3: "off_the_links s3 k"
    using off herds_cong(3)[where s' = s3 and s = "fst sg"] v3 by simp
  have f4: "farms (fst ?sg4) k = farms s3 k"
    using o3 by (rule movement_transmission_others)
  have n4: "num_farms (fst ?sg4) = num_farms (fst sg)"
    using movement_transmission_view[of Layout s3 "epi P" "mov P" "ctrl P" "snd sg"]
      v3[of Layout]
    by (simp add: view_def layout_def)
  have a4: "num_sheep (farms (fst ?sg4) k) ?N = num_sheep (farms (fst sg) k) ?N"
    using h3 by (simp add: f4 num_sheep_def num_inf_sheep_def farm_hosts_def)
  have "[0..<num_farms (fst sg)] = [0..<k + (num_farms (fst sg) - k)]"
    using k by simp
  also have "\<dots> = [0..<k] @ [k..<k + (num_farms (fst sg) - k)]"
    by (rule upt_add_eq_append) simp
  also have "[k..<k + (num_farms (fst sg) - k)] = k # [Suc k..<num_farms (fst sg)]"
    using k by (simp add: upt_conv_Cons)
  finally have split: "[0..<num_farms (fst ?sg4)] = [0..<k] @ k # [Suc k..<num_farms (fst sg)]"
    by (simp add: n4)
  from s5 obtain sa sb where
    sa: "fold_option (farm_update P) [0..<k] ?sg4 = Some sa"
    and sb: "farm_update P k sa = Some sb"
    and rest: "fold_option (farm_update P) [Suc k..<num_farms (fst sg)] sb = Some sg5"
    by (auto simp add: split fold_option_append bind_eq_Some_conv)
  have up: "day_upto P k sg = Some sa"
    by (simp add: day_upto_def Let_def s2 s3 sa)
  let ?Q = "\<lambda>c (s::SimulationState \<times> gsl_rng). num_sheep (farms (fst s) k) ?N = c"
  have before: "num_sheep (farms (fst sa) k) ?N = num_sheep (farms (fst ?sg4) k) ?N"
  proof (rule fold_option_inv_mem[OF sa, where Q = "?Q (num_sheep (farms (fst ?sg4) k) ?N)"])
    show "?Q (num_sheep (farms (fst ?sg4) k) ?N) ?sg4" by simp
    fix j and s s' :: "SimulationState \<times> gsl_rng"
    assume "j \<in> set [0..<k]" and u: "farm_update P j s = Some s'"
      and q: "?Q (num_sheep (farms (fst ?sg4) k) ?N) s"
    then have "k \<noteq> j" by auto
    from farm_update_other_sheep[OF u stages this] q
    show "?Q (num_sheep (farms (fst ?sg4) k) ?N) s'" by simp
  qed
  have after: "num_sheep (farms (fst sg5) k) ?N = num_sheep (farms (fst sb) k) ?N"
  proof (rule fold_option_inv_mem[OF rest, where Q = "?Q (num_sheep (farms (fst sb) k) ?N)"])
    show "?Q (num_sheep (farms (fst sb) k) ?N) sb" by simp
    fix j and s s' :: "SimulationState \<times> gsl_rng"
    assume "j \<in> set [Suc k..<num_farms (fst sg)]" and u: "farm_update P j s = Some s'"
      and q: "?Q (num_sheep (farms (fst sb) k) ?N) s"
    then have "k \<noteq> j" by auto
    from farm_update_other_sheep[OF u stages this] q
    show "?Q (num_sheep (farms (fst sb) k) ?N) s'" by simp
  qed
  have "farms (fst sg') = farms (fst sg5)"
    by (simp add: out advance_time_def Let_def)
  then have "num_sheep (farms (fst sg') k) ?N
             = num_sheep (farms (fst sa) k) ?N
               - real_of_int (num_sheep_deaths (fst sb) - num_sheep_deaths (fst sa))"
    using after farm_update_own_sheep[OF sb stages] by simp
  with before a4 have "num_sheep (farms (fst sg') k) ?N
             = num_sheep (farms (fst sg) k) ?N
               - real_of_int (num_sheep_deaths (fst sb) - num_sheep_deaths (fst sa))"
    by simp
  with up sb show ?thesis by blast
qed

section \<open>Mortality and incubation over the grid\<close>

lemma strided_loop_cells:
  assumes R: "1 \<le> R"
    and body: "\<And>j s s'. Q s \<Longrightarrow> body j s = Some s' \<Longrightarrow>
                 Q s' \<and> (\<forall>x. x \<noteq> j \<longrightarrow> obs x s' = obs x s)
                 \<and> (obs j s = obs j s0 \<longrightarrow> obs j s' = T j)"
  shows "0 \<le> i \<Longrightarrow> Q s \<Longrightarrow> (\<forall>x. i \<le> int x \<longrightarrow> obs x s = obs x s0) \<Longrightarrow>
         strided_loop R N body i s = Some s' \<Longrightarrow>
         Q s' \<and> (\<forall>x. obs x s' = (if i \<le> int x \<and> x < N \<and> (int x - i) mod R = 0 then T x
                                  else obs x s))"
proof (induction "nat (int N - i)" arbitrary: i s rule: less_induct)
  case less
  show ?case
  proof (cases "i < int N")
    case False
    with less.prems(4) have "s' = s" by (subst (asm) strided_loop.simps) simp
    with less.prems(2) False show ?thesis by auto
  next
    case True
    with less.prems(1,4) obtain s1 where s1: "body (nat i) s = Some s1"
      and rest: "strided_loop R N body (i + R) s1 = Some s'"
      by (subst (asm) strided_loop.simps) (auto simp add: bind_eq_Some_conv)
    have here: "obs (nat i) s = obs (nat i) s0"
      using less.prems(1,3) by simp
    from body[OF less.prems(2) s1] here
    have q1: "Q s1" and other: "\<And>x. x \<noteq> nat i \<Longrightarrow> obs x s1 = obs x s"
      and visited: "obs (nat i) s1 = T (nat i)"
      by auto
    have m: "nat (int N - (i + R)) < nat (int N - i)"
      using True R by linarith
    have next0: "\<forall>x. i + R \<le> int x \<longrightarrow> obs x s1 = obs x s0"
    proof (intro allI impI)
      fix x assume "i + R \<le> int x"
      then have "x \<noteq> nat i" "i \<le> int x" using R less.prems(1) by linarith+
      then show "obs x s1 = obs x s0" using other less.prems(3) by simp
    qed
    from less.hyps[OF m _ q1 next0 rest] less.prems(1) R
    have q': "Q s'"
      and ih: "\<And>x. obs x s' = (if i + R \<le> int x \<and> x < N \<and> (int x - (i + R)) mod R = 0
                                then T x else obs x s1)"
      by auto
    have "obs x s' = (if i \<le> int x \<and> x < N \<and> (int x - i) mod R = 0 then T x else obs x s)"
      for x
    proof (cases "x = nat i")
      case True
      then have "int x = i" using less.prems(1) by simp
      moreover have "\<not> i + R \<le> int x" using \<open>int x = i\<close> R by simp
      moreover have "x < N" using \<open>int x = i\<close> \<open>i < int N\<close> by simp
      ultimately show ?thesis using ih[of x] visited True by simp
    next
      case False
      have iff: "(i + R \<le> int x \<and> (int x - (i + R)) mod R = 0)
                 \<longleftrightarrow> (i \<le> int x \<and> (int x - i) mod R = 0)"
      proof
        assume "i + R \<le> int x \<and> (int x - (i + R)) mod R = 0"
        then have "i \<le> int x" and "(int x - i - R) mod R = 0"
          using R by (simp_all add: algebra_simps)
        then show "i \<le> int x \<and> (int x - i) mod R = 0"
          by (metis diff_zero mod_diff_right_eq mod_self)
      next
        assume a: "i \<le> int x \<and> (int x - i) mod R = 0"
        then have "int x \<noteq> i" using False less.prems(1) by auto
        with a have pos: "0 < int x - i" by simp
        from a have "R dvd (int x - i)" by (simp add: dvd_eq_mod_eq_0)
        with pos have "R \<le> int x - i" by (rule zdvd_imp_le[rotated])
        moreover from a have "(int x - (i + R)) mod R = 0"
          by (metis diff_diff_eq minus_mod_self2 mod_0 mod_diff_left_eq diff_zero
              mod_diff_right_eq mod_self)
        ultimately show "i + R \<le> int x \<and> (int x - (i + R)) mod R = 0" by simp
      qed
      show ?thesis using ih[of x] other[OF False] iff by auto
    qed
    with q' show ?thesis by blast
  qed
qed

lemma midge_cell_eq:
  "midge_cell s i j = midge_cell t i j
   \<longleftrightarrow> latent_midge_density s i j = latent_midge_density t i j
       \<and> inf_midge_density s i j = inf_midge_density t i j"
  by (simp add: midge_cell_def)

lemma apply_mortality_cell:
  "midge_cell (apply_mortality i j N mort s) a b
   = (if a = i \<and> b = j
      then (\<lambda>n. if n < N then latent_midge_density s i j n * mort
                 else latent_midge_density s i j n, inf_midge_density s i j * mort)
      else midge_cell s a b)"
  by (auto simp add: midge_cell_def fun_eq_iff apply_mortality_latent apply_mortality_inf)

lemma write_back_cell:
  "midge_cell (write_back i j N soln s) a b
   = (if a = i \<and> b = j
      then (\<lambda>n. if n < N then soln n else latent_midge_density s i j n, soln N)
      else midge_cell s a b)"
  by (auto simp add: midge_cell_def fun_eq_iff write_back_latent write_back_inf)

lemma write_back_cell_cong:
  "midge_cell s i j = midge_cell t i j \<Longrightarrow>
   midge_cell (write_back i j N soln s) i j = midge_cell (write_back i j N soln t) i j"
  by (simp add: write_back_cell midge_cell_eq cong: if_cong)

lemma eip_soln_cell:
  "midge_cell s i j = midge_cell t i j \<Longrightarrow> eip_soln i j N incub s = eip_soln i j N incub t"
  by (simp add: midge_cell_eq eip_soln_def fun_eq_iff)

lemma fold_latent_frame:
  "temp_grid (fold (\<lambda>n s. s\<lparr>latent_midge_density := G n s\<rparr>) ns st) = temp_grid st"
  "simulation_day (fold (\<lambda>n s. s\<lparr>latent_midge_density := G n s\<rparr>) ns st) = simulation_day st"
  by (induction ns arbitrary: st) simp_all

lemma apply_mortality_frame:
  "temp_grid (apply_mortality i j N mort s) = temp_grid s"
  "simulation_day (apply_mortality i j N mort s) = simulation_day s"
  by (simp_all add: apply_mortality_def Let_def fold_latent_frame)

lemma write_back_frame:
  "temp_grid (write_back i j N soln s) = temp_grid s"
  "simulation_day (write_back i j N soln s) = simulation_day s"
  by (simp_all add: write_back_def Let_def fold_latent_frame)

lemma mortality_incubation_cell_local:
  assumes run: "mortality_incubation_cell e sp i j s = Some s'"
    and tg: "temp_grid s = temp_grid st" and dy: "simulation_day s = simulation_day st"
  shows "temp_grid s' = temp_grid st \<and> simulation_day s' = simulation_day st"
    and "(a, b) \<noteq> (i, j) \<Longrightarrow> midge_cell s' a b = midge_cell s a b"
    and "midge_cell s i j = midge_cell st i j \<Longrightarrow>
         midge_cell s' i j = midge_cell (the (mortality_incubation_cell e sp i j st)) i j"
proof -
  from run have day: "weather_time_index s < WEATHER_DAYS"
    by (simp add: mortality_incubation_cell_def split: if_splits)
  then have day': "weather_time_index st < WEATHER_DAYS"
    using dy by (simp add: weather_time_index_def)
  show "temp_grid s' = temp_grid st \<and> simulation_day s' = simulation_day st"
    using run day tg dy
    by (auto simp add: mortality_incubation_cell_def Let_def apply_mortality_frame
        write_back_frame split: if_splits)
  show "(a, b) \<noteq> (i, j) \<Longrightarrow> midge_cell s' a b = midge_cell s a b"
    using run day
    by (auto simp add: mortality_incubation_cell_def Let_def apply_mortality_cell
        write_back_cell split: if_splits)
  assume c: "midge_cell s i j = midge_cell st i j"
  let ?N = "num_eip_stages e"
  let ?T = "temp_grid st i j (weather_time_index st)"
  let ?m = "exp (- mortality_rate sp ?T)"
  have wt: "weather_time_index s = weather_time_index st"
    using dy by (simp add: weather_time_index_def)
  have c1: "midge_cell (apply_mortality i j ?N ?m s) i j
            = midge_cell (apply_mortality i j ?N ?m st) i j"
    using c by (auto simp add: apply_mortality_cell midge_cell_eq)
  then have l1: "latent_midge_density (apply_mortality i j ?N ?m s) i j
                 = latent_midge_density (apply_mortality i j ?N ?m st) i j"
    by (simp add: midge_cell_eq)
  let ?s1 = "apply_mortality i j ?N ?m s"
  let ?t1 = "apply_mortality i j ?N ?m st"
  let ?incub = "real ?N * incubation_rate sp ?T"
  define cnd where "cnd \<longleftrightarrow> 0 < ?incub \<and> 0 < sum_stages (latent_midge_density ?t1 i j) ?N"
  have es: "mortality_incubation_cell e sp i j s
            = Some (if cnd then write_back i j ?N (eip_soln i j ?N ?incub ?t1) ?s1 else ?s1)"
    using day
    by (simp add: mortality_incubation_cell_def Let_def wt tg l1 eip_soln_cell[OF c1] cnd_def)
  have et: "mortality_incubation_cell e sp i j st
            = Some (if cnd then write_back i j ?N (eip_soln i j ?N ?incub ?t1) ?t1 else ?t1)"
    using day' by (simp add: mortality_incubation_cell_def Let_def cnd_def)
  have "midge_cell (the (mortality_incubation_cell e sp i j s)) i j
        = midge_cell (the (mortality_incubation_cell e sp i j st)) i j"
    by (cases cnd) (simp_all add: es et c1 write_back_cell_cong[OF c1])
  with run show "midge_cell s' i j = midge_cell (the (mortality_incubation_cell e sp i j st)) i j"
    by simp
qed

lemma mortality_incubation_row:
  assumes R: "1 \<le> R"
    and run: "strided_loop R MAX_GRID_E (mortality_incubation_cell e sp i) 0 s = Some s'"
    and tg: "temp_grid s = temp_grid st" and dy: "simulation_day s = simulation_day st"
  shows "temp_grid s' = temp_grid st \<and> simulation_day s' = simulation_day st"
    and "a \<noteq> i \<Longrightarrow> midge_cell s' a b = midge_cell s a b"
    and "(\<forall>x. midge_cell s i x = midge_cell st i x) \<Longrightarrow>
         midge_cell s' i b
         = (if b < MAX_GRID_E \<and> int b mod R = 0
            then midge_cell (the (mortality_incubation_cell e sp i b st)) i b
            else midge_cell st i b)"
proof -
  let ?Q = "\<lambda>t. temp_grid t = temp_grid st \<and> simulation_day t = simulation_day st
                 \<and> (\<forall>a b. a \<noteq> i \<longrightarrow> midge_cell t a b = midge_cell s a b)"
  let ?T = "\<lambda>x. midge_cell (the (mortality_incubation_cell e sp i x st)) i x"
  let ?obs = "\<lambda>x t. midge_cell t i x"
  have body: "?Q t' \<and> (\<forall>x. x \<noteq> y \<longrightarrow> ?obs x t' = ?obs x t)
              \<and> (?obs y t = ?obs y s0 \<longrightarrow> ?obs y t' = ?T y)"
    if q: "?Q t" and b: "mortality_incubation_cell e sp i y t = Some t'"
      and s0: "\<forall>x. midge_cell s0 i x = midge_cell st i x" for y t t' s0
  proof -
    from q have tg': "temp_grid t = temp_grid st" and dy': "simulation_day t = simulation_day st"
      by simp_all
    note loc = mortality_incubation_cell_local[OF b tg' dy']
    have "\<forall>a b. a \<noteq> i \<longrightarrow> midge_cell t' a b = midge_cell s a b"
      using loc(2) q by auto
    moreover have "\<forall>x. x \<noteq> y \<longrightarrow> ?obs x t' = ?obs x t"
      using loc(2) by auto
    moreover have "?obs y t = ?obs y s0 \<longrightarrow> ?obs y t' = ?T y"
      using loc(3) s0 by auto
    ultimately show ?thesis using loc(1) by blast
  qed
  have q0: "?Q s" using tg dy by simp
  have frame: "?Q s'"
  proof -
    have "\<And>y t t'. mortality_incubation_cell e sp i y t = Some t' \<Longrightarrow> ?Q t \<Longrightarrow> ?Q t'"
      using body[where ?s0.0 = st] by blast
    from strided_loop_inv[where Q = ?Q, OF run this q0] show ?thesis .
  qed
  from frame show "temp_grid s' = temp_grid st \<and> simulation_day s' = simulation_day st"
    by simp
  from frame show "a \<noteq> i \<Longrightarrow> midge_cell s' a b = midge_cell s a b" by simp
  assume same: "\<forall>x. midge_cell s i x = midge_cell st i x"
  have "?Q s' \<and> (\<forall>x. ?obs x s' = (if 0 \<le> int x \<and> x < MAX_GRID_E \<and> (int x - 0) mod R = 0
                                    then ?T x else ?obs x s))"
  proof (rule strided_loop_cells[where Q = ?Q and obs = ?obs and T = ?T and ?s0.0 = st,
        OF R _ _ q0 _ run])
    show "(0::int) \<le> 0" by simp
    show "\<forall>x. 0 \<le> int x \<longrightarrow> midge_cell s i x = midge_cell st i x" using same by simp
    fix y t t'
    assume "?Q t" and "mortality_incubation_cell e sp i y t = Some t'"
    then show "?Q t' \<and> (\<forall>x. x \<noteq> y \<longrightarrow> ?obs x t' = ?obs x t)
               \<and> (?obs y t = ?obs y st \<longrightarrow> ?obs y t' = ?T y)"
      using body[where ?s0.0 = st] by blast
  qed
  then show "midge_cell s' i b
         = (if b < MAX_GRID_E \<and> int b mod R = 0
            then midge_cell (the (mortality_incubation_cell e sp i b st)) i b
            else midge_cell st i b)"
    using same by simp
qed

lemma midge_mortality_and_incubation_cells:
  assumes R: "1 \<le> c_int (midge_grid_width gp / temp_grid_width gp)"
    and run: "midge_mortality_and_incubation st e gp sp = Some st'"
  shows "midge_cell st' a b
         = (if on_stride (c_int (midge_grid_width gp / temp_grid_width gp)) a b
            then midge_cell (the (mortality_incubation_cell e sp a b st)) a b
            else midge_cell st a b)"
proof -
  let ?R = "c_int (midge_grid_width gp / temp_grid_width gp)"
  let ?Q = "\<lambda>t. temp_grid t = temp_grid st \<and> simulation_day t = simulation_day st"
  let ?obs = "\<lambda>x t. (\<lambda>y. midge_cell t x y)"
  let ?T = "\<lambda>x y. if y < MAX_GRID_E \<and> int y mod ?R = 0
                   then midge_cell (the (mortality_incubation_cell e sp x y st)) x y
                   else midge_cell st x y"
  from run have loop: "strided_loop ?R MAX_GRID_S
      (\<lambda>i. strided_loop ?R MAX_GRID_E (mortality_incubation_cell e sp i) 0) 0 st = Some st'"
    by (simp add: midge_mortality_and_incubation_def Let_def)
  have "?Q st' \<and> (\<forall>x. ?obs x st' = (if 0 \<le> int x \<and> x < MAX_GRID_S \<and> (int x - 0) mod ?R = 0
                                     then ?T x else ?obs x st))"
  proof (rule strided_loop_cells[where Q = ?Q and obs = ?obs and T = ?T and ?s0.0 = st,
        OF R _ _ _ _ loop])
    show "(0::int) \<le> 0" by simp
    show "?Q st" by simp
    show "\<forall>x. 0 \<le> int x \<longrightarrow> ?obs x st = ?obs x st" by simp
    fix i t t'
    assume q: "?Q t"
      and row: "strided_loop ?R MAX_GRID_E (mortality_incubation_cell e sp i) 0 t = Some t'"
    from q have tg: "temp_grid t = temp_grid st" and dy: "simulation_day t = simulation_day st"
      by simp_all
    note r = mortality_incubation_row[OF R row tg dy]
    have "\<forall>x. x \<noteq> i \<longrightarrow> ?obs x t' = ?obs x t"
      using r(2) by (simp add: fun_eq_iff)
    moreover have "?obs i t = ?obs i st \<longrightarrow> ?obs i t' = ?T i"
    proof
      assume "?obs i t = ?obs i st"
      then have "\<forall>x. midge_cell t i x = midge_cell st i x" by (simp add: fun_eq_iff)
      from r(3)[OF this] show "?obs i t' = ?T i" by (simp add: fun_eq_iff)
    qed
    ultimately show "?Q t' \<and> (\<forall>x. x \<noteq> i \<longrightarrow> ?obs x t' = ?obs x t)
                     \<and> (?obs i t = ?obs i st \<longrightarrow> ?obs i t' = ?T i)"
      using r(1) by blast
  qed
  then have "?obs a st' = (if a < MAX_GRID_S \<and> int a mod ?R = 0 then ?T a else ?obs a st)"
    by simp
  then have "midge_cell st' a b
             = (if a < MAX_GRID_S \<and> int a mod ?R = 0 then ?T a b else midge_cell st a b)"
    by (simp add: fun_eq_iff split: if_splits)
  then show ?thesis by (simp add: on_stride_def)
qed

lemma mortality_incubation_cell_formula:
  fixes e :: EpiParams and sp :: VectorSpecies and st :: SimulationState and i j :: nat
  defines "T \<equiv> temp_grid st i j (simulation_day st)"
  defines "\<sigma> \<equiv> exp (- mortality_rate sp T)"
  defines "\<iota> \<equiv> real (num_eip_stages e) * incubation_rate sp T"
  defines "latent' \<equiv> \<lambda>m. latent_midge_density st i j m * \<sigma>"
  assumes day: "simulation_day st < 365"
    and incub: "0 < \<iota>"
    and total: "0 < (\<Sum>m<num_eip_stages e. latent' m)"
  shows "\<exists>st'. mortality_incubation_cell e sp i j st = Some st'
     \<and> (\<forall>n<num_eip_stages e.
           latent_midge_density st' i j n
           = (\<Sum>m\<le>n. latent' m * gsl_ran_poisson_pdf (n - m) \<iota>))
     \<and> inf_midge_density st' i j
         = inf_midge_density st i j * \<sigma>
           + (\<Sum>m<num_eip_stages e. latent' m * gsl_cdf_poisson_Q (num_eip_stages e - m - 1) \<iota>)"
proof -
  let ?N = "num_eip_stages e"
  let ?s1 = "apply_mortality i j ?N \<sigma> st"
  have lat1: "\<And>m. m < ?N \<Longrightarrow> latent_midge_density ?s1 i j m = latent' m"
    by (simp add: apply_mortality_latent latent'_def)
  have tot: "sum_stages (latent_midge_density ?s1 i j) ?N = (\<Sum>m<?N. latent' m)"
    by (simp add: sum_stages_sum lat1)
  have cell: "mortality_incubation_cell e sp i j st
              = Some (write_back i j ?N (eip_soln i j ?N \<iota> ?s1) ?s1)"
    using day incub total
    by (simp add: mortality_incubation_cell_def weather_defs Let_def tot
        T_def[symmetric] \<sigma>_def[symmetric] \<iota>_def[symmetric])
  have new_latent: "\<And>n. n < ?N \<Longrightarrow> eip_soln i j ?N \<iota> ?s1 n
      = (\<Sum>m\<le>n. latent' m * gsl_ran_poisson_pdf (n - m) \<iota>)"
  proof -
    fix n assume n: "n < ?N"
    have "eip_soln i j ?N \<iota> ?s1 n
          = (\<Sum>m<Suc n. latent_midge_density ?s1 i j m * poisson_pmf (int n - int m) \<iota>)"
      using n by (simp add: eip_soln_def sum_stages_sum del: sum.lessThan_Suc)
    also have "\<dots> = (\<Sum>m<Suc n. latent' m * gsl_ran_poisson_pdf (n - m) \<iota>)"
    proof (rule sum.cong[OF refl])
      fix m assume "m \<in> {..<Suc n}"
      then have m: "m \<le> n" by simp
      then have "m < ?N" using n by simp
      moreover have "nat (int n - int m) = n - m" using m by simp
      ultimately show "latent_midge_density ?s1 i j m * poisson_pmf (int n - int m) \<iota>
                       = latent' m * gsl_ran_poisson_pdf (n - m) \<iota>"
        by (simp add: lat1 poisson_pmf_def)
    qed
    finally show "eip_soln i j ?N \<iota> ?s1 n
      = (\<Sum>m\<le>n. latent' m * gsl_ran_poisson_pdf (n - m) \<iota>)"
      by (simp add: lessThan_Suc_atMost)
  qed
  have new_inf: "eip_soln i j ?N \<iota> ?s1 ?N
      = inf_midge_density st i j * \<sigma>
        + (\<Sum>m<?N. latent' m * gsl_cdf_poisson_Q (?N - m - 1) \<iota>)"
  proof -
    have "(\<Sum>m<?N. latent_midge_density ?s1 i j m * poisson_sf (int ?N - int m - 1) \<iota>)
          = (\<Sum>m<?N. latent' m * gsl_cdf_poisson_Q (?N - m - 1) \<iota>)"
    proof (rule sum.cong[OF refl])
      fix m assume "m \<in> {..<?N}"
      then have m: "m < ?N" by simp
      then have "nat (int ?N - int m - 1) = ?N - m - 1" by simp
      with m show "latent_midge_density ?s1 i j m * poisson_sf (int ?N - int m - 1) \<iota>
                   = latent' m * gsl_cdf_poisson_Q (?N - m - 1) \<iota>"
        by (simp add: lat1 poisson_sf_def)
    qed
    then show ?thesis
      by (simp add: eip_soln_def sum_stages_sum apply_mortality_inf)
  qed
  show ?thesis
    by (simp add: cell write_back_latent write_back_inf new_latent new_inf)
qed

section \<open>The local list and the detection effects\<close>


















section \<open>The claims\<close>

text \<open>
  Claim C7. With \<^verbatim>\<open>no_control\<close> set, starting from a state in which no farm is
  movement-banned, in a protection zone or in a surveillance zone, no farm has any of the
  three flags after any number \<open>n\<close> of simulated days, whatever the generator returns.
  The run is not empty: it returns a state whenever \<^verbatim>\<open>dt\<close> is positive, the stride of
  the mortality loop is at least one and the \<open>n\<close> days stay within the 365 days of the
  weather grids.
\<close>

theorem no_control_never_restricts:
  assumes nc: "no_control (ctrl P)"
    and init: "\<forall>k. \<not> movement_banned (farms st k) \<and> \<not> protection_zone (farms st k)
                 \<and> \<not> surveillance_zone (farms st k)"
  shows "(\<forall>st' g'. simulate_days P n (st, g) = Some (st', g') \<longrightarrow>
            (\<forall>k. \<not> movement_banned (farms st' k) \<and> \<not> protection_zone (farms st' k)
                 \<and> \<not> surveillance_zone (farms st' k)))
       \<and> (substeps_end (dt (sim P))
            \<and> 1 \<le> c_int (midge_grid_width (grids P) / temp_grid_width (grids P))
            \<and> simulation_day st + n \<le> 365
          \<longrightarrow> simulate_days P n (st, g) \<noteq> None)"
proof (rule conjI)
  show "\<forall>st' g'. simulate_days P n (st, g) = Some (st', g') \<longrightarrow>
            (\<forall>k. \<not> movement_banned (farms st' k) \<and> \<not> protection_zone (farms st' k)
                 \<and> \<not> surveillance_zone (farms st' k))"
  proof (intro allI impI)
    fix st' g' k
    assume run: "simulate_days P n (st, g) = Some (st', g')"
    from simulate_days_flags[OF nc run, of k]
    have "farm_flags (farms st' k) = farm_flags (farms st k)"
      by (simp add: view_def)
    with init show "\<not> movement_banned (farms st' k) \<and> \<not> protection_zone (farms st' k)
                   \<and> \<not> surveillance_zone (farms st' k)"
      by (simp add: farm_flags_def)
  qed
next
  show "substeps_end (dt (sim P))
            \<and> 1 \<le> c_int (midge_grid_width (grids P) / temp_grid_width (grids P))
            \<and> simulation_day st + n \<le> 365
          \<longrightarrow> simulate_days P n (st, g) \<noteq> None"
    using simulate_days_total[of P "(st, g)" n] by auto
qed

theorem no_control_never_restricts_witness:
  "\<exists>st' g'. simulate_days params_detect 1 (state_cow, rng_quarter) = Some (st', g')
     \<and> detected (farms st' 0) \<and> num_farms_detected_today st' = 1
     \<and> (\<forall>k. \<not> movement_banned (farms st' k) \<and> \<not> protection_zone (farms st' k)
                 \<and> \<not> surveillance_zone (farms st' k))"
proof -
  have nc: "no_control (ctrl params_detect)" by (simp add: params_detect_def)
  have init: "\<forall>k. \<not> movement_banned (farms state_cow k) \<and> \<not> protection_zone (farms state_cow k)
                 \<and> \<not> surveillance_zone (farms state_cow k)"
    by (simp add: state_cow_def state0_def farm0_def)
  from cow_detected_day obtain s g where
    day: "simulate_day params_detect (state_cow, rng_quarter) = Some (s, g)"
    and d: "detected (farms s 0)" "num_farms_detected_today s = 1"
    by blast
  from day have days: "simulate_days params_detect 1 (state_cow, rng_quarter) = Some (s, g)"
    by simp
  from no_control_never_restricts[OF nc init, of 1 rng_quarter] days
  have "\<forall>k. \<not> movement_banned (farms s k) \<and> \<not> protection_zone (farms s k)
                 \<and> \<not> surveillance_zone (farms s k)"
    by blast
  with days d show ?thesis by blast
qed

text \<open>
  Claim C1. The claim says that the day index of the weather reads in
  \<^verbatim>\<open>farm_get_weather\<close> and \<^verbatim>\<open>midge_mortality_and_incubation\<close> is
  \<^verbatim>\<open>simulation_day mod 365\<close> and so stays below 365. The code indexes with
  \<^verbatim>\<open>simulation_day\<close> itself: on day 365, the state that the 365th call of
  \<^verbatim>\<open>simulate_day\<close> leaves (with \<^verbatim>\<open>day_of_year\<close> wrapped to 0), the index is 365, one
  past the grid, and neither function has a defined result.
\<close>

theorem weather_index_past_the_grid:
  "weather_time_index (st\<lparr>simulation_day := 365\<rparr>) = 365
   \<and> \<not> weather_time_index (st\<lparr>simulation_day := 365\<rparr>) < WEATHER_DAYS
   \<and> day_of_year (advance_time (st\<lparr>simulation_day := 364\<rparr>)) = 0
   \<and> weather_time_index (advance_time (st\<lparr>simulation_day := 364\<rparr>)) = 365
   \<and> farm_get_weather k (st\<lparr>simulation_day := 365\<rparr>) g = None
   \<and> mortality_incubation_cell e sp i j (st\<lparr>simulation_day := 365\<rparr>) = None"
  by (simp add: weather_defs mortality_incubation_cell_def advance_time_def Let_def)

text \<open>
  Claim C10. \<^verbatim>\<open>farm_get_weather\<close> sets \<^verbatim>\<open>wind_today\<close> and \<^verbatim>\<open>autocorr\<close> of its
  farm to zero whenever it returns (it has no result only when the weather read leaves
  the grid). When \<^verbatim>\<open>farm_transmission_hosts_to_midges\<close> runs in the daily update of
  farm \<open>k\<close>, after the weather read, the deaths and recoveries and the midge-to-host
  step, \<^verbatim>\<open>autocorr\<close> of that farm is still zero, so the climate regressor is the sum
  without the autocorrelation term; and whatever value \<^verbatim>\<open>autocorr\<close> held before the
  daily update, the update gives the same state and generator: the value never reaches
  \<^verbatim>\<open>bites_per_animal\<close> or the latent deposit.
\<close>

theorem autocorr_term_is_zero:
  "(\<forall>st' g'. farm_get_weather k st g = Some (st', g') \<longrightarrow>
       wind_today (farms st' k) = 0 \<and> autocorr (farms st' k) = 0)
   \<and> (\<forall>s3 g3. farm_hosts_phase P k (st, g) = Some (s3, g3) \<longrightarrow>
       autocorr (farms s3 k) = 0
       \<and> climate_regressor (farms s3 k) d =
           v_intercept (farms s3 k)
           + sin_yearly (farms s3 k) * sin (2 * pi * d / 365.25)
           + cos_yearly (farms s3 k) * cos (2 * pi * d / 365.25)
           + sin_6_month (farms s3 k) * sin (4 * pi * d / 365.25)
           + cos_6_month (farms s3 k) * cos (4 * pi * d / 365.25)
           + cos_4_month (farms s3 k) * cos (6 * pi * d / 365.25)
           + (temp_eff (farms s3 k) * temp_today (farms s3 k)
              + temp_eff_sq (farms s3 k) * temp_today (farms s3 k) * temp_today (farms s3 k))
           + overdispersion (farms s3 k))
   \<and> farm_update P k (upd_farm k (\<lambda>f. f\<lparr>autocorr := a\<rparr>) st, g) = farm_update P k (st, g)
   \<and> (simulation_day st < 365 \<longrightarrow> farm_update P k (st, g) \<noteq> None)"
proof (intro conjI allI impI)
  fix st' g' assume "farm_get_weather k st g = Some (st', g')"
  from farm_get_weather_zero[OF this]
  show "wind_today (farms st' k) = 0" and "autocorr (farms st' k) = 0" by simp_all
next
  fix s3 g3 assume "farm_hosts_phase P k (st, g) = Some (s3, g3)"
  from farm_hosts_phase_autocorr[OF this]
  show "autocorr (farms s3 k) = 0"
    and "climate_regressor (farms s3 k) d =
           v_intercept (farms s3 k)
           + sin_yearly (farms s3 k) * sin (2 * pi * d / 365.25)
           + cos_yearly (farms s3 k) * cos (2 * pi * d / 365.25)
           + sin_6_month (farms s3 k) * sin (4 * pi * d / 365.25)
           + cos_6_month (farms s3 k) * cos (4 * pi * d / 365.25)
           + cos_4_month (farms s3 k) * cos (6 * pi * d / 365.25)
           + (temp_eff (farms s3 k) * temp_today (farms s3 k)
              + temp_eff_sq (farms s3 k) * temp_today (farms s3 k) * temp_today (farms s3 k))
           + overdispersion (farms s3 k)"
    by (simp_all add: climate_regressor_def)
next
  show "farm_update P k (upd_farm k (\<lambda>f. f\<lparr>autocorr := a\<rparr>) st, g) = farm_update P k (st, g)"
    by (simp add: farm_update_def farm_hosts_phase_def farm_get_weather_forgets_autocorr)
next
  assume "simulation_day st < 365"
  then show "farm_update P k (st, g) \<noteq> None"
    using farm_update_total[of "(st, g)" P k] by auto
qed

theorem autocorr_term_is_zero_witness:
  "\<exists>s3 g3. farm_hosts_phase params0 0 (state0\<lparr>farms := (\<lambda>_. farm0\<lparr>autocorr := 7\<rparr>)\<rparr>, rng0) = Some (s3, g3)
     \<and> autocorr (farms s3 0) = 0
     \<and> farm_update params0 0 (state0\<lparr>farms := (\<lambda>_. farm0\<lparr>autocorr := 7\<rparr>)\<rparr>, rng0) \<noteq> None"
proof -
  let ?st = "state0\<lparr>farms := (\<lambda>_. farm0\<lparr>autocorr := 7\<rparr>)\<rparr>"
  have day: "simulation_day ?st < 365" by (simp add: state0_def)
  from autocorr_term_is_zero[of 0 ?st rng0 params0 0 7] day
  have upd: "farm_update params0 0 (?st, rng0) \<noteq> None"
    and zero: "\<forall>s3 g3. farm_hosts_phase params0 0 (?st, rng0) = Some (s3, g3) \<longrightarrow>
       autocorr (farms s3 0) = 0"
    by simp_all
  from upd obtain s3 g3 where "farm_hosts_phase params0 0 (?st, rng0) = Some (s3, g3)"
    by (auto simp add: farm_update_def bind_eq_Some_conv)
  with zero upd show ?thesis by blast
qed

text \<open>
  Claim C8. \<^verbatim>\<open>midge_mortality_and_incubation\<close> runs its double loop from cell \<open>(0, 0)\<close>
  with the stride \<open>R = (int)(midge_grid_width / temp_grid_width)\<close>. With \<open>R \<ge> 1\<close> and a
  day below 365 it returns, and for every cell \<open>(i, j)\<close> that the loop processes
  (\<open>i < 244\<close>, \<open>j < 131\<close>, both multiples of \<open>R\<close>), with the temperature \<open>T\<close> of the cell on
  the day, survival \<open>\<sigma> = exp (- mortality_rate T)\<close>, incubation index
  \<open>\<iota> = num_eip * incubation_rate T > 0\<close> and post-mortality latent densities
  \<open>latent' m = latent m * \<sigma>\<close> of positive total, all read in the state before the call:
  in the state after the call the latent density of stage \<open>n < num_eip\<close> is the sum over
  \<open>m \<le> n\<close> of \<open>latent' m\<close> times the Poisson probability of \<open>n - m\<close>, and the infectious
  density is the \<open>\<sigma>\<close>-scaled old one plus the sum over \<open>m < num_eip\<close> of \<open>latent' m\<close>
  times the Poisson survival at \<open>num_eip - m - 1\<close>. The cells that the loop does not
  process keep their densities.
\<close>

theorem eip_progression_formula:
  fixes e :: EpiParams and sp :: VectorSpecies and gp :: GridParams
    and st :: SimulationState and i j :: nat
  defines "R \<equiv> c_int (midge_grid_width gp / temp_grid_width gp)"
  defines "T \<equiv> temp_grid st i j (simulation_day st)"
  defines "\<sigma> \<equiv> exp (- mortality_rate sp T)"
  defines "\<iota> \<equiv> real (num_eip_stages e) * incubation_rate sp T"
  defines "latent' \<equiv> \<lambda>m. latent_midge_density st i j m * \<sigma>"
  assumes day: "simulation_day st < 365"
    and stride: "1 \<le> R"
    and cell: "on_stride R i j"
    and incub: "0 < \<iota>"
    and total: "0 < (\<Sum>m<num_eip_stages e. latent' m)"
  shows "\<exists>st'. midge_mortality_and_incubation st e gp sp = Some st'
     \<and> (\<forall>n<num_eip_stages e.
           latent_midge_density st' i j n
           = (\<Sum>m\<le>n. latent' m * gsl_ran_poisson_pdf (n - m) \<iota>))
     \<and> inf_midge_density st' i j
         = inf_midge_density st i j * \<sigma>
           + (\<Sum>m<num_eip_stages e. latent' m * gsl_cdf_poisson_Q (num_eip_stages e - m - 1) \<iota>)
     \<and> (\<forall>a b. \<not> on_stride R a b \<longrightarrow>
           latent_midge_density st' a b = latent_midge_density st a b
           \<and> inf_midge_density st' a b = inf_midge_density st a b)"
proof -
  from midge_mortality_and_incubation_total[OF stride[unfolded R_def] day]
  obtain st' where run: "midge_mortality_and_incubation st e gp sp = Some st'" by blast
  note cells = midge_mortality_and_incubation_cells[OF stride[unfolded R_def] run,
      folded R_def]
  from mortality_incubation_cell_formula[OF day incub[unfolded \<iota>_def T_def]
      total[unfolded latent'_def \<sigma>_def T_def]]
  obtain s1 where s1: "mortality_incubation_cell e sp i j st = Some s1"
    and lat: "\<forall>n<num_eip_stages e. latent_midge_density s1 i j n
           = (\<Sum>m\<le>n. latent' m * gsl_ran_poisson_pdf (n - m) \<iota>)"
    and inf1: "inf_midge_density s1 i j
         = inf_midge_density st i j * \<sigma>
           + (\<Sum>m<num_eip_stages e. latent' m * gsl_cdf_poisson_Q (num_eip_stages e - m - 1) \<iota>)"
    unfolding latent'_def \<sigma>_def \<iota>_def T_def by blast
  have here: "midge_cell st' i j = midge_cell s1 i j"
    using cells[of i j] cell s1 by simp
  have off: "\<forall>a b. \<not> on_stride R a b \<longrightarrow>
           latent_midge_density st' a b = latent_midge_density st a b
           \<and> inf_midge_density st' a b = inf_midge_density st a b"
  proof (intro allI impI)
    fix a b assume "\<not> on_stride R a b"
    with cells[of a b] have "midge_cell st' a b = midge_cell st a b" by simp
    then show "latent_midge_density st' a b = latent_midge_density st a b
           \<and> inf_midge_density st' a b = inf_midge_density st a b"
      by (simp add: midge_cell_eq)
  qed
  from here have "latent_midge_density st' i j = latent_midge_density s1 i j"
    and "inf_midge_density st' i j = inf_midge_density s1 i j"
    by (simp_all add: midge_cell_eq)
  with run lat inf1 off show ?thesis by simp
qed

theorem eip_progression_formula_witness:
  "\<exists>st'. midge_mortality_and_incubation (state0\<lparr>latent_midge_density := (\<lambda>_ _ _. 1)\<rparr>)
            (epi0\<lparr>num_eip_stages := 2\<rparr>) ((grids params0)\<lparr>midge_grid_width := 2\<rparr>)
            (species0\<lparr>incubation_rate := (\<lambda>_. 1 / 2)\<rparr>) = Some st'
     \<and> latent_midge_density st' 2 4 0 = exp (- 1)
     \<and> latent_midge_density st' 2 4 1 = 2 * exp (- 1)
     \<and> inf_midge_density st' 2 4 = 2 - 3 * exp (- 1)
     \<and> latent_midge_density st' 1 4 = (\<lambda>_. 1)
     \<and> inf_midge_density st' 1 4 = 0"
proof -
  let ?sp = "species0\<lparr>incubation_rate := (\<lambda>_. 1 / 2)\<rparr>"
  let ?st = "state0\<lparr>latent_midge_density := (\<lambda>_ _ _. 1)\<rparr>"
  let ?e = "epi0\<lparr>num_eip_stages := 2\<rparr>"
  let ?gp = "(grids params0)\<lparr>midge_grid_width := 2\<rparr>"
  have day: "simulation_day ?st < 365" by (simp add: state0_def)
  have R: "c_int (midge_grid_width ?gp / temp_grid_width ?gp) = 2"
    by (simp add: params0_def c_int_def)
  have stride: "1 \<le> c_int (midge_grid_width ?gp / temp_grid_width ?gp)"
    unfolding R by simp
  have cell: "on_stride (c_int (midge_grid_width ?gp / temp_grid_width ?gp)) 2 4"
    unfolding R by (simp add: on_stride_def MAX_GRID_S_def MAX_GRID_E_def)
  have off: "\<not> on_stride (c_int (midge_grid_width ?gp / temp_grid_width ?gp)) 1 4"
    unfolding R by (simp add: on_stride_def)
  have incub: "0 < real (num_eip_stages ?e)
                   * incubation_rate ?sp (temp_grid ?st 2 4 (simulation_day ?st))"
    by (simp add: epi0_def species0_def)
  have total: "0 < (\<Sum>m<num_eip_stages ?e. latent_midge_density ?st 2 4 m
                 * exp (- mortality_rate ?sp (temp_grid ?st 2 4 (simulation_day ?st))))"
    by (simp add: epi0_def species0_def state0_def)
  from eip_progression_formula[OF day stride cell incub total]
  obtain st' where run: "midge_mortality_and_incubation ?st ?e ?gp ?sp = Some st'"
    and lat: "\<And>n. n < 2 \<Longrightarrow> latent_midge_density st' 2 4 n
          = (\<Sum>m\<le>n. 1 * gsl_ran_poisson_pdf (n - m) 1)"
    and inf1: "inf_midge_density st' 2 4
          = 0 + (\<Sum>m<2. 1 * gsl_cdf_poisson_Q (2 - m - 1) 1)"
    and rest: "\<And>a b. \<not> on_stride 2 a b \<Longrightarrow>
          latent_midge_density st' a b = (\<lambda>_. 1) \<and> inf_midge_density st' a b = 0"
    unfolding R by (auto simp add: epi0_def species0_def state0_def)
  have l0: "latent_midge_density st' 2 4 0 = exp (- 1)"
    using lat[of 0] by (simp add: gsl_ran_poisson_pdf_def)
  have l1: "latent_midge_density st' 2 4 1 = 2 * exp (- 1)"
    using lat[of 1] by (simp add: gsl_ran_poisson_pdf_def)
  have two: "{..<2::nat} = {0, 1}" by auto
  have i1: "inf_midge_density st' 2 4 = 2 - 3 * exp (- 1)"
    using inf1
    by (simp add: two gsl_cdf_poisson_Q_def gsl_cdf_poisson_P_def gsl_ran_poisson_pdf_def)
  from rest[of 1 4] off[unfolded R] run l0 l1 i1 show ?thesis by simp
qed

text \<open>
  Claim C9. The claim says that with every \<^verbatim>\<open>movement_risk\<close> equal to 0 no edge ever
  moves, for every generator. The gate is \<^verbatim>\<open>if (u > risk) return;\<close> and
  \<^verbatim>\<open>gsl_rng_uniform\<close> can return 0: then \<open>0 > 0\<close> is false and the edge is processed.
  With one edge of risk 0 and a gate draw of 0, a banned source gives one interrupted
  movement, and a source with one infected cow ships it: one movement transmission.
\<close>

theorem zero_risk_edge_fires_on_zero_draw:
  "(\<forall>k. movement_risk (state0\<lparr>num_movement_links := 1\<rparr>) k = 0)
   \<and> rng_ok rng0
   \<and> interrupted_movements
        (fst (movement_transmission
           (state0\<lparr>num_movement_links := 1, farms := (\<lambda>_. farm0\<lparr>movement_banned := True\<rparr>)\<rparr>)
           epi0 (mov params0) ctrl0 rng0)) = 1
   \<and> rng_ok (rng0\<lparr>uniform_out := (\<lambda>n. if n = 0 then 0 else 1 / 2)\<rparr>)
   \<and> num_movement_transmissions
        (fst (movement_transmission
           (state0\<lparr>num_movement_links := 1, movement_to := (\<lambda>_. 1),
                   farms := (\<lambda>_. farm0\<lparr>i_cattle := (\<lambda>n. if n = 0 then 1 else 0)\<rparr>)\<rparr>)
           epi0 (mov params0) ctrl0
           (rng0\<lparr>uniform_out := (\<lambda>n. if n = 0 then 0 else 1 / 2)\<rparr>))) = 1"
  by (simp add: state0_def farm0_def rng0_def epi0_def ctrl0_def params0_def rng_ok_def
      movement_transmission_def transmission_via_movement_def movement_interrupted_def
      rng_defs Let_def num_sheep_def num_cattle_def num_inf_sheep_def num_inf_cattle_def
      cattle_shipment_def cattle_shipment_step_def int_min_def c_int_def upd_farm_def)




text \<open>
  Claim C2. The claim says that a diffusion sub-step that starts with a zero scratch
  grid ends with every cell of it zero, boundary rows and columns included. The absorb
  loops of \<^verbatim>\<open>midge_diffusion_step\<close> run over the interior cells only
  (\<open>1 \<le> i < MAX_GRID_S - 1\<close>, \<open>1 \<le> j < MAX_GRID_E - 1\<close>): a source next to the boundary
  deposits half its flux in a boundary cell of the scratch grid, and that cell is never
  reset. Amended: after the pass of each latent stage, after the pass of the infectious
  field and after the whole sub-step, every interior cell of the scratch grid is zero
  (whatever it held before); a boundary cell holds what it held before the pass plus
  the deposits of the pass.
\<close>

theorem scratch_interior_zero_after_pass:
  "(\<forall>a b. interior a b \<longrightarrow>
       diffusion_soln_grid (diffuse_latent_stage dtv h2 n st) a b = 0
     \<and> diffusion_soln_grid (diffuse_infectious dtv h2 st) a b = 0
     \<and> diffusion_soln_grid (midge_diffusion_step st sp e gp) a b = 0)
   \<and> (\<forall>a b. \<not> interior a b \<longrightarrow>
       diffusion_soln_grid (diffuse_latent_stage dtv h2 n st) a b
         = diffusion_soln_grid st a b
           + deposits dtv h2 (diffusion_grid st) (latent_field st n) a b
     \<and> diffusion_soln_grid (diffuse_infectious dtv h2 st) a b
         = diffusion_soln_grid st a b
           + deposits dtv h2 (diffusion_grid st) (inf_midge_density st) a b)"
  by (simp add: diffuse_latent_stage_fields diffuse_infectious_fields diffuse_field_cells
      midge_diffusion_step_scratch)

theorem scratch_interior_zero_after_pass_witness:
  "interior 1 1
   \<and> diffusion_soln_grid
       (midge_diffusion_step state_source (sim params0) epi0 (grids params0)) 1 1 = 0
   \<and> \<not> interior 0 1
   \<and> diffusion_soln_grid (diffuse_infectious 1 1 state_source) 0 1 = 1 / 2"
proof -
  have z: "diffusion_soln_grid state_source 0 1 = 0"
    by (simp add: state_source_def state0_def)
  note pass = scratch_interior_zero_after_pass[of 1 1 0 state_source "sim params0" epi0
      "grids params0"]
  from pass interior_simps(1)
  have inside: "diffusion_soln_grid
       (midge_diffusion_step state_source (sim params0) epi0 (grids params0)) 1 1 = 0"
    by blast
  from pass interior_simps(2)
  have "diffusion_soln_grid (diffuse_infectious 1 1 state_source) 0 1
         = diffusion_soln_grid state_source 0 1
           + deposits 1 1 (diffusion_grid state_source) (inf_midge_density state_source) 0 1"
    by blast
  then have "diffusion_soln_grid (diffuse_infectious 1 1 state_source) 0 1 = 1 / 2"
    by (simp only: z state_source_deposit add_0)
  with inside interior_simps(1,2) show ?thesis by blast
qed

theorem scratch_boundary_counterexample:
  "diffusion_soln_grid state_source = (\<lambda>_ _. 0)
   \<and> diffusion_soln_grid
       (midge_diffusion_step state_source (sim params0) epi0 (grids params0)) 0 1 = 1 / 2"
proof (rule conjI)
  show "diffusion_soln_grid state_source = (\<lambda>_ _. 0)"
    by (simp add: state_source_def state0_def)
  show "diffusion_soln_grid
       (midge_diffusion_step state_source (sim params0) epi0 (grids params0)) 0 1 = 1 / 2"
    by (rule state_source_step)
qed

text \<open>
  Claim C6. A diffusion sub-step begins with the interior of the scratch grid at zero:
  that is the state in which every sub-step leaves it, and the spec's invariant for the
  beginning of a sub-step. From such a state, when no interior cell next to the
  boundary has a density above \<open>0.00001\<close> in the infectious field or in a latent stage
  below \<^verbatim>\<open>num_eip_stages\<close>, the sub-step preserves the total mass, summed over all
  cells, of the infectious field and of every latent stage, and it leaves the interior
  of the scratch grid at zero again. A source cell \<open>(i, j)\<close> adds \<open>- 2 * flux\<close> to its
  own scratch cell and \<open>0.5 * flux\<close> to each of its four neighbours (\<open>flux\<close> is
  \<open>D * dt * density / h2\<close> when the density is above \<open>0.00001\<close>, and nothing is added
  otherwise), and these deposits leave the total of the scratch grid unchanged.
\<close>

theorem diffusion_substep_conserves_mass:
  assumes zero: "\<forall>a b. interior a b \<longrightarrow> diffusion_soln_grid st a b = 0"
    and quiet: "\<forall>i j. near_boundary i j \<longrightarrow>
                  inf_midge_density st i j \<le> 0.00001
                  \<and> (\<forall>n<num_eip_stages e. latent_midge_density st i j n \<le> 0.00001)"
  shows "total_mass (inf_midge_density (midge_diffusion_step st sp e gp))
           = total_mass (inf_midge_density st)
       \<and> (\<forall>n. total_mass (latent_field (midge_diffusion_step st sp e gp) n)
                = total_mass (latent_field st n))
       \<and> (\<forall>a b. interior a b \<longrightarrow>
             diffusion_soln_grid (midge_diffusion_step st sp e gp) a b = 0)
       \<and> (\<forall>i j D rho soln.
             (\<forall>a b. deposit (dt sp) h2 D rho i j soln a b
                = soln a b
                  + flux_of (dt sp) h2 D rho i j
                    * (- 2 * hit i j a b + 0.5 * hit (i + 1) j a b + 0.5 * hit (i - 1) j a b
                       + 0.5 * hit i (j + 1) a b + 0.5 * hit i (j - 1) a b))
             \<and> (interior i j \<longrightarrow>
                  total_mass (deposit (dt sp) h2 D rho i j soln) = total_mass soln))"
  using midge_diffusion_step_mass[OF zero quiet]
  by (simp add: midge_diffusion_step_scratch deposit_contrib contrib_def deposit_total_mass)

theorem diffusion_substep_conserves_mass_witness:
  "total_mass (inf_midge_density
      (midge_diffusion_step
         (state0\<lparr>inf_midge_density := (\<lambda>a b. if a = 5 \<and> b = 5 then 1 else 0),
                 diffusion_grid := (\<lambda>_ _. 1 / 8)\<rparr>)
         (sim params0) epi0 (grids params0))) = 1"
proof -
  let ?st = "state0\<lparr>inf_midge_density := (\<lambda>a b. if a = 5 \<and> b = 5 then 1 else 0),
                    diffusion_grid := (\<lambda>_ _. 1 / 8)\<rparr>"
  have zero: "\<forall>a b. interior a b \<longrightarrow> diffusion_soln_grid ?st a b = 0"
    by (simp add: state0_def)
  have quiet: "\<forall>i j. near_boundary i j \<longrightarrow>
                  inf_midge_density ?st i j \<le> 0.00001
                  \<and> (\<forall>n<num_eip_stages epi0. latent_midge_density ?st i j n \<le> 0.00001)"
    by (simp add: state0_def near_boundary_def MAX_GRID_S_def MAX_GRID_E_def)
  from diffusion_substep_conserves_mass[OF zero quiet, of "sim params0" "grids params0"]
  show ?thesis
    by (simp add: total_mass_point)
qed

text \<open>
  Claim C5. The claim says that on every farm, for each species, \<open>S + \<Sum> I + R\<close> at a
  day boundary is the initial population, up to movements and recoveries. A recovery
  moves an animal from the last infectious stage to \<open>R\<close> and does not change the sum;
  a sheep that dies is taken out of its infectious stage and counted in
  \<^verbatim>\<open>num_sheep_deaths\<close> only: one farm with one infected sheep and no movement link
  has no sheep left after a day on which the mortality draw is 1. Amended, with the
  deaths subtracted: when both species have at least one infectious stage and every
  movement link joins two farms of the list, then for every farm that no movement link
  names the cattle total \<open>S + \<Sum> I + R\<close> at every day boundary is the initial one, and
  the sheep total after a day is the one before the day less the sheep that died on the
  farm that day, which is the growth of \<^verbatim>\<open>num_sheep_deaths\<close> during the update of
  that farm. A shipment takes infected animals from its source farm and adds them to
  its destination farm and is not logged per farm, so for the farms on a link the
  totals are conserved in the sum over the farms: the cattle on the farms are the same
  at every day boundary, and the sheep on the farms after a day are those before the day
  less the day's \<^verbatim>\<open>num_sheep_deaths\<close>. The days return whenever the rounded values of
  \<^verbatim>\<open>elapsed\<close> reach 1, the stride of the mortality loop is at least one and the days
  stay within the weather grids.
\<close>

theorem herd_totals_at_day_boundaries:
  assumes stages: "1 \<le> num_inf_stages_sheep (epi P)" "1 \<le> num_inf_stages_cattle (epi P)"
    and links: "links_on_farms st"
  shows "(\<forall>st' g'. simulate_days P n (st, g) = Some (st', g') \<longrightarrow>
            cattle_on_farms (epi P) st' = cattle_on_farms (epi P) st
            \<and> (\<forall>k. off_the_links st k \<longrightarrow>
                  num_cattle (farms st' k) (num_inf_stages_cattle (epi P))
                  = num_cattle (farms st k) (num_inf_stages_cattle (epi P))))
       \<and> (\<forall>st' g'. simulate_day P (st, g) = Some (st', g') \<longrightarrow>
            sheep_on_farms (epi P) st'
            = sheep_on_farms (epi P) st - real_of_int (num_sheep_deaths st')
            \<and> (\<forall>k<num_farms st. off_the_links st k \<longrightarrow>
                  (\<exists>sa sb. day_upto P k (st, g) = Some sa \<and> farm_update P k sa = Some sb
                     \<and> num_sheep (farms st' k) (num_inf_stages_sheep (epi P))
                       = num_sheep (farms st k) (num_inf_stages_sheep (epi P))
                         - real_of_int (num_sheep_deaths (fst sb)
                                        - num_sheep_deaths (fst sa)))))
       \<and> (substeps_end (dt (sim P))
            \<and> 1 \<le> c_int (midge_grid_width (grids P) / temp_grid_width (grids P))
            \<and> simulation_day st + n \<le> 365
          \<longrightarrow> simulate_days P n (st, g) \<noteq> None)"
proof (intro conjI allI impI)
  fix st' g' assume run: "simulate_days P n (st, g) = Some (st', g')"
  from simulate_days_cattle[OF stages run] links
  show "cattle_on_farms (epi P) st' = cattle_on_farms (epi P) st" by simp
  fix k assume "off_the_links st k"
  with simulate_days_cattle[OF stages run, of k] links
  show "num_cattle (farms st' k) (num_inf_stages_cattle (epi P))
        = num_cattle (farms st k) (num_inf_stages_cattle (epi P))" by simp
next
  fix st' g' assume run: "simulate_day P (st, g) = Some (st', g')"
  from simulate_day_herds(2)[OF run stages] links
  show "sheep_on_farms (epi P) st'
        = sheep_on_farms (epi P) st - real_of_int (num_sheep_deaths st')" by simp
  fix k assume "k < num_farms st" "off_the_links st k"
  with simulate_day_sheep_farm[OF run stages, of k]
  show "\<exists>sa sb. day_upto P k (st, g) = Some sa \<and> farm_update P k sa = Some sb
          \<and> num_sheep (farms st' k) (num_inf_stages_sheep (epi P))
            = num_sheep (farms st k) (num_inf_stages_sheep (epi P))
              - real_of_int (num_sheep_deaths (fst sb) - num_sheep_deaths (fst sa))"
    by simp
next
  assume "substeps_end (dt (sim P))
            \<and> 1 \<le> c_int (midge_grid_width (grids P) / temp_grid_width (grids P))
            \<and> simulation_day st + n \<le> 365"
  then show "simulate_days P n (st, g) \<noteq> None"
    using simulate_days_total[of P "(st, g)" n] by auto
qed

theorem herd_totals_at_day_boundaries_witness:
  "\<exists>st' g' sa sb. simulate_days params0 1 (state_three, rng0) = Some (st', g')
     \<and> cattle_on_farms epi0 st' = 2
     \<and> sheep_on_farms epi0 st' = 2 - real_of_int (num_sheep_deaths st')
     \<and> day_upto params0 2 (state_three, rng0) = Some sa
     \<and> farm_update params0 2 sa = Some sb
     \<and> num_sheep (farms st' 2) 1
       = 1 - real_of_int (num_sheep_deaths (fst sb) - num_sheep_deaths (fst sa))"
proof -
  have e: "epi params0 = epi0" by (simp add: params0_def)
  have n: "num_inf_stages_sheep epi0 = 1" "num_inf_stages_cattle epi0 = 1"
    by (simp_all add: epi0_def)
  have stages: "1 \<le> num_inf_stages_sheep (epi params0)"
    "1 \<le> num_inf_stages_cattle (epi params0)"
    by (simp_all add: e n)
  have links: "links_on_farms state_three"
    by (simp add: links_on_farms_def state_three_def state0_def)
  have off: "2 < num_farms state_three" "off_the_links state_three 2"
    by (simp_all add: off_the_links_def state_three_def state0_def)
  have c0: "cattle_on_farms epi0 state_three = 2"
    by (simp add: cattle_on_farms_def num_cattle_def num_inf_cattle_def state_three_def
        state0_def farm0_def epi0_def eval_nat_numeral lessThan_Suc)
  have s0: "sheep_on_farms epi0 state_three = 2"
    by (simp add: sheep_on_farms_def num_sheep_def num_inf_sheep_def state_three_def
        state0_def farm0_def epi0_def eval_nat_numeral lessThan_Suc)
  have f2: "num_sheep (farms state_three 2) 1 = 1"
    by (simp add: num_sheep_def num_inf_sheep_def state_three_def state0_def farm0_def)
  have pre: "substeps_end (dt (sim params0))
            \<and> 1 \<le> c_int (midge_grid_width (grids params0) / temp_grid_width (grids params0))
            \<and> simulation_day state_three + 1 \<le> 365"
    by (simp add: params0_def state_three_def state0_def c_int_def substeps_end_one)
  note t = herd_totals_at_day_boundaries[OF stages links, of 1 rng0]
  from t pre obtain s g where days: "simulate_days params0 1 (state_three, rng0) = Some (s, g)"
    by auto
  then have day: "simulate_day params0 (state_three, rng0) = Some (s, g)"
    by (simp add: bind_eq_Some_conv)
  from t days have c: "cattle_on_farms epi0 s = 2" by (simp add: e c0)
  from t day have sh: "sheep_on_farms epi0 s = 2 - real_of_int (num_sheep_deaths s)"
    by (simp add: e s0)
  from t[THEN conjunct2, THEN conjunct1, rule_format, OF day, THEN conjunct2, rule_format,
      OF off]
  obtain sa sb where up: "day_upto params0 2 (state_three, rng0) = Some sa"
    and fu: "farm_update params0 2 sa = Some sb"
    and eq: "num_sheep (farms s 2) (num_inf_stages_sheep (epi params0))
       = num_sheep (farms state_three 2) (num_inf_stages_sheep (epi params0))
         - real_of_int (num_sheep_deaths (fst sb) - num_sheep_deaths (fst sa))"
    by blast
  from eq have "num_sheep (farms s 2) 1
       = 1 - real_of_int (num_sheep_deaths (fst sb) - num_sheep_deaths (fst sa))"
    by (simp only: e n f2)
  with days c sh up fu show ?thesis by blast
qed

theorem sheep_death_counterexample:
  "num_movement_links state_sheep = 0
   \<and> num_sheep (farms state_sheep 0) (num_inf_stages_sheep (epi params_nc)) = 1
   \<and> simulate_day params_nc (state_sheep, rng_ones) \<noteq> None
   \<and> num_sheep (farms (fst (the (simulate_day params_nc (state_sheep, rng_ones)))) 0)
        (num_inf_stages_sheep (epi params_nc)) = 0"
proof -
  from sheep_death_day obtain s g where
    day: "simulate_day params_nc (state_sheep, rng_ones) = Some (s, g)"
    and h: "i_sheep (farms s 0) 0 = 0" "s_sheep (farms s 0) = 0" "r_sheep (farms s 0) = 0"
    by blast
  have n: "num_inf_stages_sheep (epi params_nc) = 1"
    by (simp add: params_nc_def params0_def epi0_def)
  have "num_sheep (farms state_sheep 0) 1 = 1"
    by (simp add: num_sheep_def num_inf_sheep_def state_sheep_def state0_def farm0_def)
  moreover have "num_movement_links state_sheep = 0"
    by (simp add: state_sheep_def state0_def)
  moreover have "num_sheep (farms s 0) 1 = 0"
    by (simp add: num_sheep_def num_inf_sheep_def h)
  ultimately show ?thesis
    by (simp add: day n)
qed

end
